(* ===== verification/Prelude.thy ===== *)
theory Prelude
  imports Main "HOL-Library.List_Lexorder" "HOL-Library.Char_ord" "HOL-Library.Sublist"
begin

text \<open>
  Shared vocabulary of the development: byte strings, the shape of a Go validator
  (a sequence of guards, each returning early with its own error), loops over a list with a
  map of the keys seen so far, and the collections that carry the component proofs.

  A Go string or byte slice is a HOL string: one character is one byte, so length counts
  bytes, and the order of \<^verbatim>\<open>List_Lexorder\<close> with \<^verbatim>\<open>Char_ord\<close> is the bytewise order
  of Go's comparison operators.
\<close>

type_synonym bytes = string

named_theorems accepts_simps
  "what it means for a validator to accept, as a conjunction of its guards"

subsection \<open>Validators: early returns\<close>

text \<open>
  A validator returns its error or nothing. The source writes a sequence of
  conditional early returns; \<^verbatim>\<open>first_error\<close> is that sequence, and \<^verbatim>\<open>fail_if\<close>
  is one conditional return.
\<close>

definition fail_if :: "bool \<Rightarrow> 'e \<Rightarrow> 'e + unit" where
  "fail_if c e = (if c then Inl e else Inr ())"

fun first_error :: "('e + unit) list \<Rightarrow> 'e + unit" where
  "first_error [] = Inr ()"
| "first_error (Inl e # rs) = Inl e"
| "first_error (Inr _ # rs) = first_error rs"

definition accepts :: "'e + 'a \<Rightarrow> bool" where
  "accepts r = (case r of Inl _ \<Rightarrow> False | Inr _ \<Rightarrow> True)"

lemma accepts_Inr [simp]: "accepts (Inr x)" and accepts_Inl [simp]: "\<not> accepts (Inl e)"
  by (simp_all add: accepts_def)

lemma accepts_unit_iff: "accepts r \<longleftrightarrow> r = Inr ()" for r :: "'e + unit"
  by (cases r) simp_all

lemma accepts_fail_if [simp]: "accepts (fail_if c e) \<longleftrightarrow> \<not> c"
  by (simp add: fail_if_def)

lemma fail_if_eq_Inr [simp]: "fail_if c e = Inr u \<longleftrightarrow> \<not> c"
  by (simp add: fail_if_def)

lemma first_error_Cons: "first_error (r # rs) = (case r of Inl e \<Rightarrow> Inl e | Inr _ \<Rightarrow> first_error rs)"
  by (cases r) simp_all

lemma accepts_first_error_Cons [simp]:
  "accepts (first_error (r # rs)) \<longleftrightarrow> accepts r \<and> accepts (first_error rs)"
  by (cases r) simp_all

lemma accepts_first_error: "accepts (first_error rs) \<longleftrightarrow> (\<forall>r \<in> set rs. accepts r)"
  by (induction rs) simp_all

lemma first_error_append:
  "first_error (rs @ ss) = (case first_error rs of Inl e \<Rightarrow> Inl e | Inr _ \<Rightarrow> first_error ss)"
  by (induction rs) (simp_all add: first_error_Cons split: sum.splits)

subsection \<open>Loops with a map of seen keys\<close>

text \<open>
  The source deduplicates with \<^verbatim>\<open>seen[key]\<close> maps inside a loop. \<^verbatim>\<open>unique_scan\<close>
  is that loop for one key: it stops at the first element that fails its own check or whose
  key was seen before.
\<close>

fun unique_scan :: "('a \<Rightarrow> bool) \<Rightarrow> ('a \<Rightarrow> 'k) \<Rightarrow> 'k list \<Rightarrow> 'a list \<Rightarrow> bool" where
  "unique_scan ok key seen [] = True"
| "unique_scan ok key seen (x # xs) =
     (if \<not> ok x \<or> key x \<in> set seen then False else unique_scan ok key (key x # seen) xs)"

lemma unique_scan_iff:
  "unique_scan ok key seen xs \<longleftrightarrow>
     (\<forall>x \<in> set xs. ok x) \<and> distinct (map key xs) \<and> set (map key xs) \<inter> set seen = {}"
  by (induction xs arbitrary: seen) auto

lemma unique_scan_start [accepts_simps]:
  "unique_scan ok key [] xs \<longleftrightarrow> (\<forall>x \<in> set xs. ok x) \<and> distinct (map key xs)"
  by (simp add: unique_scan_iff)

text \<open>
  The source requires canonical order with \<^verbatim>\<open>i > 0 && xs[i-1] >= xs[i]\<close>: the list
  must be strictly ascending in its key.
\<close>

fun ascending :: "('a \<Rightarrow> 'k::linorder) \<Rightarrow> 'a list \<Rightarrow> bool" where
  "ascending key (x # y # zs) = (key x < key y \<and> ascending key (y # zs))"
| "ascending key _ = True"

lemma ascending_sorted_wrt: "ascending key xs \<longleftrightarrow> sorted_wrt (<) (map key xs)"
proof (induction key xs rule: ascending.induct)
  case (1 key x y zs)
  then show ?case by (auto dest: order.strict_trans)
qed simp_all

lemma ascending_distinct: "ascending key xs \<Longrightarrow> distinct (map key xs)"
  by (simp add: ascending_sorted_wrt strict_sorted_iff)

lemma ascending_sorted: "ascending key xs \<Longrightarrow> sorted (map key xs)"
  by (simp add: ascending_sorted_wrt strict_sorted_iff)

lemma ascending_unique:
  "ascending id xs \<Longrightarrow> ascending id ys \<Longrightarrow> set xs = set ys \<Longrightarrow> xs = ys"
  by (simp add: ascending_sorted_wrt strict_sorted_equal)

text \<open>The set of a Go map's keys listed in sorted order, as the source lists it.\<close>

definition sorted_keys :: "'a::linorder list \<Rightarrow> 'a list" where
  "sorted_keys xs = sort (remdups xs)"

lemma set_sorted_keys [simp]: "set (sorted_keys xs) = set xs"
  by (simp add: sorted_keys_def)

lemma ascending_sorted_keys: "ascending id (sorted_keys xs)"
  by (simp add: ascending_sorted_wrt sorted_keys_def strict_sorted_iff)

lemma sorted_keys_ascending: "ascending id xs \<Longrightarrow> sorted_keys xs = xs"
  by (rule ascending_unique) (simp_all add: ascending_sorted_keys)

subsection \<open>Lists updated in place\<close>

text \<open>Index of the first element with a property, as the source's search loops find it.\<close>

fun find_index :: "('a \<Rightarrow> bool) \<Rightarrow> 'a list \<Rightarrow> nat option" where
  "find_index P [] = None"
| "find_index P (x # xs) = (if P x then Some 0 else map_option Suc (find_index P xs))"

lemma find_index_Some:
  "find_index P xs = Some i \<Longrightarrow> i < length xs \<and> P (xs ! i) \<and> (\<forall>j < i. \<not> P (xs ! j))"
proof (induction xs arbitrary: i)
  case (Cons x xs)
  then show ?case by (cases i) (auto split: if_splits simp: less_Suc_eq_0_disj)
qed simp

lemma find_index_None: "find_index P xs = None \<longleftrightarrow> (\<forall>x \<in> set xs. \<not> P x)"
  by (induction xs) auto

lemma list_all2_map_eq: "list_all2 (\<lambda>x y. f x = g y) xs ys \<longleftrightarrow> map f xs = map g ys"
  by (simp add: list_all2_conv_all_nth list_eq_iff_nth_eq) auto

subsection \<open>Ascending instants and fresh keys\<close>

text \<open>
  A loop that carries the last instant seen checks that the whole list ascends; a loop that
  carries the keys seen checks that the rest of the keys is fresh.
\<close>

lemma sorted_chain: "sorted (p # a @ b) \<longleftrightarrow>
     sorted (p # a) \<and> sorted (last (p # a) # b)"
  for p :: "'a::linorder"
proof (induction a arbitrary: p)
  case Nil
  then show ?case by simp
next
  case (Cons x a)
  have "sorted (p # (x # a) @ b) \<longleftrightarrow> p \<le> x \<and> sorted (x # a @ b)"
    by (simp only: append_Cons sorted2)
  also have "\<dots> \<longleftrightarrow> sorted (p # x # a) \<and> sorted (last (x # a) # b)"
    by (simp only: Cons.IH sorted2 conj_assoc)
  finally show ?case by simp
qed

definition fresh :: "'a list \<Rightarrow> 'a list \<Rightarrow> bool" where
  "fresh seen xs = (distinct xs \<and> set xs \<inter> set seen = {})"

lemma fresh_Cons: "fresh seen (x # xs) \<longleftrightarrow> x \<notin> set seen \<and> fresh (x # seen) xs"
  by (auto simp: fresh_def)

lemma fresh_simps [simp]: "fresh seen []" "fresh [] xs \<longleftrightarrow> distinct xs"
  by (simp_all add: fresh_def)

end
