(* ===== verification/Go_Strings.thy ===== *)
theory Go_Strings
  imports Prelude
begin

text \<open>
  The parts of Go's packages \<^verbatim>\<open>strings\<close>, \<^verbatim>\<open>unicode/utf8\<close> and
  \<^verbatim>\<open>encoding/hex\<close> and of its anchored regular expressions that the program uses, on
  byte strings.
\<close>

subsection \<open>Bytes and character classes\<close>

definition byte :: "char \<Rightarrow> int" where
  "byte c = of_char c"

lemma byte_less [simp]: "byte c < 256"
  by (cases c) (auto simp: byte_def of_char_Char)

lemma byte_nonneg [simp]: "0 \<le> byte c"
  by (cases c) (auto simp: byte_def of_char_Char)

definition in_range :: "int \<Rightarrow> int \<Rightarrow> char \<Rightarrow> bool" where
  "in_range lo hi c = (lo \<le> byte c \<and> byte c \<le> hi)"

definition is_digit :: "char \<Rightarrow> bool" where
  "is_digit c = in_range 48 57 c"

definition is_lower :: "char \<Rightarrow> bool" where
  "is_lower c = in_range 97 122 c"

definition is_upper :: "char \<Rightarrow> bool" where
  "is_upper c = in_range 65 90 c"

definition is_alnum :: "char \<Rightarrow> bool" where
  "is_alnum c = (is_digit c \<or> is_lower c \<or> is_upper c)"

definition is_lower_hex :: "char \<Rightarrow> bool" where
  "is_lower_hex c = (is_digit c \<or> in_range 97 102 c)"

definition is_hex :: "char \<Rightarrow> bool" where
  "is_hex c = (is_digit c \<or> in_range 97 102 c \<or> in_range 65 70 c)"

lemmas class_defs =
  is_digit_def is_lower_def is_upper_def is_alnum_def is_lower_hex_def is_hex_def in_range_def

text \<open>
  \<^verbatim>\<open>strings.ToLower\<close> on the ASCII range; every use in the program is on text whose
  other bytes are refused by a class test made on the same text.
\<close>

definition lower_char :: "char \<Rightarrow> char" where
  "lower_char c = (if is_upper c then char_of (byte c + 32) else c)"

definition to_lower :: "bytes \<Rightarrow> bytes" where
  "to_lower s = map lower_char s"

lemma lower_char_id_iff: "lower_char c = c \<longleftrightarrow> \<not> is_upper c"
proof -
  have "is_upper c \<Longrightarrow> char_of (byte c + 32) \<noteq> c"
  proof
    assume u: "is_upper c" and eq: "char_of (byte c + 32) = c"
    from eq have "(of_char (char_of (byte c + 32) :: char) :: int) = byte c"
      by (simp add: byte_def)
    with u show False
      by (simp add: is_upper_def in_range_def)
  qed
  then show ?thesis by (auto simp: lower_char_def)
qed

lemma to_lower_id_iff: "to_lower s = s \<longleftrightarrow> list_all (\<lambda>c. \<not> is_upper c) s"
  by (induction s) (simp_all add: to_lower_def lower_char_id_iff)

lemma length_to_lower [simp]: "length (to_lower s) = length s"
  by (simp add: to_lower_def)

lemma lower_hex_iff: "is_lower_hex c \<longleftrightarrow> is_hex c \<and> \<not> is_upper c"
  by (auto simp: class_defs)

lemma lower_hex_alnum: "is_lower_hex c \<Longrightarrow> is_alnum c"
  by (auto simp: class_defs)

subsection \<open>Hexadecimal digests\<close>

text \<open>\<^verbatim>\<open>hex.DecodeString\<close> succeeds exactly on an even number of hex digits.\<close>

definition hex_decodable :: "bytes \<Rightarrow> bool" where
  "hex_decodable s = (even (length s) \<and> list_all is_hex s)"

lemma lower_hex_string_iff:
  "even (length s) \<Longrightarrow> hex_decodable s \<and> to_lower s = s \<longleftrightarrow> list_all is_lower_hex s"
  by (induction s) (auto simp: hex_decodable_def to_lower_id_iff lower_hex_iff list_all_iff)

subsection \<open>Prefixes, suffixes, cutting and joining\<close>

definition has_prefix :: "bytes \<Rightarrow> bytes \<Rightarrow> bool" where
  "has_prefix s p = prefix p s"

definition has_suffix :: "bytes \<Rightarrow> bytes \<Rightarrow> bool" where
  "has_suffix s p = suffix p s"

definition trim_prefix :: "bytes \<Rightarrow> bytes \<Rightarrow> bytes" where
  "trim_prefix s p = (if prefix p s then drop (length p) s else s)"

text \<open>\<^verbatim>\<open>strings.Cut\<close> at a single byte: the text before, the text after, found or not.\<close>

fun cut_at :: "char \<Rightarrow> bytes \<Rightarrow> bytes \<times> bytes \<times> bool" where
  "cut_at sep [] = ([], [], False)"
| "cut_at sep (c # cs) =
     (if c = sep then ([], cs, True)
      else case cut_at sep cs of (l, r, found) \<Rightarrow> (c # l, r, found))"

fun join :: "bytes \<Rightarrow> bytes list \<Rightarrow> bytes" where
  "join sep [] = []"
| "join sep [x] = x"
| "join sep (x # y # zs) = x @ sep @ join sep (y # zs)"

lemma trim_prefix_append [simp]: "trim_prefix (p @ s) p = s"
  by (simp add: trim_prefix_def)

lemma cut_at_found: "cut_at sep s = (l, r, True) \<longleftrightarrow> s = l @ sep # r \<and> sep \<notin> set l"
proof (induction s arbitrary: l r)
  case (Cons c cs)
  show ?case
  proof (cases "c = sep")
    case True
    then show ?thesis by (cases l) auto
  next
    case False
    obtain a b f where rec: "cut_at sep cs = (a, b, f)" by (cases "cut_at sep cs")
    show ?thesis
      using False Cons.IH by (cases l) (auto simp: rec)
  qed
qed simp

text \<open>
  Joining with a separator byte that no part contains determines the parts: the comparison
  of two joined lists in the source is a comparison of the lists.
\<close>

lemma append_sep_inj:
  "sep \<notin> set x \<Longrightarrow> sep \<notin> set y \<Longrightarrow> x @ sep # r = y @ sep # t \<longleftrightarrow> x = y \<and> r = t"
proof (induction x arbitrary: y)
  case Nil
  then show ?case by (cases y) auto
next
  case (Cons a x)
  then show ?case by (cases y) auto
qed

lemma join_inj:
  assumes "\<forall>x \<in> set xs. sep \<notin> set x \<and> x \<noteq> []" and "\<forall>y \<in> set ys. sep \<notin> set y \<and> y \<noteq> []"
  shows "join [sep] xs = join [sep] ys \<longleftrightarrow> xs = ys"
  using assms
proof (induction "[sep]" xs arbitrary: ys rule: join.induct)
  case 1
  then show ?case by (cases "([sep], ys)" rule: join.cases) auto
next
  case (2 x)
  then show ?case by (cases "([sep], ys)" rule: join.cases) auto
next
  case (3 x y zs)
  show ?case
  proof (cases "([sep], ys)" rule: join.cases)
    case (3 sep' u v ws)
    then have ys: "ys = u # v # ws" by simp
    have "join [sep] (y # zs) = join [sep] (v # ws) \<longleftrightarrow> y # zs = v # ws"
      using "3.prems" by (intro "3.hyps") (simp_all add: ys)
    then show ?thesis
      using "3.prems" by (simp add: ys append_sep_inj)
  next
    case 1
    then show ?thesis using "3.prems" by simp
  next
    case (2 sep' u)
    then have ys: "ys = [u]" by simp
    have "sep \<in> set (join [sep] (x # y # zs))" by simp
    moreover have "sep \<notin> set (join [sep] ys)" using "3.prems" by (simp add: ys)
    ultimately show ?thesis by (auto simp: ys)
  qed
qed

subsection \<open>White space\<close>

text \<open>
  \<^verbatim>\<open>strings.TrimSpace\<close> removes the Unicode white space runes at both ends. A rune is
  recognised by its UTF-8 encoding: going forward by a prefix, going backward by a suffix,
  which is what decoding the first or the last rune finds.
\<close>

definition space_runes :: "bytes list" where
  "space_runes =
     map (\<lambda>n. [char_of n]) [9, 10, 11, 12, 13, 32 :: int]
     @ map (map char_of) [[194, 133], [194, 160], [225, 154, 128 :: int]]
     @ map (\<lambda>n. map char_of [226, 128, n]) ([128..138] @ [168, 169, 175 :: int])
     @ map (map char_of) [[226, 129, 159], [227, 128, 128 :: int]]"

fun strip_first :: "bytes list \<Rightarrow> bytes \<Rightarrow> bytes option" where
  "strip_first [] s = None"
| "strip_first (p # ps) s =
     (if p \<noteq> [] \<and> prefix p s then Some (drop (length p) s) else strip_first ps s)"

lemma strip_first_shorter: "strip_first ps s = Some t \<Longrightarrow> length t < length s"
proof (induction ps)
  case (Cons p ps)
  then show ?case by (cases p) (auto split: if_splits simp: prefix_def)
qed simp

function strip_all :: "bytes list \<Rightarrow> bytes \<Rightarrow> bytes" where
  "strip_all ps s = (case strip_first ps s of None \<Rightarrow> s | Some t \<Rightarrow> strip_all ps t)"
  by pat_completeness auto
termination
  by (relation "measure (\<lambda>(ps, s). length s)") (auto dest: strip_first_shorter)

declare strip_all.simps [simp del]

definition trim_space :: "bytes \<Rightarrow> bytes" where
  "trim_space s =
     rev (strip_all (map rev space_runes) (rev (strip_all space_runes s)))"

lemma strip_all_fixed: "strip_first ps s = None \<Longrightarrow> strip_all ps s = s"
  by (simp add: strip_all.simps [of ps s])

lemma strip_all_clean: "strip_first ps (strip_all ps s) = None"
proof (induction ps s rule: strip_all.induct)
  case (1 ps s)
  show ?case
    by (subst strip_all.simps) (simp add: "1.IH" split: option.split)
qed

lemma strip_first_suffix: "strip_first ps s = Some t \<Longrightarrow> suffix t s"
  by (induction ps) (auto split: if_splits simp: suffix_drop)

lemma strip_all_suffix: "suffix (strip_all ps s) s"
proof (induction ps s rule: strip_all.induct)
  case (1 ps s)
  then show ?case
    by (subst strip_all.simps)
      (auto split: option.split intro: suffix_order.trans dest: strip_first_suffix)
qed

text \<open>Trimming that keeps the length changes nothing.\<close>

lemma suffix_same_length: "suffix t s \<Longrightarrow> length t = length s \<Longrightarrow> t = s"
  by (auto simp: suffix_def)

lemma trim_space_same_length:
  assumes "length (trim_space s) = length s"
  shows "trim_space s = s"
proof -
  let ?m = "strip_all space_runes s"
  let ?r = "strip_all (map rev space_runes) (rev ?m)"
  have m: "suffix ?m s" and r: "suffix ?r (rev ?m)" by (rule strip_all_suffix)+
  then have "length ?m \<le> length s" "length ?r \<le> length ?m"
    by (auto dest: suffix_length_le)
  with assms have "length ?m = length s" "length ?r = length (rev ?m)"
    by (simp_all add: trim_space_def)
  then have "?m = s" "?r = rev ?m" using m r by (blast intro: suffix_same_length)+
  then show ?thesis by (simp add: trim_space_def)
qed

lemma strip_first_None: "strip_first ps s = None \<longleftrightarrow> (\<forall>p \<in> set ps. p = [] \<or> \<not> prefix p s)"
  by (induction ps) auto

text \<open>Text that starts and ends with an ordinary ASCII byte is already trimmed.\<close>

definition plain_char :: "char \<Rightarrow> bool" where
  "plain_char c = (32 < byte c \<and> byte c < 127)"

lemma space_runes_not_plain:
  "p \<in> set space_runes \<Longrightarrow> p \<noteq> [] \<and> \<not> plain_char (hd p) \<and> \<not> plain_char (last p)"
  by (auto simp: space_runes_def plain_char_def byte_def upto.simps)

lemma strip_plain: "s = [] \<or> plain_char (hd s) \<Longrightarrow> strip_all space_runes s = s"
proof (rule strip_all_fixed)
  assume s: "s = [] \<or> plain_char (hd s)"
  show "strip_first space_runes s = None"
    using s space_runes_not_plain by (fastforce simp: strip_first_None prefix_def)
qed

lemma strip_rev_plain:
  assumes "s = [] \<or> plain_char (last s)"
  shows "strip_all (map rev space_runes) (rev s) = rev s"
proof (rule strip_all_fixed)
  have "\<not> prefix (rev p) (rev s)" if p: "p \<in> set space_runes" for p
  proof
    assume "prefix (rev p) (rev s)"
    then obtain t where s: "s = t @ p"
      by (metis prefix_def rev_append rev_rev_ident)
    with assms space_runes_not_plain [OF p] show False by auto
  qed
  then show "strip_first (map rev space_runes) (rev s) = None"
    by (simp add: strip_first_None)
qed

lemma trim_space_plain:
  "s = [] \<or> plain_char (hd s) \<and> plain_char (last s) \<Longrightarrow> trim_space s = s"
  unfolding trim_space_def using strip_rev_plain [of s] strip_plain [of s] by auto

lemma alnum_plain: "is_alnum c \<Longrightarrow> plain_char c"
  by (auto simp: plain_char_def class_defs)

lemma trim_space_alnum: "list_all is_alnum s \<Longrightarrow> trim_space s = s"
  by (rule trim_space_plain) (cases s rule: rev_cases, auto simp: alnum_plain neq_Nil_conv list_all_iff hd_append)

lemma trim_space_Nil [simp]: "trim_space [] = []"
  by (simp add: trim_space_plain)

subsection \<open>Identifier classes\<close>

text \<open>
  The anchored regular expressions of the program have the shape: one byte of a first class,
  then a bounded number of bytes of a second class.
\<close>

definition matches_class :: "(char \<Rightarrow> bool) \<Rightarrow> (char \<Rightarrow> bool) \<Rightarrow> nat \<Rightarrow> bytes \<Rightarrow> bool" where
  "matches_class first rest n s =
     (case s of [] \<Rightarrow> False | c # cs \<Rightarrow> first c \<and> length cs \<le> n \<and> list_all rest cs)"

lemma matches_class_length: "matches_class f r n s \<Longrightarrow> s \<noteq> [] \<and> length s \<le> Suc n"
  by (auto simp: matches_class_def split: list.splits)

lemma matches_class_chars:
  "matches_class f r n s \<Longrightarrow> (\<And>c. f c \<Longrightarrow> r c) \<Longrightarrow> list_all r s"
  by (auto simp: matches_class_def split: list.splits)

subsection \<open>ASCII text\<close>

definition ascii_text :: "bytes \<Rightarrow> bool" where
  "ascii_text s = list_all (\<lambda>c. byte c < 128) s"

lemma ascii_text_simps [simp]:
  "ascii_text []" "ascii_text (c # s) \<longleftrightarrow> byte c < 128 \<and> ascii_text s"
  "ascii_text (s @ t) \<longleftrightarrow> ascii_text s \<and> ascii_text t"
  by (simp_all add: ascii_text_def)

lemma ascii_text_class: "list_all P s \<Longrightarrow> (\<And>c. P c \<Longrightarrow> byte c < 128) \<Longrightarrow> ascii_text s"
  by (auto simp: ascii_text_def list_all_iff)

lemma alnum_ascii: "is_alnum c \<Longrightarrow> byte c < 128"
  by (auto simp: class_defs)

end
