(* ===== verification/Go_Time.thy ===== *)
theory Go_Time
  imports Go_Strings
begin

text \<open>
  Go's \<^verbatim>\<open>time.Parse\<close> for the layouts \<^verbatim>\<open>RFC3339\<close> and \<^verbatim>\<open>RFC3339Nano\<close>, the
  comparison of instants, and \<^verbatim>\<open>Format\<close> for \<^verbatim>\<open>RFC3339Nano\<close>. The two layouts accept
  the same texts: a fraction may follow the seconds in both, behind a point or a comma, the
  hour may have one digit, and a zone offset goes up to 24 hours and 60 minutes.

  A parsed time keeps its civil fields and its zone offset in seconds; an instant is the
  number of nanoseconds since the zero time of Go, 0001-01-01T00:00:00Z, as an integer.
\<close>

record gotime =
  t_year :: int
  t_month :: int
  t_day :: int
  t_hour :: int
  t_min :: int
  t_sec :: int
  t_nsec :: int
  t_offset :: int

subsection \<open>The calendar\<close>

definition is_leap :: "int \<Rightarrow> bool" where
  "is_leap y = (y mod 4 = 0 \<and> (y mod 100 \<noteq> 0 \<or> y mod 400 = 0))"

definition days_in :: "int \<Rightarrow> int \<Rightarrow> int" where
  "days_in m y =
     (if m = 2 then (if is_leap y then 29 else 28)
      else if m \<in> {4, 6, 9, 11} then 30 else 31)"

text \<open>Days before the first of a month in a year, and before the year.\<close>

definition days_before_month :: "int \<Rightarrow> int \<Rightarrow> int" where
  "days_before_month m y = sum_list (map (\<lambda>k. days_in k y) [1..m - 1])"

definition days_before_year :: "int \<Rightarrow> int" where
  "days_before_year y =
     (let p = y - 1 in 365 * p + p div 4 - p div 100 + p div 400)"

definition day_number :: "int \<Rightarrow> int \<Rightarrow> int \<Rightarrow> int" where
  "day_number y m d = days_before_year y + days_before_month m y + d - 1"

definition instant :: "gotime \<Rightarrow> int" where
  "instant t =
     (((day_number (t_year t) (t_month t) (t_day t) * 24 + t_hour t) * 60
        + t_min t) * 60 + t_sec t - t_offset t) * 1000000000 + t_nsec t"

text \<open>
  \<^verbatim>\<open>t.IsZero()\<close> holds of the zero instant. \<^verbatim>\<open>t.Sub(u)\<close> is a \<^verbatim>\<open>Duration\<close>: the
  difference saturates at the range of a signed 64-bit integer.
\<close>

definition is_zero_time :: "int \<Rightarrow> bool" where
  "is_zero_time i = (i = 0)"

definition sub_duration :: "int \<Rightarrow> int \<Rightarrow> int" where
  "sub_duration t u = max (- (2 ^ 63)) (min (2 ^ 63 - 1) (t - u))"

subsection \<open>Parsing\<close>

type_synonym 'a scanner = "bytes \<Rightarrow> ('a \<times> bytes) option"

definition digit_value :: "char \<Rightarrow> int" where
  "digit_value c = byte c - 48"

fun digits_value :: "int \<Rightarrow> bytes \<Rightarrow> int" where
  "digits_value acc [] = acc"
| "digits_value acc (c # cs) = digits_value (10 * acc + digit_value c) cs"

text \<open>\<^verbatim>\<open>getnum\<close>: one or two digits, exactly two when \<^verbatim>\<open>fixed\<close>.\<close>

fun getnum :: "bool \<Rightarrow> int scanner" where
  "getnum fixed [] = None"
| "getnum fixed [a] =
     (if is_digit a \<and> \<not> fixed then Some (digit_value a, []) else None)"
| "getnum fixed (a # b # s) =
     (if \<not> is_digit a then None
      else if is_digit b then Some (10 * digit_value a + digit_value b, s)
      else if fixed then None else Some (digit_value a, b # s))"

fun get_year :: "int scanner" where
  "get_year (a # b # c # d # s) =
     (if list_all is_digit [a, b, c, d] then Some (digits_value 0 [a, b, c, d], s) else None)"
| "get_year _ = None"

fun skip :: "char \<Rightarrow> bytes \<Rightarrow> bytes option" where
  "skip p [] = None"
| "skip p (c # s) = (if c = p then Some s else None)"

text \<open>
  \<^verbatim>\<open>parseNanoseconds\<close>: at most nine digits count, a shorter fraction is scaled up.
\<close>

definition frac_value :: "bytes \<Rightarrow> int" where
  "frac_value ds = (let t = take 9 ds in digits_value 0 t * 10 ^ (9 - length t))"

fun get_fraction :: "int scanner" where
  "get_fraction (p # d # s) =
     (if (p = CHR ''.'' \<or> p = CHR '','') \<and> is_digit d
      then Some (frac_value (takeWhile is_digit (d # s)), dropWhile is_digit (d # s))
      else Some (0, p # d # s))"
| "get_fraction s = Some (0, s)"

fun get_zone :: "int scanner" where
  "get_zone (sg # a # b # c # d # e # s) =
     (if sg = CHR ''Z'' then Some (0, a # b # c # d # e # s)
      else if c = CHR '':'' \<and> list_all is_digit [a, b, d, e] \<and> (sg = CHR ''+'' \<or> sg = CHR ''-'')
      then
        (let hr = digits_value 0 [a, b]; mm = digits_value 0 [d, e];
             off = (hr * 60 + mm) * 60
         in if hr \<le> 24 \<and> mm \<le> 60
            then Some (if sg = CHR ''-'' then - off else off, s) else None)
      else None)"
| "get_zone (sg # s) = (if sg = CHR ''Z'' then Some (0, s) else None)"
| "get_zone [] = None"

definition parse_time :: "bytes \<Rightarrow> gotime option" where
  "parse_time s0 =
     Option.bind (get_year s0) (\<lambda>(y, s1).
     Option.bind (skip CHR ''-'' s1) (\<lambda>s2.
     Option.bind (getnum True s2) (\<lambda>(mo, s3).
     Option.bind (skip CHR ''-'' s3) (\<lambda>s4.
     Option.bind (getnum True s4) (\<lambda>(d, s5).
     Option.bind (skip CHR ''T'' s5) (\<lambda>s6.
     Option.bind (getnum False s6) (\<lambda>(h, s7).
     Option.bind (skip CHR '':'' s7) (\<lambda>s8.
     Option.bind (getnum True s8) (\<lambda>(mi, s9).
     Option.bind (skip CHR '':'' s9) (\<lambda>s10.
     Option.bind (getnum True s10) (\<lambda>(sec, s11).
     Option.bind (get_fraction s11) (\<lambda>(ns, s12).
     Option.bind (get_zone s12) (\<lambda>(off, s13).
       if 1 \<le> mo \<and> mo \<le> 12 \<and> h < 24 \<and> mi < 60 \<and> sec < 60
          \<and> s13 = [] \<and> 1 \<le> d \<and> d \<le> days_in mo y
       then Some \<lparr>t_year = y, t_month = mo, t_day = d, t_hour = h, t_min = mi, t_sec = sec,
                  t_nsec = ns, t_offset = off\<rparr>
       else None)))))))))))))"

text \<open>The instant of a text, when it parses.\<close>

definition parse_instant :: "bytes \<Rightarrow> int option" where
  "parse_instant s = map_option instant (parse_time s)"

subsection \<open>Formatting\<close>

definition digit_char :: "int \<Rightarrow> char" where
  "digit_char n = char_of (48 + n mod 10)"

fun pad_digits :: "nat \<Rightarrow> int \<Rightarrow> bytes" where
  "pad_digits 0 n = []"
| "pad_digits (Suc k) n = pad_digits k (n div 10) @ [digit_char n]"

definition format_fraction :: "int \<Rightarrow> bytes" where
  "format_fraction ns =
     (if ns = 0 then []
      else CHR ''.'' # rev (dropWhile (\<lambda>c. c = CHR ''0'') (rev (pad_digits 9 ns))))"

definition format_zone :: "int \<Rightarrow> bytes" where
  "format_zone off =
     (if off = 0 then ''Z''
      else let z = \<bar>off\<bar> div 60
           in (if off < 0 then ''-'' else ''+'') @ pad_digits 2 (z div 60) @ '':''
              @ pad_digits 2 (z mod 60))"

text \<open>
  \<^verbatim>\<open>t.Format(time.RFC3339Nano)\<close> for a time that \<^verbatim>\<open>parse_time\<close> returned: the
  civil fields in the zone of the time are the fields that were parsed.
\<close>

definition format_time :: "gotime \<Rightarrow> bytes" where
  "format_time t =
     pad_digits 4 (t_year t) @ ''-'' @ pad_digits 2 (t_month t) @ ''-'' @ pad_digits 2 (t_day t)
     @ ''T'' @ pad_digits 2 (t_hour t) @ '':'' @ pad_digits 2 (t_min t) @ '':''
     @ pad_digits 2 (t_sec t) @ format_fraction (t_nsec t) @ format_zone (t_offset t)"

subsection \<open>Facts about parsed times\<close>

definition valid_time :: "gotime \<Rightarrow> bool" where
  "valid_time t =
     (0 \<le> t_year t \<and> t_year t < 10000 \<and> 1 \<le> t_month t \<and> t_month t \<le> 12 \<and> 1 \<le> t_day t
      \<and> t_day t \<le> days_in (t_month t) (t_year t) \<and> 0 \<le> t_hour t \<and> t_hour t < 24
      \<and> 0 \<le> t_min t \<and> t_min t < 60 \<and> 0 \<le> t_sec t \<and> t_sec t < 60
      \<and> 0 \<le> t_nsec t \<and> t_nsec t < 1000000000)"

lemma digit_value_range: "is_digit c \<Longrightarrow> 0 \<le> digit_value c \<and> digit_value c < 10"
  by (auto simp: digit_value_def class_defs)

lemma digits_value_range:
  "list_all is_digit ds \<Longrightarrow> 0 \<le> acc \<Longrightarrow>
     0 \<le> digits_value acc ds \<and> digits_value acc ds < (acc + 1) * 10 ^ length ds"
proof (induction ds arbitrary: acc)
  case (Cons c cs)
  from Cons.prems have c: "0 \<le> digit_value c" "digit_value c < 10"
    by (auto dest: digit_value_range)
  with Cons have IH: "0 \<le> digits_value (10 * acc + digit_value c) cs"
      "digits_value (10 * acc + digit_value c) cs < (10 * acc + digit_value c + 1) * 10 ^ length cs"
    by (auto dest: Cons.IH [of "10 * acc + digit_value c"])
  moreover have "(10 * acc + digit_value c + 1) * 10 ^ length cs \<le> ((acc + 1) * 10) * 10 ^ length cs"
    using c by (intro mult_right_mono) simp_all
  ultimately have "0 \<le> digits_value (10 * acc + digit_value c) cs \<and>
      digits_value (10 * acc + digit_value c) cs < ((acc + 1) * 10) * 10 ^ length cs"
    by linarith
  then show ?case by (simp only: digits_value.simps length_Cons power_Suc mult.assoc)
qed simp

lemma get_year_range: "get_year s = Some (y, r) \<Longrightarrow> 0 \<le> y \<and> y < 10000"
proof (cases s rule: get_year.cases)
  case (1 a b c d s')
  assume "get_year s = Some (y, r)"
  with 1 show ?thesis
    using digits_value_range [of "[a, b, c, d]" 0] by (auto simp: 1 split: if_splits)
qed simp_all

lemma getnum_range: "getnum f s = Some (n, r) \<Longrightarrow> 0 \<le> n"
  by (cases "(f, s)" rule: getnum.cases) (auto split: if_splits dest!: digit_value_range)

lemma frac_value_range:
  assumes "list_all is_digit ds"
  shows "0 \<le> frac_value ds \<and> frac_value ds < 1000000000"
proof -
  let ?t = "take 9 ds"
  have "0 \<le> digits_value 0 ?t \<and> digits_value 0 ?t < 10 ^ length ?t"
    using digits_value_range [of ?t 0] assms by (auto simp: list_all_iff dest: in_set_takeD)
  then have "0 \<le> frac_value ds" "frac_value ds < 10 ^ length ?t * 10 ^ (9 - length ?t)"
    by (auto simp: frac_value_def Let_def)
  moreover have "(10::int) ^ length ?t * 10 ^ (9 - length ?t) = 10 ^ 9"
    by (simp flip: power_add)
  ultimately show ?thesis by simp
qed

lemma get_fraction_range: "get_fraction s = Some (n, r) \<Longrightarrow> 0 \<le> n \<and> n < 1000000000"
proof (cases s rule: get_fraction.cases)
  case (1 p d s')
  have "list_all is_digit (takeWhile is_digit (d # s'))"
    by (auto simp: list_all_iff dest: set_takeWhileD split: if_splits)
  then show "get_fraction s = Some (n, r) \<Longrightarrow> 0 \<le> n \<and> n < 1000000000"
    using frac_value_range [of "takeWhile is_digit (d # s')"] 1 by (auto split: if_splits)
qed auto

lemma parse_time_valid: "parse_time s = Some t \<Longrightarrow> valid_time t"
  by (auto simp: parse_time_def valid_time_def bind_eq_Some_conv split: if_splits
      dest!: get_year_range getnum_range get_fraction_range)

lemma parse_instant_Some:
  "parse_instant s = Some i \<longleftrightarrow> (\<exists>t. parse_time s = Some t \<and> i = instant t)"
  by (auto simp: parse_instant_def)

subsection \<open>Parsed text is ASCII\<close>

lemma digit_ascii: "is_digit c \<Longrightarrow> byte c < 128"
  by (simp add: class_defs)

lemma ascii_marks:
  "byte CHR ''-'' < 128" "byte CHR ''T'' < 128" "byte CHR '':'' < 128" "byte CHR ''Z'' < 128"
  "byte CHR ''+'' < 128" "byte CHR ''.'' < 128" "byte CHR '','' < 128"
  by (simp_all add: byte_def)

lemma get_year_ascii: "get_year s = Some (y, r) \<Longrightarrow> ascii_text s \<longleftrightarrow> ascii_text r"
  by (cases s rule: get_year.cases) (auto split: if_splits simp: digit_ascii)

lemma getnum_ascii: "getnum f s = Some (n, r) \<Longrightarrow> ascii_text s \<longleftrightarrow> ascii_text r"
  by (cases "(f, s)" rule: getnum.cases) (auto split: if_splits simp: digit_ascii)

lemma skip_ascii: "skip c s = Some r \<Longrightarrow> byte c < 128 \<Longrightarrow> ascii_text s \<longleftrightarrow> ascii_text r"
  by (cases s) (auto split: if_splits)

lemma get_fraction_ascii: "get_fraction s = Some (n, r) \<Longrightarrow> ascii_text s \<longleftrightarrow> ascii_text r"
proof (cases s rule: get_fraction.cases)
  case (1 p d s')
  assume f: "get_fraction s = Some (n, r)"
  have "ascii_text (takeWhile is_digit s')"
    by (auto simp: ascii_text_def list_all_iff digit_ascii dest: set_takeWhileD)
  moreover have "s' = takeWhile is_digit s' @ dropWhile is_digit s'" by simp
  ultimately have "ascii_text s' \<longleftrightarrow> ascii_text (dropWhile is_digit s')"
    by (metis ascii_text_simps(3))
  then show ?thesis using f 1 by (auto simp: digit_ascii ascii_marks split: if_splits)
qed auto

lemma get_zone_ascii: "get_zone s = Some (n, []) \<Longrightarrow> ascii_text s"
  by (cases s rule: get_zone.cases) (auto simp: Let_def digit_ascii ascii_marks split: if_splits)

lemmas skip_marks = skip_ascii [OF _ ascii_marks(1)] skip_ascii [OF _ ascii_marks(2)]
  skip_ascii [OF _ ascii_marks(3)]

lemma parse_time_ascii: "parse_time s = Some t \<Longrightarrow> ascii_text s"
  by (clarsimp simp: parse_time_def bind_eq_Some_conv ascii_marks get_zone_ascii split: if_splits
      dest!: get_year_ascii getnum_ascii get_fraction_ascii skip_marks)

end
