(* ===== verification/Report_V5.thy ===== *)
theory Report_V5
  imports Go_Time
begin

text \<open>
  Execution report v5 of package \<^verbatim>\<open>udonreport\<close>: the report and step types, the validator
  \<^verbatim>\<open>ReportV5.Validate\<close> of \<^verbatim>\<open>udonreport/v5.go\<close> with its loop over the steps, the inventory and
  observation types of \<^verbatim>\<open>udonreport/observation_v5.go\<close> and their validators. The loop is
  related to a declarative description of an accepted straight-line run.
\<close>

subsection \<open>Identifiers, digests and timestamps\<close>

text \<open>The three anchored regular expressions at the head of \<^verbatim>\<open>v5.go\<close>.\<close>

definition v5_rest :: "char \<Rightarrow> bool" where
  "v5_rest c = (is_alnum c \<or> c \<in> set ''_.:-'')"

definition valid_identifier :: "bytes \<Rightarrow> bool" where
  "valid_identifier s = matches_class is_alnum v5_rest 127 s"

definition sha256_uri :: "bytes \<Rightarrow> bool" where
  "sha256_uri s =
     (has_prefix s ''sha256:'' \<and> length s = 71 \<and> list_all is_lower_hex (drop 7 s))"

fun match_classes :: "(char \<Rightarrow> bool) list \<Rightarrow> bytes \<Rightarrow> bytes option" where
  "match_classes [] s = Some s"
| "match_classes (p # ps) [] = None"
| "match_classes (p # ps) (c # s) = (if p c then match_classes ps s else None)"

definition match_fraction_v5 :: "bytes \<Rightarrow> bytes option" where
  "match_fraction_v5 s =
     (if s \<noteq> [] \<and> hd s = CHR ''.'' then
        (let n = length (takeWhile is_digit (tl s))
         in if 1 \<le> n \<and> n \<le> 9 then Some (dropWhile is_digit (tl s)) else None)
      else Some s)"

definition match_zone_v5 :: "bytes \<Rightarrow> bool" where
  "match_zone_v5 s =
     (s = ''Z''
      \<or> (match_classes
            [(\<lambda>c. c = CHR ''+'' \<or> c = CHR ''-''), in_range 48 49, is_digit, (=) CHR '':'',
             in_range 48 53, is_digit] s = Some [])
      \<or> (match_classes
            [(\<lambda>c. c = CHR ''+'' \<or> c = CHR ''-''), (=) CHR ''2'', in_range 48 51, (=) CHR '':'',
             in_range 48 53, is_digit] s = Some []))"

definition timestamp_v5 :: "bytes \<Rightarrow> bool" where
  "timestamp_v5 s =
     (case match_classes
             [is_digit, is_digit, is_digit, is_digit, (=) CHR ''-'', is_digit, is_digit,
              (=) CHR ''-'', is_digit, is_digit, (=) CHR ''T'', is_digit, is_digit,
              (=) CHR '':'', is_digit, is_digit, (=) CHR '':'', is_digit, is_digit] s of
        None \<Rightarrow> False
      | Some r \<Rightarrow> (case match_fraction_v5 r of None \<Rightarrow> False | Some z \<Rightarrow> match_zone_v5 z))"

text \<open>Both tests on a time field, which the source always makes together.\<close>

definition instant_v5 :: "bytes \<Rightarrow> int option" where
  "instant_v5 s =
     (case parse_instant s of None \<Rightarrow> None | Some t \<Rightarrow> if timestamp_v5 s then Some t else None)"

subsection \<open>Types\<close>

record step_v5 =
  step_id :: bytes
  operation_id :: bytes
  invocation_id :: bytes
  outcome :: bytes
  step_started :: bytes
  step_finished :: bytes
  step_error :: bytes

record report_v5 =
  r5_version :: bytes
  r5_run_id :: bytes
  r5_workflow_id :: bytes
  r5_workflow_digest :: bytes
  r5_inventory_complete :: bool
  r5_status :: bytes
  r5_started_at :: bytes
  r5_finished_at :: bytes
  r5_error_code :: bytes
  r5_steps :: "step_v5 list"

definition version_v5 :: bytes where
  "version_v5 = ''udon.execution-report.v5''"

definition max_steps :: nat where
  "max_steps = 256"

datatype v5_error =
    InvalidIdentity
  | InvalidStart
  | IncompleteTerminal
  | InvalidFinish
  | SuccessErrorCode
  | InvalidErrorCode
  | InvalidStatus
  | RepeatedInvocation
  | UnstartedFields
  | StartedAfterStop
  | InvocationStart
  | UnknownTerminal
  | InvocationFinish
  | SucceededErrorCode
  | FailedErrorCode
  | InvalidOutcome
  | UnfinishedInvocation
  | ObservedOutcomes
  | ObservationVersion
  | PartialInventory
  | ObservationState
  | UnsupportedFacts

subsection \<open>The validator\<close>

text \<open>
  One iteration of the loop after the identity test: the new value of \<^verbatim>\<open>previous\<close> and of
  \<^verbatim>\<open>stopped\<close>, or the error. \<^verbatim>\<open>finish\<close> is the zero instant when the report is incomplete, and
  the source tests \<^verbatim>\<open>finish.IsZero()\<close> before it compares.
\<close>

definition after_finish :: "int \<Rightarrow> int \<Rightarrow> bool" where
  "after_finish finish t = (\<not> is_zero_time finish \<and> finish < t)"

definition step_body :: "int \<Rightarrow> int \<Rightarrow> bool \<Rightarrow> step_v5 \<Rightarrow> v5_error + (int \<times> bool)" where
  "step_body finish previous stopped s =
     (if outcome s = ''not_started'' then
        (if step_started s \<noteq> [] \<or> step_finished s \<noteq> [] \<or> step_error s \<noteq> []
         then Inl UnstartedFields else Inr (previous, True))
      else if stopped then Inl StartedAfterStop
      else case instant_v5 (step_started s) of
        None \<Rightarrow> Inl InvocationStart
      | Some t \<Rightarrow>
          if t < previous \<or> after_finish finish t then Inl InvocationStart
          else if outcome s = ''unknown'' then
            (if step_finished s \<noteq> [] \<or> step_error s \<noteq> [] then Inl UnknownTerminal
             else Inr (t, True))
          else if outcome s = ''succeeded'' \<or> outcome s = ''failed'' then
            (case instant_v5 (step_finished s) of
               None \<Rightarrow> Inl InvocationFinish
             | Some e \<Rightarrow>
                 if e < t \<or> after_finish finish e then Inl InvocationFinish
                 else if outcome s = ''succeeded'' \<and> step_error s \<noteq> [] then Inl SucceededErrorCode
                 else if outcome s = ''failed'' then
                   (if step_error s \<noteq> ''operation_failed'' then Inl FailedErrorCode
                    else Inr (e, True))
                 else Inr (e, False))
          else Inl InvalidOutcome)"

definition identity_ok :: "bytes list \<Rightarrow> bytes list \<Rightarrow> step_v5 \<Rightarrow> bool" where
  "identity_ok seen_steps seen_ops s =
     (valid_identifier (step_id s) \<and> valid_identifier (operation_id s)
      \<and> invocation_id s = step_id s \<and> step_id s \<notin> set seen_steps
      \<and> operation_id s \<notin> set seen_ops)"

fun scan_steps ::
  "bytes \<Rightarrow> int \<Rightarrow> bytes list \<Rightarrow> bytes list \<Rightarrow> int \<Rightarrow> bool \<Rightarrow> step_v5 list \<Rightarrow> v5_error + unit"
where
  "scan_steps st finish seen_steps seen_ops previous stopped [] = Inr ()"
| "scan_steps st finish seen_steps seen_ops previous stopped (s # ss) =
     (if \<not> identity_ok seen_steps seen_ops s then Inl RepeatedInvocation
      else case step_body finish previous stopped s of
        Inl e \<Rightarrow> Inl e
      | Inr (previous', stopped') \<Rightarrow>
          if st = ''success'' \<and> outcome s \<noteq> ''succeeded'' then Inl UnfinishedInvocation
          else scan_steps st finish (step_id s # seen_steps) (operation_id s # seen_ops)
                 previous' stopped' ss)"

text \<open>The switch over the status: the finish instant, zero for an incomplete report.\<close>

definition finish_v5 :: "report_v5 \<Rightarrow> int \<Rightarrow> v5_error + int" where
  "finish_v5 r start =
     (if r5_status r = ''incomplete'' then
        (if r5_finished_at r \<noteq> [] \<or> r5_error_code r \<noteq> [] then Inl IncompleteTerminal else Inr 0)
      else if r5_status r = ''success'' \<or> r5_status r = ''error'' then
        (case instant_v5 (r5_finished_at r) of
           None \<Rightarrow> Inl InvalidFinish
         | Some f \<Rightarrow>
             if f < start then Inl InvalidFinish
             else if r5_status r = ''success'' \<and> r5_error_code r \<noteq> [] then Inl SuccessErrorCode
             else if r5_status r = ''error'' \<and> r5_error_code r \<noteq> ''execution_failed''
                     \<and> r5_error_code r \<noteq> ''checkpoint_failed'' \<and> r5_error_code r \<noteq> ''cancelled''
               then Inl InvalidErrorCode
             else Inr f)
      else Inl InvalidStatus)"

definition validate_report_v5 :: "report_v5 \<Rightarrow> v5_error + unit" where
  "validate_report_v5 r =
     (if r5_version r \<noteq> version_v5 \<or> \<not> valid_identifier (r5_run_id r)
         \<or> \<not> valid_identifier (r5_workflow_id r) \<or> \<not> sha256_uri (r5_workflow_digest r)
         \<or> \<not> r5_inventory_complete r \<or> r5_steps r = [] \<or> max_steps < length (r5_steps r)
      then Inl InvalidIdentity
      else case instant_v5 (r5_started_at r) of
        None \<Rightarrow> Inl InvalidStart
      | Some start \<Rightarrow>
          (case finish_v5 r start of
             Inl e \<Rightarrow> Inl e
           | Inr finish \<Rightarrow> scan_steps (r5_status r) finish [] [] start False (r5_steps r)))"

subsection \<open>Inventory and observation\<close>

record inventory_v5 =
  inv_run_id :: bytes
  inv_workflow_id :: bytes
  inv_workflow_digest :: bytes
  inv_steps :: "step_v5 list"

record observation_v5 =
  obs_report_version :: bytes
  obs_run_id :: bytes
  obs_workflow_id :: bytes
  obs_workflow_digest :: bytes
  obs_state :: bytes
  obs_inventory_complete :: bool
  obs_report_status :: bytes
  obs_started_at :: bytes
  obs_finished_at :: bytes
  obs_error_code :: bytes
  obs_steps :: "step_v5 list"

definition inventory_report :: "inventory_v5 \<Rightarrow> report_v5" where
  "inventory_report i =
     \<lparr>r5_version = version_v5, r5_run_id = inv_run_id i, r5_workflow_id = inv_workflow_id i,
      r5_workflow_digest = inv_workflow_digest i, r5_inventory_complete = True,
      r5_status = ''incomplete'', r5_started_at = ''2000-01-01T00:00:00Z'', r5_finished_at = [],
      r5_error_code = [], r5_steps = inv_steps i\<rparr>"

definition validate_inventory_v5 :: "inventory_v5 \<Rightarrow> v5_error + unit" where
  "validate_inventory_v5 i =
     (if list_ex (\<lambda>s. outcome s \<noteq> ''not_started'') (inv_steps i) then Inl ObservedOutcomes
      else validate_report_v5 (inventory_report i))"

definition unknown_v5 :: "inventory_v5 \<Rightarrow> bytes \<Rightarrow> observation_v5" where
  "unknown_v5 i state =
     \<lparr>obs_report_version = version_v5, obs_run_id = inv_run_id i,
      obs_workflow_id = inv_workflow_id i, obs_workflow_digest = inv_workflow_digest i,
      obs_state = state, obs_inventory_complete = False, obs_report_status = [],
      obs_started_at = [], obs_finished_at = [], obs_error_code = [],
      obs_steps = map (\<lambda>s. s\<lparr>outcome := ''unknown''\<rparr>) (inv_steps i)\<rparr>"

definition observation_inventory :: "observation_v5 \<Rightarrow> inventory_v5" where
  "observation_inventory o5 =
     \<lparr>inv_run_id = obs_run_id o5, inv_workflow_id = obs_workflow_id o5,
      inv_workflow_digest = obs_workflow_digest o5,
      inv_steps = map (\<lambda>s. \<lparr>step_id = step_id s, operation_id = operation_id s,
         invocation_id = invocation_id s, outcome = ''not_started'', step_started = [],
         step_finished = [], step_error = []\<rparr>) (obs_steps o5)\<rparr>"

definition observation_report :: "observation_v5 \<Rightarrow> report_v5" where
  "observation_report o5 =
     \<lparr>r5_version = version_v5, r5_run_id = obs_run_id o5, r5_workflow_id = obs_workflow_id o5,
      r5_workflow_digest = obs_workflow_digest o5, r5_inventory_complete = True,
      r5_status = obs_report_status o5, r5_started_at = obs_started_at o5,
      r5_finished_at = obs_finished_at o5, r5_error_code = obs_error_code o5,
      r5_steps = obs_steps o5\<rparr>"

definition validate_observation_v5 :: "observation_v5 \<Rightarrow> v5_error + unit" where
  "validate_observation_v5 o5 =
     (if obs_report_version o5 \<noteq> version_v5 then Inl ObservationVersion
      else case validate_inventory_v5 (observation_inventory o5) of
        Inl e \<Rightarrow> Inl e
      | Inr _ \<Rightarrow>
          if obs_state o5 = ''validated'' then
            (if \<not> obs_inventory_complete o5 then Inl PartialInventory
             else validate_report_v5 (observation_report o5))
          else if obs_state o5 \<notin> set [''dry_run'', ''missing'', ''invalid'', ''mismatched'']
            then Inl ObservationState
          else if o5 \<noteq> unknown_v5 (observation_inventory o5) (obs_state o5)
            then Inl UnsupportedFacts
          else Inr ())"

subsection \<open>What an accepted run looks like\<close>

text \<open>
  The declarative description: every step is well formed for its outcome, the identifiers
  are pairwise distinct, the sequence stops for good at the first step that does not
  succeed, and the instants of the steps ascend from the start of the report and stay below
  its finish.
\<close>

definition step_instants :: "step_v5 \<Rightarrow> int list" where
  "step_instants s =
     (case instant_v5 (step_started s) of None \<Rightarrow> [] | Some t \<Rightarrow> [t])
     @ (case instant_v5 (step_finished s) of None \<Rightarrow> [] | Some t \<Rightarrow> [t])"

definition body_ok :: "step_v5 \<Rightarrow> bool" where
  "body_ok s =
     (if outcome s = ''not_started'' then
        step_started s = [] \<and> step_finished s = [] \<and> step_error s = []
      else if outcome s = ''unknown'' then
        instant_v5 (step_started s) \<noteq> None \<and> step_finished s = [] \<and> step_error s = []
      else if outcome s = ''succeeded'' then
        instant_v5 (step_started s) \<noteq> None \<and> instant_v5 (step_finished s) \<noteq> None
        \<and> step_error s = []
      else
        outcome s = ''failed'' \<and> instant_v5 (step_started s) \<noteq> None
        \<and> instant_v5 (step_finished s) \<noteq> None \<and> step_error s = ''operation_failed'')"

definition step_fields_ok :: "step_v5 \<Rightarrow> bool" where
  "step_fields_ok s =
     (valid_identifier (step_id s) \<and> valid_identifier (operation_id s)
      \<and> invocation_id s = step_id s \<and> body_ok s)"

fun straight_line :: "bytes list \<Rightarrow> bool" where
  "straight_line [] = True"
| "straight_line (x # xs) =
     (if x = ''succeeded'' then straight_line xs
      else x \<in> {''failed'', ''unknown'', ''not_started''} \<and> set xs \<subseteq> {''not_started''})"

definition accepted_run :: "bytes \<Rightarrow> int \<Rightarrow> int \<Rightarrow> step_v5 list \<Rightarrow> bool" where
  "accepted_run st start finish ss =
     ((\<forall>s \<in> set ss. step_fields_ok s) \<and> distinct (map step_id ss)
      \<and> distinct (map operation_id ss) \<and> straight_line (map outcome ss)
      \<and> sorted (start # concat (map step_instants ss))
      \<and> (\<forall>s \<in> set ss. \<forall>t \<in> set (step_instants s). \<not> after_finish finish t)
      \<and> (st = ''success'' \<longrightarrow> (\<forall>s \<in> set ss. outcome s = ''succeeded'')))"

lemma instant_v5_Nil [simp]: "instant_v5 [] = None"
  by (simp add: instant_v5_def parse_instant_def parse_time_def)

subsection \<open>The loop implements the description\<close>

lemma step_body_iff:
  "step_body f p stopped s = Inr (p', stopped') \<longleftrightarrow>
     body_ok s \<and> (stopped \<longrightarrow> outcome s = ''not_started'')
     \<and> sorted (p # step_instants s) \<and> (\<forall>t \<in> set (step_instants s). \<not> after_finish f t)
     \<and> p' = last (p # step_instants s) \<and> stopped' = (stopped \<or> outcome s \<noteq> ''succeeded'')"
proof -
  consider "outcome s = ''not_started''" | "outcome s = ''unknown''" | "outcome s = ''succeeded''"
    | "outcome s = ''failed''"
    | "outcome s \<notin> {''not_started'', ''unknown'', ''succeeded'', ''failed''}" by auto
  then show ?thesis
    by cases (auto simp: step_body_def body_ok_def step_instants_def split: option.splits)
qed

lemma body_ok_outcome:
  "body_ok s \<Longrightarrow> outcome s \<in> {''succeeded'', ''failed'', ''unknown'', ''not_started''}"
  by (auto simp: body_ok_def split: if_splits)

definition sequence_ok :: "bool \<Rightarrow> bytes list \<Rightarrow> bool" where
  "sequence_ok stopped outs = (if stopped then set outs \<subseteq> {''not_started''} else straight_line outs)"

lemma sequence_ok_Cons:
  "body_ok s \<Longrightarrow> sequence_ok stopped (outcome s # outs) \<longleftrightarrow>
     (stopped \<longrightarrow> outcome s = ''not_started'')
     \<and> sequence_ok (stopped \<or> outcome s \<noteq> ''succeeded'') outs"
  by (drule body_ok_outcome) (auto simp: sequence_ok_def)

lemma scan_steps_Cons:
  "scan_steps st f si so p stopped (s # ss) = Inr () \<longleftrightarrow>
     step_fields_ok s \<and> step_id s \<notin> set si \<and> operation_id s \<notin> set so
     \<and> (stopped \<longrightarrow> outcome s = ''not_started'')
     \<and> sorted (p # step_instants s) \<and> (\<forall>t \<in> set (step_instants s). \<not> after_finish f t)
     \<and> (st = ''success'' \<longrightarrow> outcome s = ''succeeded'')
     \<and> scan_steps st f (step_id s # si) (operation_id s # so) (last (p # step_instants s))
         (stopped \<or> outcome s \<noteq> ''succeeded'') ss = Inr ()"
proof (cases "step_body f p stopped s")
  case (Inl e)
  then have "scan_steps st f si so p stopped (s # ss) \<noteq> Inr ()" by simp
  moreover have "\<not> (body_ok s \<and> (stopped \<longrightarrow> outcome s = ''not_started'')
     \<and> sorted (p # step_instants s) \<and> (\<forall>t \<in> set (step_instants s). \<not> after_finish f t))"
    using step_body_iff [of f p stopped s] Inl by (metis Inl_Inr_False)
  ultimately show ?thesis
    unfolding step_fields_ok_def by blast
next
  case (Inr r)
  obtain p' q where r: "r = (p', q)" by (cases r)
  with Inr show ?thesis
    using step_body_iff [of f p stopped s p' q]
    by (simp add: step_fields_ok_def identity_ok_def del: sorted_simps sorted_wrt.simps last.simps) blast
qed

lemma scan_steps_iff:
  "scan_steps st f si so p stopped ss = Inr () \<longleftrightarrow>
     (\<forall>s \<in> set ss. step_fields_ok s)
     \<and> fresh si (map step_id ss) \<and> fresh so (map operation_id ss)
     \<and> sequence_ok stopped (map outcome ss)
     \<and> sorted (p # concat (map step_instants ss))
     \<and> (\<forall>s \<in> set ss. \<forall>t \<in> set (step_instants s). \<not> after_finish f t)
     \<and> (st = ''success'' \<longrightarrow> (\<forall>s \<in> set ss. outcome s = ''succeeded''))"
proof (induction ss arbitrary: si so p stopped)
  case Nil
  show ?case by (simp add: sequence_ok_def)
next
  case (Cons s ss)
  show ?case
  proof (cases "step_fields_ok s")
    case True
    then have seq: "sequence_ok stopped (map outcome (s # ss)) \<longleftrightarrow>
        (stopped \<longrightarrow> outcome s = ''not_started'')
        \<and> sequence_ok (stopped \<or> outcome s \<noteq> ''succeeded'') (map outcome ss)"
      by (simp add: sequence_ok_Cons step_fields_ok_def)
    have chain: "sorted (p # concat (map step_instants (s # ss))) \<longleftrightarrow>
        sorted (p # step_instants s)
        \<and> sorted (last (p # step_instants s) # concat (map step_instants ss))"
      using sorted_chain [of p "step_instants s" "concat (map step_instants ss)"]
      by (simp only: list.map concat.simps)
    have ids: "fresh si (map step_id (s # ss)) \<longleftrightarrow>
        step_id s \<notin> set si \<and> fresh (step_id s # si) (map step_id ss)"
      "fresh so (map operation_id (s # ss)) \<longleftrightarrow>
        operation_id s \<notin> set so \<and> fresh (operation_id s # so) (map operation_id ss)"
      by (simp_all only: list.map fresh_Cons)
    show ?thesis
      unfolding scan_steps_Cons Cons.IH chain seq ids list.set ball_simps by blast
  qed (simp add: scan_steps_Cons del: scan_steps.simps)
qed

lemma scan_steps_accepted_run:
  "scan_steps st f [] [] p False ss = Inr () \<longleftrightarrow> accepted_run st p f ss"
  by (simp add: scan_steps_iff accepted_run_def sequence_ok_def)

lemma straight_line_succeeded: "straight_line (replicate k ''succeeded'' @ outs) \<longleftrightarrow> straight_line outs"
  by (induction k) simp_all

lemma straight_line_not_started [simp]: "straight_line (replicate m ''not_started'')"
  by (cases m) auto

lemma straight_line_shape:
  "straight_line outs \<longleftrightarrow>
     (\<exists>k m. \<exists>mid \<in> {[], [''failed''], [''unknown'']}.
        outs = replicate k ''succeeded'' @ mid @ replicate m ''not_started'')"
  (is "_ \<longleftrightarrow> ?shape outs")
proof
  show "straight_line outs \<Longrightarrow> ?shape outs"
  proof (induction outs)
    case Nil
    have "[] = replicate 0 ''succeeded'' @ [] @ replicate 0 ''not_started''" by simp
    then show ?case by blast
  next
    case (Cons x xs)
    show ?case
    proof (cases "x = ''succeeded''")
      case True
      with Cons.prems have "straight_line xs" by simp
      then obtain k m mid where "mid \<in> {[], [''failed''], [''unknown'']}"
        "xs = replicate k ''succeeded'' @ mid @ replicate m ''not_started''"
        by (drule_tac Cons.IH) blast
      with True have "x # xs = replicate (Suc k) ''succeeded'' @ mid @ replicate m ''not_started''"
        by simp
      with \<open>mid \<in> _\<close> show ?thesis by blast
    next
      case False
      with Cons.prems have outs: "x = ''not_started'' \<or> [x] \<in> {[''failed''], [''unknown'']}"
        and "set xs \<subseteq> {''not_started''}" by (simp_all del: insert_iff) blast
      then have xs: "xs = replicate (length xs) ''not_started''"
        by (intro replicate_length_same [symmetric]) blast
      have "x # xs = replicate 0 ''succeeded'' @ [] @ replicate (Suc (length xs)) ''not_started''"
        if "x = ''not_started''" using that xs by simp
      moreover have "x # xs = replicate 0 ''succeeded'' @ [x] @ replicate (length xs) ''not_started''"
        using xs by simp
      ultimately show ?thesis using outs by blast
    qed
  qed
qed (auto simp: straight_line_succeeded)

definition report_header_ok :: "report_v5 \<Rightarrow> bool" where
  "report_header_ok r =
     (r5_version r = version_v5 \<and> valid_identifier (r5_run_id r)
      \<and> valid_identifier (r5_workflow_id r) \<and> sha256_uri (r5_workflow_digest r)
      \<and> r5_inventory_complete r \<and> r5_steps r \<noteq> [] \<and> length (r5_steps r) \<le> max_steps)"

lemma validate_report_v5_iff:
  "validate_report_v5 r = Inr () \<longleftrightarrow>
     report_header_ok r
     \<and> (\<exists>start finish. instant_v5 (r5_started_at r) = Some start
          \<and> finish_v5 r start = Inr finish
          \<and> accepted_run (r5_status r) start finish (r5_steps r))"
  by (auto simp: validate_report_v5_def report_header_ok_def scan_steps_accepted_run
      split: option.splits sum.splits)

lemma finish_v5_iff:
  "finish_v5 r start = Inr f \<longleftrightarrow>
     r5_status r = ''incomplete'' \<and> r5_finished_at r = [] \<and> r5_error_code r = [] \<and> f = 0
     \<or> (r5_status r = ''success'' \<and> r5_error_code r = []
         \<or> r5_status r = ''error''
            \<and> r5_error_code r \<in> {''execution_failed'', ''checkpoint_failed'', ''cancelled''})
       \<and> instant_v5 (r5_finished_at r) = Some f \<and> start \<le> f"
  by (auto simp: finish_v5_def split: option.splits)

text \<open>
  The step list alone decides whether an incomplete report is accepted after a fixed start;
  for an inventory every step is \<^verbatim>\<open>not_started\<close>, so only identities count.
\<close>

lemma unstarted_body_ok:
  "outcome s = ''not_started'' \<Longrightarrow>
     body_ok s \<longleftrightarrow> step_started s = [] \<and> step_finished s = [] \<and> step_error s = []"
  by (simp add: body_ok_def)

lemma inventory_accepted_iff:
  "validate_inventory_v5 i = Inr () \<longleftrightarrow>
     report_header_ok (inventory_report i)
     \<and> (\<forall>s \<in> set (inv_steps i). step_fields_ok s \<and> outcome s = ''not_started'')
     \<and> distinct (map step_id (inv_steps i)) \<and> distinct (map operation_id (inv_steps i))"
proof (cases "\<forall>s \<in> set (inv_steps i). outcome s = ''not_started''")
  case True
  have "instant_v5 ''2000-01-01T00:00:00Z'' \<noteq> None" by code_simp
  then obtain y where start: "instant_v5 ''2000-01-01T00:00:00Z'' = Some y" by blast
  have "map outcome (inv_steps i) = map (\<lambda>_. ''not_started'') (inv_steps i)"
    using True by simp
  then have line: "straight_line (map outcome (inv_steps i))"
    by (simp only: map_replicate_const straight_line_not_started)
  have none: "step_instants s = []" if "s \<in> set (inv_steps i)" "step_fields_ok s" for s
    using that True by (auto simp: step_fields_ok_def unstarted_body_ok step_instants_def)
  have "accepted_run ''incomplete'' start 0 (inv_steps i) \<longleftrightarrow>
      (\<forall>s \<in> set (inv_steps i). step_fields_ok s)
      \<and> distinct (map step_id (inv_steps i)) \<and> distinct (map operation_id (inv_steps i))" for start
  proof (cases "\<forall>s \<in> set (inv_steps i). step_fields_ok s")
    case True
    with none have "concat (map step_instants (inv_steps i)) = []" by simp
    then have "sorted (start # concat (map step_instants (inv_steps i)))" by (simp only: sorted1)
    with True line none show ?thesis by (auto simp: accepted_run_def)
  qed (auto simp: accepted_run_def)
  moreover have "validate_inventory_v5 i = Inr () \<longleftrightarrow>
      report_header_ok (inventory_report i)
      \<and> accepted_run ''incomplete'' y 0 (inv_steps i)"
    using True start
    by (auto simp: validate_inventory_v5_def validate_report_v5_iff finish_v5_iff
        inventory_report_def list_ex_iff)
  ultimately show ?thesis
    using True by auto
next
  case False
  then show ?thesis by (auto simp: validate_inventory_v5_def list_ex_iff)
qed

lemma inventory_of_unknown:
  "validate_inventory_v5 i = Inr () \<Longrightarrow> observation_inventory (unknown_v5 i st) = i"
proof -
  assume "validate_inventory_v5 i = Inr ()"
  then have "step_started s = [] \<and> step_finished s = [] \<and> step_error s = []
      \<and> outcome s = ''not_started''" if "s \<in> set (inv_steps i)" for s
    using that by (auto simp: inventory_accepted_iff step_fields_ok_def unstarted_body_ok)
  then show ?thesis
    by (intro inventory_v5.equality)
      (auto simp: observation_inventory_def unknown_v5_def intro!: step_v5.equality map_idI)
qed

lemma unknown_observation_accepted:
  "validate_inventory_v5 i = Inr () \<Longrightarrow>
     state \<in> {''dry_run'', ''missing'', ''invalid'', ''mismatched''} \<Longrightarrow>
     validate_observation_v5 (unknown_v5 i state) = Inr ()"
  unfolding validate_observation_v5_def inventory_of_unknown
  by (auto simp: unknown_v5_def)

end
