(* ===== verification/Go_Json.thy ===== *)
theory Go_Json
  imports Go_Strings
begin

text \<open>
  The parts of \<^verbatim>\<open>encoding/json\<close> and \<^verbatim>\<open>unicode/utf8\<close> the program uses: UTF-8 validity, the
  value grammar (a lexer and a stack machine over its tokens, so that no depth or fuel bound
  is built in), string unquoting, compact printing, and the reflective view of a Go type that
  strict decoding consults.
\<close>

subsection \<open>UTF-8\<close>

text \<open>Number of bytes of the well-formed rune at the head of a string, 0 when there is none.\<close>

fun utf8_len :: "bytes \<Rightarrow> nat" where
  "utf8_len [] = 0"
| "utf8_len (a # s) =
     (if in_range 0 127 a then 1
      else if in_range 194 223 a then
        (case s of b # _ \<Rightarrow> if in_range 128 191 b then 2 else 0 | _ \<Rightarrow> 0)
      else if in_range 224 239 a then
        (case s of b # c # _ \<Rightarrow>
           if in_range (if byte a = 224 then 160 else 128) (if byte a = 237 then 159 else 191) b
              \<and> in_range 128 191 c then 3 else 0
         | _ \<Rightarrow> 0)
      else if in_range 240 244 a then
        (case s of b # c # d # _ \<Rightarrow>
           if in_range (if byte a = 240 then 144 else 128) (if byte a = 244 then 143 else 191) b
              \<and> in_range 128 191 c \<and> in_range 128 191 d then 4 else 0
         | _ \<Rightarrow> 0)
      else 0)"

lemma utf8_len_le: "utf8_len s \<le> length s"
  by (cases s) (auto split: list.splits)

function utf8_valid :: "bytes \<Rightarrow> bool" where
  "utf8_valid s =
     (if s = [] then True else if utf8_len s = 0 then False else utf8_valid (drop (utf8_len s) s))"
  by pat_completeness auto
termination
  by (relation "measure length") auto

declare utf8_valid.simps [simp del]

text \<open>\<^verbatim>\<open>utf8.RuneCountInString\<close>: an ill-formed byte counts as one rune.\<close>

function rune_count :: "bytes \<Rightarrow> nat" where
  "rune_count s = (if s = [] then 0 else Suc (rune_count (drop (max 1 (utf8_len s)) s)))"
  by pat_completeness auto
termination
  by (relation "measure length") auto

declare rune_count.simps [simp del]

definition replacement :: bytes where
  "replacement = map char_of [239, 191, 189 :: int]"

definition encode_rune :: "int \<Rightarrow> bytes" where
  "encode_rune r =
     map char_of
       (if r < 128 then [r]
        else if r < 2048 then [192 + r div 64, 128 + r mod 64]
        else if r < 65536 then [224 + r div 4096, 128 + r div 64 mod 64, 128 + r mod 64]
        else [240 + r div 262144, 128 + r div 4096 mod 64, 128 + r div 64 mod 64, 128 + r mod 64])"

subsection \<open>Values and tokens\<close>

text \<open>
  A parsed value. Numbers keep their text, objects keep their members in order and with
  repetitions: the program's own checks decide about them.
\<close>

datatype json =
    JNull
  | JBool bool
  | JNum bytes
  | JStr bytes
  | JArr "json list"
  | JObj "(bytes \<times> json) list"

datatype token = LBrace | RBrace | LBrack | RBrack | Colon | Comma | Atom json

definition is_ws :: "char \<Rightarrow> bool" where
  "is_ws c = (byte c = 32 \<or> byte c = 9 \<or> byte c = 10 \<or> byte c = 13)"

subsection \<open>Strings\<close>

text \<open>The text of a string up to its closing quote, and the text behind the quote.\<close>

fun scan_body :: "bytes \<Rightarrow> (bytes \<times> bytes) option" where
  "scan_body [] = None"
| "scan_body (c # s) =
     (if byte c = 34 then Some ([], s)
      else if byte c < 32 then None
      else if byte c = 92 then
        (case s of
           [] \<Rightarrow> None
         | e # s' \<Rightarrow>
             if e = CHR ''u'' then
               (case s' of
                  h1 # h2 # h3 # h4 # s'' \<Rightarrow>
                    if list_all is_hex [h1, h2, h3, h4]
                    then map_option (\<lambda>(b, r). (c # e # h1 # h2 # h3 # h4 # b, r)) (scan_body s'')
                    else None
                | _ \<Rightarrow> None)
             else if byte e \<in> {34, 92, 47, 98, 102, 110, 114, 116}
             then map_option (\<lambda>(b, r). (c # e # b, r)) (scan_body s')
             else None)
      else map_option (\<lambda>(b, r). (c # b, r)) (scan_body s))"

lemma scan_body_shorter: "scan_body s = Some (b, r) \<Longrightarrow> length r < length s"
  by (induction s arbitrary: b r rule: scan_body.induct)
    (fastforce split: if_splits list.splits option.splits)+

definition hex_value :: "char \<Rightarrow> int" where
  "hex_value c =
     (if is_digit c then byte c - 48 else if in_range 97 102 c then byte c - 87 else byte c - 55)"

definition hex4 :: "bytes \<Rightarrow> int" where
  "hex4 ds = foldl (\<lambda>n d. 16 * n + hex_value d) 0 ds"

definition escape_value :: "char \<Rightarrow> char" where
  "escape_value e =
     (if e = CHR ''b'' then char_of (8 :: int) else if e = CHR ''f'' then char_of (12 :: int)
      else if e = CHR ''n'' then char_of (10 :: int) else if e = CHR ''r'' then char_of (13 :: int)
      else if e = CHR ''t'' then char_of (9 :: int) else e)"

text \<open>The low surrogate of an escape at the head of the text, when there is one.\<close>

definition low_surrogate :: "bytes \<Rightarrow> int option" where
  "low_surrogate s =
     (case s of
        a # u # h1 # h2 # h3 # h4 # _ \<Rightarrow>
          (let n = hex4 [h1, h2, h3, h4]
           in if byte a = 92 \<and> u = CHR ''u'' \<and> list_all is_hex [h1, h2, h3, h4]
                 \<and> 56320 \<le> n \<and> n \<le> 57343 then Some n else None)
      | _ \<Rightarrow> None)"

function unquote :: "bytes \<Rightarrow> bytes" where
  "unquote s =
     (case s of
        [] \<Rightarrow> []
      | c # s1 \<Rightarrow>
          if byte c = 92 then
            (case s1 of
               [] \<Rightarrow> []
             | e # s2 \<Rightarrow>
                 if e = CHR ''u'' then
                   (let n = hex4 (take 4 s2); s3 = drop 4 s2
                    in if 55296 \<le> n \<and> n \<le> 57343 then
                         (case (if n \<le> 56319 then low_surrogate s3 else None) of
                            Some m \<Rightarrow> encode_rune (65536 + (n - 55296) * 1024 + (m - 56320))
                                      @ unquote (drop 6 s3)
                          | None \<Rightarrow> replacement @ unquote s3)
                       else encode_rune n @ unquote s3)
                 else escape_value e # unquote s2)
          else if utf8_len s = 0 then replacement @ unquote s1
          else take (utf8_len s) s @ unquote (drop (utf8_len s) s))"
  by pat_completeness auto
termination
  by (relation "measure length") (auto simp: neq_Nil_conv)

declare unquote.simps [simp del]

subsection \<open>Numbers\<close>

text \<open>The longest prefix of digits, when there is one.\<close>

definition digits1 :: "bytes \<Rightarrow> (bytes \<times> bytes) option" where
  "digits1 s = (case takeWhile is_digit s of [] \<Rightarrow> None | ds \<Rightarrow> Some (ds, dropWhile is_digit s))"

definition int_part :: "bytes \<Rightarrow> (bytes \<times> bytes) option" where
  "int_part s = (if s \<noteq> [] \<and> hd s = CHR ''0'' then Some (''0'', tl s) else digits1 s)"

definition frac_part :: "bytes \<Rightarrow> (bytes \<times> bytes) option" where
  "frac_part s =
     (if s \<noteq> [] \<and> hd s = CHR ''.''
      then map_option (\<lambda>(d, r). (CHR ''.'' # d, r)) (digits1 (tl s)) else Some ([], s))"

definition exp_part :: "bytes \<Rightarrow> (bytes \<times> bytes) option" where
  "exp_part s =
     (if s \<noteq> [] \<and> hd s \<in> set ''eE'' then
        (case tl s of
           [] \<Rightarrow> None
         | g # s2 \<Rightarrow>
             if g \<in> set ''+-'' then map_option (\<lambda>(d, r). (hd s # g # d, r)) (digits1 s2)
             else map_option (\<lambda>(d, r). (hd s # d, r)) (digits1 (g # s2)))
      else Some ([], s))"

definition scan_number :: "bytes \<Rightarrow> (bytes \<times> bytes) option" where
  "scan_number s =
     (let (sg, s0) = (if s \<noteq> [] \<and> hd s = CHR ''-'' then (''-'', tl s) else ([], s))
      in Option.bind (int_part s0) (\<lambda>(i, s1).
         Option.bind (frac_part s1) (\<lambda>(f, s2).
         Option.bind (exp_part s2) (\<lambda>(e, s3). Some (sg @ i @ f @ e, s3)))))"

lemma digits1_shorter: "digits1 s = Some (d, r) \<Longrightarrow> s = d @ r \<and> d \<noteq> []"
  using takeWhile_dropWhile_id [of is_digit s] by (auto simp: digits1_def split: list.splits)

lemma int_part_split: "int_part s = Some (d, r) \<Longrightarrow> s = d @ r \<and> d \<noteq> []"
  by (cases s) (auto simp: int_part_def dest!: digits1_shorter split: if_splits)

lemma frac_part_split: "frac_part s = Some (d, r) \<Longrightarrow> s = d @ r"
  by (cases s) (auto simp: frac_part_def split: if_splits dest!: digits1_shorter)

lemma exp_part_split: "exp_part s = Some (d, r) \<Longrightarrow> s = d @ r"
  by (cases s) (auto simp: exp_part_def split: if_splits list.splits dest!: digits1_shorter)

lemma scan_number_split: "scan_number s = Some (d, r) \<Longrightarrow> s = d @ r \<and> d \<noteq> []"
  by (cases s) (auto simp: scan_number_def Let_def bind_eq_Some_conv split: if_splits
      dest!: int_part_split frac_part_split exp_part_split)

subsection \<open>Lexer\<close>

definition literals :: "(bytes \<times> json) list" where
  "literals = [(''null'', JNull), (''true'', JBool True), (''false'', JBool False)]"

definition scan_literal :: "bytes \<Rightarrow> (json \<times> bytes) option" where
  "scan_literal s =
     (case filter (\<lambda>(w, v). prefix w s) literals of
        [] \<Rightarrow> None
      | (w, v) # _ \<Rightarrow> Some (v, drop (length w) s))"

lemma scan_literal_shorter: "scan_literal s = Some (v, r) \<Longrightarrow> length r < length s"
  by (auto simp: scan_literal_def literals_def split: list.splits if_splits
      dest!: prefix_length_le)

definition punct :: "char \<Rightarrow> token option" where
  "punct c =
     (if c = CHR ''{'' then Some LBrace else if c = CHR ''}'' then Some RBrace
      else if c = CHR ''['' then Some LBrack else if c = CHR '']'' then Some RBrack
      else if c = CHR '':'' then Some Colon else if c = CHR '','' then Some Comma else None)"

definition scan_token :: "bytes \<Rightarrow> (token \<times> bytes) option" where
  "scan_token s =
     (case s of
        [] \<Rightarrow> None
      | c # s' \<Rightarrow>
          (case punct c of
             Some t \<Rightarrow> Some (t, s')
           | None \<Rightarrow>
               if byte c = 34 then
                 map_option (\<lambda>(b, r). (Atom (JStr (unquote b)), r)) (scan_body s')
               else if is_digit c \<or> c = CHR ''-'' then
                 map_option (\<lambda>(n, r). (Atom (JNum n), r)) (scan_number s)
               else map_option (\<lambda>(v, r). (Atom v, r)) (scan_literal s)))"

lemma scan_token_shorter: "scan_token s = Some (t, r) \<Longrightarrow> length r < length s"
  by (auto simp: scan_token_def split: list.splits option.splits if_splits
      dest: scan_body_shorter scan_literal_shorter dest!: scan_number_split)
    (metis length_Cons length_append add_less_same_cancel2 length_greater_0_conv less_add_same_cancel2)+

function lex :: "bytes \<Rightarrow> token list option" where
  "lex s =
     (case s of
        [] \<Rightarrow> Some []
      | c # s' \<Rightarrow>
          if is_ws c then lex s'
          else (case scan_token s of
                  None \<Rightarrow> None
                | Some (t, r) \<Rightarrow> map_option (Cons t) (lex r)))"
  by pat_completeness auto
termination
  by (relation "measure length") (auto dest: scan_token_shorter)

declare lex.simps [simp del]

subsection \<open>The value grammar\<close>

text \<open>
  The open containers form a stack: an array with its elements so far, an object with its
  members so far, an object waiting for the value of a key.
\<close>

datatype frame =
    InArr "json list"
  | InObj "(bytes \<times> json) list"
  | InKey "(bytes \<times> json) list" bytes

datatype mode = WantValue | FirstElem | FirstKey | WantKey | WantColon | Have json

definition start_value :: "token \<Rightarrow> frame list \<Rightarrow> (mode \<times> frame list) option" where
  "start_value t st =
     (case t of
        Atom v \<Rightarrow> Some (Have v, st)
      | LBrack \<Rightarrow> Some (FirstElem, InArr [] # st)
      | LBrace \<Rightarrow> Some (FirstKey, InObj [] # st)
      | _ \<Rightarrow> None)"

definition take_key :: "token \<Rightarrow> frame list \<Rightarrow> (mode \<times> frame list) option" where
  "take_key t st =
     (case (t, st) of
        (Atom (JStr k), InObj ms # st') \<Rightarrow> Some (WantColon, InKey ms k # st')
      | _ \<Rightarrow> None)"

definition after_value :: "json \<Rightarrow> token \<Rightarrow> frame list \<Rightarrow> (mode \<times> frame list) option" where
  "after_value v t st =
     (case st of
        InArr xs # st' \<Rightarrow>
          (if t = Comma then Some (WantValue, InArr (xs @ [v]) # st')
           else if t = RBrack then Some (Have (JArr (xs @ [v])), st') else None)
      | InKey ms k # st' \<Rightarrow>
          (if t = Comma then Some (WantKey, InObj (ms @ [(k, v)]) # st')
           else if t = RBrace then Some (Have (JObj (ms @ [(k, v)])), st') else None)
      | _ \<Rightarrow> None)"

fun parse_step :: "token \<Rightarrow> mode \<times> frame list \<Rightarrow> (mode \<times> frame list) option" where
  "parse_step t (WantValue, st) = start_value t st"
| "parse_step t (FirstElem, st) =
     (case (t, st) of
        (RBrack, InArr xs # st') \<Rightarrow> Some (Have (JArr xs), st')
      | _ \<Rightarrow> start_value t st)"
| "parse_step t (FirstKey, st) =
     (case (t, st) of
        (RBrace, InObj ms # st') \<Rightarrow> Some (Have (JObj ms), st')
      | _ \<Rightarrow> take_key t st)"
| "parse_step t (WantKey, st) = take_key t st"
| "parse_step t (WantColon, st) = (if t = Colon then Some (WantValue, st) else None)"
| "parse_step t (Have v, st) = after_value v t st"

fun parse_run :: "token list \<Rightarrow> mode \<times> frame list \<Rightarrow> (mode \<times> frame list) option" where
  "parse_run [] c = Some c"
| "parse_run (t # ts) c = (case parse_step t c of None \<Rightarrow> None | Some c' \<Rightarrow> parse_run ts c')"

text \<open>A document is one value, with white space around it.\<close>

definition parse_json :: "bytes \<Rightarrow> json option" where
  "parse_json s =
     (case lex s of
        None \<Rightarrow> None
      | Some ts \<Rightarrow>
          (case parse_run ts (WantValue, []) of
             Some (Have v, []) \<Rightarrow> Some v
           | _ \<Rightarrow> None))"

lemma parse_run_append:
  "parse_run (ts @ us) c = (case parse_run ts c of None \<Rightarrow> None | Some c' \<Rightarrow> parse_run us c')"
  by (induction ts arbitrary: c) (auto split: option.splits)

subsection \<open>Go types as decoding sees them\<close>

text \<open>
  A struct lists its fields in order: the name of the tag, whether it says \<^verbatim>\<open>omitempty\<close>,
  the type. \<^verbatim>\<open>GRaw\<close> is \<^verbatim>\<open>json.RawMessage\<close>, which decodes itself.
\<close>

datatype goty =
    GString
  | GBool
  | GInt
  | GUint
  | GRaw
  | GAny
  | GPtr goty
  | GSlice goty
  | GMap goty
  | GStruct "(bytes \<times> bool \<times> goty) list"

type_synonym gofields = "(bytes \<times> bool \<times> goty) list"

text \<open>
  Simple case folding as far as it reaches a name of ASCII letters: upper case, the long s
  and the Kelvin sign.
\<close>

fun fold_key :: "bytes \<Rightarrow> bytes" where
  "fold_key [] = []"
| "fold_key (a # s) =
     (if byte a = 197 \<and> s \<noteq> [] \<and> byte (hd s) = 191 then CHR ''s'' # fold_key (tl s)
      else if byte a = 226 \<and> 2 \<le> length s \<and> byte (s ! 0) = 132 \<and> byte (s ! 1) = 170
        then CHR ''k'' # fold_key (tl (tl s))
      else lower_char a # fold_key s)"

text \<open>An exact name takes precedence over a folded one.\<close>

definition find_field :: "gofields \<Rightarrow> bytes \<Rightarrow> (bytes \<times> bool \<times> goty) option" where
  "find_field fs k =
     (case find (\<lambda>f. fst f = k) fs of
        Some f \<Rightarrow> Some f
      | None \<Rightarrow> find (\<lambda>f. fold_key (fst f) = fold_key k) fs)"

fun dest_type :: "goty \<Rightarrow> goty" where
  "dest_type (GPtr t) = dest_type t"
| "dest_type t = t"

definition elem_type :: "goty \<Rightarrow> goty" where
  "elem_type t = (case dest_type t of GSlice u \<Rightarrow> u | _ \<Rightarrow> GAny)"

definition struct_fields :: "goty \<Rightarrow> gofields" where
  "struct_fields t = (case dest_type t of GStruct fs \<Rightarrow> fs | _ \<Rightarrow> [])"

definition member_type :: "goty \<Rightarrow> bytes \<Rightarrow> goty" where
  "member_type t k =
     (case dest_type t of
        GMap u \<Rightarrow> u
      | GStruct fs \<Rightarrow> (case find_field fs k of Some f \<Rightarrow> snd (snd f) | None \<Rightarrow> GAny)
      | _ \<Rightarrow> GAny)"

text \<open>An integer literal of \<^verbatim>\<open>encoding/json\<close> for an \<^verbatim>\<open>int\<close>: no fraction, no exponent, 64 bits.\<close>

definition int_lexeme :: "bytes \<Rightarrow> int option" where
  "int_lexeme n =
     (let (sg, ds) = (if n \<noteq> [] \<and> hd n = CHR ''-'' then (-1, tl n) else (1, n));
          v = sg * foldl (\<lambda>a d. 10 * a + (byte d - 48)) 0 ds
      in if ds \<noteq> [] \<and> list_all is_digit ds \<and> - (2 ^ 63) \<le> v \<and> v < 2 ^ 63 then Some v else None)"

text \<open>The same for a \<^verbatim>\<open>uint64\<close>, which takes no sign at all.\<close>

definition uint_lexeme :: "bytes \<Rightarrow> int option" where
  "uint_lexeme n =
     (let v = foldl (\<lambda>a d. 10 * a + (byte d - 48)) 0 n
      in if n \<noteq> [] \<and> list_all is_digit n \<and> v < 2 ^ 64 then Some v else None)"

text \<open>
  Whether a value decodes into a type. A null leaves any destination alone. A struct refuses
  a member that no field takes.
\<close>

fun fits :: "goty \<Rightarrow> json \<Rightarrow> bool" where
  "fits t JNull = True"
| "fits t (JBool b) = (dest_type t \<in> {GBool, GRaw, GAny})"
| "fits t (JNum n) =
     (dest_type t \<in> {GRaw, GAny} \<or> (dest_type t = GInt \<and> int_lexeme n \<noteq> None)
      \<or> (dest_type t = GUint \<and> uint_lexeme n \<noteq> None))"
| "fits t (JStr s) = (dest_type t \<in> {GString, GRaw, GAny})"
| "fits t (JArr xs) =
     (case dest_type t of
        GSlice u \<Rightarrow> (\<forall>x \<in> set xs. fits u x)
      | GRaw \<Rightarrow> True
      | GAny \<Rightarrow> True
      | _ \<Rightarrow> False)"
| "fits t (JObj ms) =
     (case dest_type t of
        GMap u \<Rightarrow> (\<forall>m \<in> set ms. fits u (snd m))
      | GStruct fs \<Rightarrow>
          (\<forall>m \<in> set ms. find_field fs (fst m) \<noteq> None \<and> fits (member_type t (fst m)) (snd m))
      | GRaw \<Rightarrow> True
      | GAny \<Rightarrow> True
      | _ \<Rightarrow> False)"

subsection \<open>Reading members\<close>

text \<open>
  The value a decoded struct has in a field: the member that the field takes, null when
  there is none. Strict decoding leaves at most one.
\<close>

definition field_value :: "gofields \<Rightarrow> bytes \<Rightarrow> json \<Rightarrow> json" where
  "field_value fs name j =
     (case j of
        JObj ms \<Rightarrow>
          (case find (\<lambda>m. map_option fst (find_field fs (fst m)) = Some name) ms of
             Some m \<Rightarrow> snd m
           | None \<Rightarrow> JNull)
      | _ \<Rightarrow> JNull)"

text \<open>The value under an exact key, as \<^verbatim>\<open>map[string]json.RawMessage\<close> shows it.\<close>

definition raw_member :: "bytes \<Rightarrow> json \<Rightarrow> json option" where
  "raw_member k j = (case j of JObj ms \<Rightarrow> map_of (rev ms) k | _ \<Rightarrow> None)"

definition members :: "json \<Rightarrow> (bytes \<times> json) list" where
  "members j = (case j of JObj ms \<Rightarrow> ms | _ \<Rightarrow> [])"

definition elements :: "json \<Rightarrow> json list" where
  "elements j = (case j of JArr xs \<Rightarrow> xs | _ \<Rightarrow> [])"

definition str_of :: "json \<Rightarrow> bytes" where
  "str_of j = (case j of JStr s \<Rightarrow> s | _ \<Rightarrow> [])"

definition bool_of :: "json \<Rightarrow> bool" where
  "bool_of j = (case j of JBool b \<Rightarrow> b | _ \<Rightarrow> False)"

definition int_of_json :: "json \<Rightarrow> int" where
  "int_of_json j = (case j of JNum n \<Rightarrow> (case int_lexeme n of Some i \<Rightarrow> i | None \<Rightarrow> 0) | _ \<Rightarrow> 0)"

definition uint_of_json :: "json \<Rightarrow> int" where
  "uint_of_json j =
     (case j of JNum n \<Rightarrow> (case uint_lexeme n of Some i \<Rightarrow> i | None \<Rightarrow> 0) | _ \<Rightarrow> 0)"

subsection \<open>Printing\<close>

definition hex_digit :: "int \<Rightarrow> char" where
  "hex_digit n = char_of (if n < 10 then 48 + n else 87 + n)"

text \<open>The escape of one ASCII byte, when the encoder writes one.\<close>

definition escape_byte :: "bool \<Rightarrow> char \<Rightarrow> bytes option" where
  "escape_byte html c =
     (if byte c = 34 \<or> byte c = 92 then Some [char_of (92 :: int), c]
      else if byte c = 8 then Some [char_of (92 :: int), CHR ''b'']
      else if byte c = 12 then Some [char_of (92 :: int), CHR ''f'']
      else if byte c = 10 then Some [char_of (92 :: int), CHR ''n'']
      else if byte c = 13 then Some [char_of (92 :: int), CHR ''r'']
      else if byte c = 9 then Some [char_of (92 :: int), CHR ''t'']
      else if byte c < 32 \<or> (html \<and> c \<in> set ''<>&'')
        then Some (char_of (92 :: int) # ''u00'' @ [hex_digit (byte c div 16), hex_digit (byte c mod 16)])
      else None)"

function quote_body :: "bool \<Rightarrow> bytes \<Rightarrow> bytes" where
  "quote_body html s =
     (case s of
        [] \<Rightarrow> []
      | c # s' \<Rightarrow>
          if byte c < 128 then
            (case escape_byte html c of Some e \<Rightarrow> e | None \<Rightarrow> [c]) @ quote_body html s'
          else if utf8_len s = 0 then char_of (92 :: int) # ''ufffd'' @ quote_body html s'
          else if map byte (take 3 s) \<in> {[226, 128, 168], [226, 128, 169]}
            then char_of (92 :: int) # ''u202'' @ [hex_digit (byte (s ! 2) mod 16)]
                 @ quote_body html (drop 3 s)
          else take (utf8_len s) s @ quote_body html (drop (utf8_len s) s))"
  by pat_completeness auto
termination
  by (relation "measure (\<lambda>(h, s). length s)") auto

declare quote_body.simps [simp del]

definition quoted :: "bool \<Rightarrow> bytes \<Rightarrow> bytes" where
  "quoted html s = char_of (34 :: int) # quote_body html s @ [char_of (34 :: int)]"

fun print_json :: "bool \<Rightarrow> json \<Rightarrow> bytes" where
  "print_json html JNull = ''null''"
| "print_json html (JBool b) = (if b then ''true'' else ''false'')"
| "print_json html (JNum n) = n"
| "print_json html (JStr s) = quoted html s"
| "print_json html (JArr xs) = ''['' @ join '','' (map (print_json html) xs) @ '']''"
| "print_json html (JObj ms) =
     ''{'' @ join '','' (map (\<lambda>m. quoted html (fst m) @ '':'' @ print_json html (snd m)) ms) @ ''}''"

text \<open>\<^verbatim>\<open>json.Marshal\<close> of a value already laid out in the order of its fields.\<close>

definition marshal :: "json \<Rightarrow> bytes" where
  "marshal j = print_json True j"

text \<open>A member that \<^verbatim>\<open>omitempty\<close> leaves out when its string is empty.\<close>

definition omit_str :: "bytes \<Rightarrow> bytes \<Rightarrow> (bytes \<times> json) list" where
  "omit_str k s = (if s = [] then [] else [(k, JStr s)])"

end
