(* ===== verification/Wire.thy ===== *)
theory Wire
  imports Go_Json
begin

text \<open>
  Package \<^verbatim>\<open>wire\<close>: bounded strict decoding. \<^verbatim>\<open>scan_value\<close> is \<^verbatim>\<open>scanJSONValue\<close> of
  \<^verbatim>\<open>wire/json.go\<close> over a well-formed document, with the node counter threaded through,
  and \<^verbatim>\<open>decode_strict\<close> is \<^verbatim>\<open>DecodeStrict\<close> up to the filling of the destination.
\<close>

definition max_bytes :: int where
  "max_bytes = 8388608"

definition max_nodes :: int where
  "max_nodes = 100000"

definition max_depth :: int where
  "max_depth = 64"

datatype wire_error =
    ByteLimit
  | NodeLimit
  | DepthLimit
  | DuplicateKey
  | DuplicateField
  | Malformed
  | Mismatch

text \<open>The field a key selects in the record of a destination, when the destination is a struct.\<close>

definition field_hit :: "goty \<Rightarrow> bytes \<Rightarrow> bytes option" where
  "field_hit t k =
     (case dest_type t of
        GStruct fs \<Rightarrow> map_option fst (find_field fs k)
      | _ \<Rightarrow> None)"

fun scan_value :: "goty \<Rightarrow> int \<Rightarrow> int \<Rightarrow> json \<Rightarrow> wire_error + int"
  and scan_members ::
    "goty \<Rightarrow> int \<Rightarrow> bytes list \<Rightarrow> bytes list \<Rightarrow> int \<Rightarrow> (bytes \<times> json) list \<Rightarrow> wire_error + int"
  and scan_elements :: "goty \<Rightarrow> int \<Rightarrow> int \<Rightarrow> json list \<Rightarrow> wire_error + int"
where
  "scan_value t depth nodes j =
     (if max_nodes < nodes + 1 then Inl NodeLimit
      else case j of
        JObj ms \<Rightarrow>
          if max_depth \<le> depth then Inl DepthLimit
          else scan_members t depth [] [] (nodes + 1) ms
      | JArr xs \<Rightarrow>
          if max_depth \<le> depth then Inl DepthLimit
          else scan_elements (elem_type t) depth (nodes + 1) xs
      | _ \<Rightarrow> Inr (nodes + 1))"
| "scan_members t depth seen hit nodes [] = Inr nodes"
| "scan_members t depth seen hit nodes (m # ms) =
     (if fst m \<in> set seen then Inl DuplicateKey
      else case field_hit t (fst m) of
        Some f \<Rightarrow>
          if f \<in> set hit then Inl DuplicateField
          else (case scan_value (member_type t (fst m)) (depth + 1) nodes (snd m) of
                  Inl e \<Rightarrow> Inl e
                | Inr n \<Rightarrow> scan_members t depth (fst m # seen) (f # hit) n ms)
      | None \<Rightarrow>
          (case scan_value (member_type t (fst m)) (depth + 1) nodes (snd m) of
             Inl e \<Rightarrow> Inl e
           | Inr n \<Rightarrow> scan_members t depth (fst m # seen) hit n ms))"
| "scan_elements t depth nodes [] = Inr nodes"
| "scan_elements t depth nodes (x # xs) =
     (case scan_value t (depth + 1) nodes x of
        Inl e \<Rightarrow> Inl e
      | Inr n \<Rightarrow> scan_elements t depth n xs)"

definition decode_strict :: "goty \<Rightarrow> bytes \<Rightarrow> wire_error + json" where
  "decode_strict t data =
     (if max_bytes < int (length data) then Inl ByteLimit
      else case parse_json data of
        None \<Rightarrow> Inl Malformed
      | Some j \<Rightarrow>
          (case scan_value t 0 0 j of
             Inl e \<Rightarrow> Inl e
           | Inr _ \<Rightarrow> if fits t j then Inr j else Inl Mismatch))"

subsection \<open>What the scan accepts\<close>

fun depth_of :: "json \<Rightarrow> int" where
  "depth_of (JArr xs) = 1 + foldr max (map depth_of xs) 0"
| "depth_of (JObj ms) = 1 + foldr max (map (\<lambda>m. depth_of (snd m)) ms) 0"
| "depth_of _ = 0"

fun node_count :: "json \<Rightarrow> int" where
  "node_count (JArr xs) = 1 + sum_list (map node_count xs)"
| "node_count (JObj ms) = 1 + sum_list (map (\<lambda>m. node_count (snd m)) ms)"
| "node_count _ = 1"

text \<open>No object repeats a key, and no struct has one field set under two spellings.\<close>

definition field_hits :: "goty \<Rightarrow> (bytes \<times> json) list \<Rightarrow> bytes list" where
  "field_hits t ms = List.map_filter (\<lambda>m. field_hit t (fst m)) ms"

fun unambiguous :: "goty \<Rightarrow> json \<Rightarrow> bool" where
  "unambiguous t (JArr xs) = (\<forall>x \<in> set xs. unambiguous (elem_type t) x)"
| "unambiguous t (JObj ms) =
     (distinct (map fst ms) \<and> distinct (field_hits t ms)
      \<and> (\<forall>m \<in> set ms. unambiguous (member_type t (fst m)) (snd m)))"
| "unambiguous t _ = True"

lemma field_hits_Nil [simp]: "field_hits t [] = []"
  by (simp add: field_hits_def List.map_filter_def)

lemma field_hits_Cons:
  "field_hits t (m # ms) =
     (case field_hit t (fst m) of None \<Rightarrow> field_hits t ms | Some f \<Rightarrow> f # field_hits t ms)"
  by (simp add: field_hits_def List.map_filter_def split: option.split)

lemma depth_of_nonneg: "0 \<le> depth_of j"
proof -
  have "0 \<le> foldr max xs 0" for xs :: "int list" by (induction xs) auto
  then show ?thesis by (cases j) (simp_all add: add_nonneg_nonneg)
qed

lemma foldr_max_le: "foldr max xs 0 \<le> b \<longleftrightarrow> 0 \<le> b \<and> (\<forall>x \<in> set xs. x \<le> b)" for b :: int
  by (induction xs) auto

lemma node_count_pos: "1 \<le> node_count j"
proof (induction j rule: node_count.induct)
  case (1 xs)
  then have "0 \<le> sum_list (map node_count xs)" by (intro sum_list_nonneg) force
  then show ?case by simp
next
  case (2 ms)
  then have "0 \<le> sum_list (map (\<lambda>m. node_count (snd m)) ms)" by (intro sum_list_nonneg) force
  then show ?case by simp
qed simp_all

lemma sum_node_count_nonneg:
  "0 \<le> sum_list (map node_count xs)" "0 \<le> sum_list (map (\<lambda>m. node_count (snd m)) ms)"
  by (auto intro!: sum_list_nonneg order.trans [OF _ node_count_pos])

lemma foldr_max_nonneg: "0 \<le> foldr max xs 0" for xs :: "int list"
  by (induction xs) auto

lemma scan_iff:
  shows "nodes \<le> max_nodes \<Longrightarrow> depth \<le> max_depth \<Longrightarrow>
    scan_value t depth nodes j = Inr n \<longleftrightarrow>
      unambiguous t j \<and> depth + depth_of j \<le> max_depth \<and> n = nodes + node_count j \<and> n \<le> max_nodes"
  and "nodes \<le> max_nodes \<Longrightarrow> depth < max_depth \<Longrightarrow>
    scan_members t depth seen hit nodes ms = Inr n \<longleftrightarrow>
      fresh seen (map fst ms) \<and> fresh hit (field_hits t ms)
      \<and> (\<forall>m \<in> set ms. unambiguous (member_type t (fst m)) (snd m))
      \<and> (\<forall>m \<in> set ms. depth + 1 + depth_of (snd m) \<le> max_depth)
      \<and> n = nodes + sum_list (map (\<lambda>m. node_count (snd m)) ms) \<and> n \<le> max_nodes"
  and "nodes \<le> max_nodes \<Longrightarrow> depth < max_depth \<Longrightarrow>
    scan_elements t depth nodes xs = Inr n \<longleftrightarrow>
      (\<forall>x \<in> set xs. unambiguous t x) \<and> (\<forall>x \<in> set xs. depth + 1 + depth_of x \<le> max_depth)
      \<and> n = nodes + sum_list (map node_count xs) \<and> n \<le> max_nodes"
proof (induction t depth nodes j and t depth seen hit nodes ms and t depth nodes xs
    arbitrary: n and n and n
    rule: scan_value_scan_members_scan_elements.induct)
  case (1 t depth nodes j)
  show ?case
  proof (cases "max_nodes < nodes + 1")
    case True
    then show ?thesis using node_count_pos [of j] by auto
  next
    case False
    show ?thesis
    proof (cases j)
      case (JArr xs)
      show ?thesis
      proof (cases "max_depth \<le> depth")
        case deep: True
        then show ?thesis
          using False foldr_max_nonneg [of "map depth_of xs"] by (auto simp: JArr)
      next
        case shallow: False
        then show ?thesis 
          using 1(1) [OF False JArr] False foldr_max_le [of "map depth_of xs" "max_depth - depth - 1"]
          by (auto simp: JArr)
      qed
    next
      case (JObj ms)
      show ?thesis
      proof (cases "max_depth \<le> depth")
        case deep: True
        then show ?thesis
          using False foldr_max_nonneg [of "map (\<lambda>m. depth_of (snd m)) ms"] by (auto simp: JObj)
      next
        case shallow: False
        then show ?thesis 
          using 1(2) [OF False JObj] False foldr_max_le [of "map (\<lambda>m. depth_of (snd m)) ms" "max_depth - depth - 1"]
          by (auto simp: JObj)
      qed
    qed (use 1 False in auto)
  qed
next
  case (2 t depth seen hit nodes)
  then show ?case by auto
next
  case (3 t depth seen hit nodes m ms)
  let ?v = "scan_value (member_type t (fst m)) (depth + 1) nodes (snd m)"
  show ?case
  proof (cases "fst m \<in> set seen \<or> (\<exists>f. field_hit t (fst m) = Some f \<and> f \<in> set hit)")
    case True
    then show ?thesis
      by (auto simp: fresh_Cons field_hits_Cons)
  next
    case False
    have child: "?v = Inr k \<longleftrightarrow>
        unambiguous (member_type t (fst m)) (snd m) \<and> depth + 1 + depth_of (snd m) \<le> max_depth
        \<and> k = nodes + node_count (snd m) \<and> k \<le> max_nodes" for k
      using 3 False by (cases "field_hit t (fst m)") auto
    show ?thesis
    proof (cases ?v)
      case (Inl e)
      with child have "\<not> (unambiguous (member_type t (fst m)) (snd m)
          \<and> depth + 1 + depth_of (snd m) \<le> max_depth \<and> nodes + node_count (snd m) \<le> max_nodes)"
        by (metis Inl_Inr_False)
      then show ?thesis
        using Inl False sum_node_count_nonneg(2) [of ms] by (auto split: option.splits)
    next
      case (Inr k)
      with child have k: "unambiguous (member_type t (fst m)) (snd m)"
          "depth + 1 + depth_of (snd m) \<le> max_depth" "k = nodes + node_count (snd m)" "k \<le> max_nodes"
        by auto
      show ?thesis
      proof (cases "field_hit t (fst m)")
        case None
        have "scan_members t depth (fst m # seen) hit k ms = Inr n \<longleftrightarrow>
          fresh (fst m # seen) (map fst ms) \<and> fresh hit (field_hits t ms)
          \<and> (\<forall>m \<in> set ms. unambiguous (member_type t (fst m)) (snd m))
          \<and> (\<forall>m \<in> set ms. depth + 1 + depth_of (snd m) \<le> max_depth)
          \<and> n = k + sum_list (map (\<lambda>m. node_count (snd m)) ms) \<and> n \<le> max_nodes"
          using "3.IH"(2) [OF _ None Inr] "3.prems" False k(4) by simp
        then show ?thesis
          using None Inr False k by (simp add: fresh_Cons field_hits_Cons add.assoc)
      next
        case (Some f)
        have "scan_members t depth (fst m # seen) (f # hit) k ms = Inr n \<longleftrightarrow>
          fresh (fst m # seen) (map fst ms) \<and> fresh (f # hit) (field_hits t ms)
          \<and> (\<forall>m \<in> set ms. unambiguous (member_type t (fst m)) (snd m))
          \<and> (\<forall>m \<in> set ms. depth + 1 + depth_of (snd m) \<le> max_depth)
          \<and> n = k + sum_list (map (\<lambda>m. node_count (snd m)) ms) \<and> n \<le> max_nodes"
          using "3.IH"(4) [OF _ Some _ Inr] "3.prems" False Some k(4) by simp
        then show ?thesis
          using Some Inr False k by (simp add: fresh_Cons field_hits_Cons add.assoc)
      qed
    qed
  qed
next
  case (4 t depth nodes)
  then show ?case by auto
next
  case (5 t depth nodes x xs)
  show ?case
  proof (cases "scan_value t (depth + 1) nodes x")
    case (Inl e)
    have "\<not> (unambiguous t x \<and> depth + 1 + depth_of x \<le> max_depth
        \<and> nodes + node_count x \<le> max_nodes)"
      using Inl 5(1) [of "nodes + node_count x"] "5.prems" by auto
    then show ?thesis using Inl sum_node_count_nonneg(1) [of xs] by (auto simp del: scan_value.simps)
  next
    case (Inr k)
    then have k: "unambiguous t x" "depth + 1 + depth_of x \<le> max_depth" "k = nodes + node_count x"
        "k \<le> max_nodes"
      using 5(1) [of k] "5.prems" by auto
    then show ?thesis using Inr 5(2) [OF Inr, of n] "5.prems"
      by (auto simp del: scan_value.simps)
  qed
qed

lemma scan_value_iff:
  "scan_value t 0 0 j = Inr n \<longleftrightarrow>
     unambiguous t j \<and> depth_of j \<le> max_depth \<and> node_count j \<le> max_nodes \<and> n = node_count j"
  by (subst scan_iff(1)) (auto simp: max_nodes_def max_depth_def)

lemma decode_strict_iff:
  "decode_strict t data = Inr j \<longleftrightarrow>
     int (length data) \<le> max_bytes \<and> parse_json data = Some j \<and> unambiguous t j
     \<and> depth_of j \<le> max_depth \<and> node_count j \<le> max_nodes \<and> fits t j"
proof (cases "parse_json data")
  case (Some v)
  show ?thesis
  proof (cases "scan_value t 0 0 v")
    case (Inl e)
    then have "\<not> (unambiguous t v \<and> depth_of v \<le> max_depth \<and> node_count v \<le> max_nodes)"
      using scan_value_iff [of t v "node_count v"] by auto
    then show ?thesis using Some Inl by (auto simp: decode_strict_def simp del: scan_value.simps)
  next
    case (Inr n)
    then show ?thesis using Some scan_value_iff [of t v n]
      by (auto simp: decode_strict_def simp del: scan_value.simps)
  qed
qed (simp add: decode_strict_def)

text \<open>
  C12. Strict decoding accepts a document exactly when it is within the byte limit, well formed,
  at most 64 containers deep, of at most 100000 values, free of repeated keys and of struct
  fields set twice under two spellings, and of the shape of the destination. The counter and
  the maps of seen keys in the code implement that description.
\<close>

theorem decode_strict_accepts:
  "decode_strict t data = Inr j \<longleftrightarrow>
     int (length data) \<le> max_bytes \<and> parse_json data = Some j \<and> unambiguous t j
     \<and> depth_of j \<le> max_depth \<and> node_count j \<le> max_nodes \<and> fits t j"
  by (rule decode_strict_iff)

end
