(* ===== verification/Digest.thy ===== *)
theory Digest
  imports Go_Strings "HOL-Library.Word"
begin

unbundle bit_operations_syntax

text \<open>
  Package \<^verbatim>\<open>digest\<close> (\<^verbatim>\<open>digest/digest.go\<close>): SHA-256 as lower-case hex and the syntactic tests
  on digests. The hash is written out on 32-bit words, following FIPS 180-4 as
  \<^verbatim>\<open>crypto/sha256\<close> implements it. Nothing below depends on collision resistance: theorems
  about binding state an equality or exhibit two texts with one digest.
\<close>

subsection \<open>SHA-256\<close>

text \<open>
  The constants of the standard are the leading fractional bits of the cube roots of the first
  64 primes and of the square roots of the first eight; \<^verbatim>\<open>int_root\<close> finds the integer
  part of a root bit by bit.
\<close>

fun int_root :: "nat \<Rightarrow> int \<Rightarrow> nat \<Rightarrow> int \<Rightarrow> int" where
  "int_root k n 0 acc = acc"
| "int_root k n (Suc b) acc =
     (let cand = acc + 2 ^ b in int_root k n b (if cand ^ k \<le> n then cand else acc))"

definition is_prime :: "int \<Rightarrow> bool" where
  "is_prime p = list_all (\<lambda>d. p mod d \<noteq> 0) [2..p - 1]"

definition primes :: "int list" where
  "primes = filter is_prime [2..311]"

definition round_constants :: "32 word list" where
  "round_constants = map (\<lambda>p. word_of_int (int_root 3 (p * 2 ^ 96) 36 0)) primes"

definition initial_hash :: "32 word list" where
  "initial_hash = map (\<lambda>p. word_of_int (int_root 2 (p * 2 ^ 64) 36 0)) [2, 3, 5, 7, 11, 13, 17, 19]"

definition pad_message :: "bytes \<Rightarrow> int list" where
  "pad_message s =
     (let n = length s; z = (119 - n mod 64) mod 64; len = int (8 * n) mod 2 ^ 64
      in map byte s @ [128] @ replicate z 0
         @ map (\<lambda>k. len div 256 ^ k mod 256) [7, 6, 5, 4, 3, 2, 1, 0])"

fun be_words :: "int list \<Rightarrow> 32 word list" where
  "be_words (a # b # c # d # s) =
     word_of_int (((a * 256 + b) * 256 + c) * 256 + d) # be_words s"
| "be_words _ = []"

definition rotr :: "nat \<Rightarrow> 32 word \<Rightarrow> 32 word" where
  "rotr n w = (drop_bit n w OR push_bit (32 - n) w)"

definition small0 :: "32 word \<Rightarrow> 32 word" where
  "small0 w = (rotr 7 w XOR rotr 18 w XOR drop_bit 3 w)"

definition small1 :: "32 word \<Rightarrow> 32 word" where
  "small1 w = (rotr 17 w XOR rotr 19 w XOR drop_bit 10 w)"

text \<open>The message schedule, most recent word first.\<close>

fun extend_schedule :: "nat \<Rightarrow> 32 word list \<Rightarrow> 32 word list" where
  "extend_schedule 0 ws = ws"
| "extend_schedule (Suc n) ws =
     extend_schedule n ((small1 (ws ! 1) + ws ! 6 + small0 (ws ! 14) + ws ! 15) # ws)"

fun sha_round :: "32 word list \<Rightarrow> 32 word \<times> 32 word \<Rightarrow> 32 word list" where
  "sha_round [a, b, c, d, e, f, g, h] (k, w) =
     (let t1 = h + (rotr 6 e XOR rotr 11 e XOR rotr 25 e) + ((e AND f) XOR (NOT e AND g)) + k + w;
          t2 = (rotr 2 a XOR rotr 13 a XOR rotr 22 a) + ((a AND b) XOR (a AND c) XOR (b AND c))
      in [t1 + t2, a, b, c, d + t1, e, f, g])"
| "sha_round hs _ = hs"

definition sha_block :: "32 word list \<Rightarrow> 32 word list \<Rightarrow> 32 word list" where
  "sha_block hs ws =
     map2 (+) hs
       (foldl sha_round hs (zip round_constants (rev (extend_schedule 48 (rev ws)))))"

fun sha_blocks :: "nat \<Rightarrow> 32 word list \<Rightarrow> 32 word list \<Rightarrow> 32 word list" where
  "sha_blocks 0 hs ws = hs"
| "sha_blocks (Suc n) hs ws = sha_blocks n (sha_block hs (take 16 ws)) (drop 16 ws)"

definition sha_words :: "bytes \<Rightarrow> 32 word list" where
  "sha_words s =
     (let ws = be_words (pad_message s) in sha_blocks (length ws div 16) initial_hash ws)"

definition nibble :: "int \<Rightarrow> char" where
  "nibble n = char_of (if n mod 16 < 10 then 48 + n mod 16 else 87 + n mod 16)"

definition word_hex :: "32 word \<Rightarrow> bytes" where
  "word_hex w = map (\<lambda>k. nibble (uint w div 16 ^ k)) [7, 6, 5, 4, 3, 2, 1, 0]"

definition sha256 :: "bytes \<Rightarrow> bytes" where
  "sha256 s = concat (map word_hex (sha_words s))"

subsection \<open>Tests on digests\<close>

definition valid_hex :: "bytes \<Rightarrow> int \<Rightarrow> bool" where
  "valid_hex value n =
     (let v = trim_space value in int (length v) = n \<and> hex_decodable v)"

definition valid_sha256 :: "bytes \<Rightarrow> bool" where
  "valid_sha256 value = valid_hex value 64"

definition valid_git_object :: "bytes \<Rightarrow> bool" where
  "valid_git_object value = (valid_hex value 40 \<or> valid_hex value 64)"

text \<open>The digest syntax every stricter check of the program asks for: 64 lower-case hex bytes.\<close>

definition plain_sha256 :: "bytes \<Rightarrow> bool" where
  "plain_sha256 s = (length s = 64 \<and> list_all is_lower_hex s)"

lemma plain_sha256_valid: "plain_sha256 s \<Longrightarrow> valid_sha256 s"
proof -
  assume s: "plain_sha256 s"
  then have "trim_space s = s"
    by (auto simp: plain_sha256_def list_all_iff lower_hex_alnum intro: trim_space_alnum)
  with s show ?thesis
    by (auto simp: plain_sha256_def valid_sha256_def valid_hex_def hex_decodable_def
        list_all_iff lower_hex_iff)
qed

lemma length_sha_round: "length (sha_round hs kw) = length hs"
  by (cases "(hs, kw)" rule: sha_round.cases) (auto simp: Let_def)

lemma length_sha_block: "length (sha_block hs ws) = length hs"
proof -
  have "length (foldl sha_round hs xs) = length hs" for xs
    by (induction xs arbitrary: hs) (simp_all add: length_sha_round)
  then show ?thesis by (simp add: sha_block_def)
qed

lemma length_sha_blocks: "length (sha_blocks n hs ws) = length hs"
  by (induction n arbitrary: hs ws) (simp_all add: length_sha_block)

lemma nibble_lower_hex: "is_lower_hex (nibble n)"
proof -
  have "0 \<le> n mod 16" "n mod 16 < 16" by auto
  then show ?thesis by (auto simp: nibble_def class_defs byte_def)
qed

lemma sha256_plain: "plain_sha256 (sha256 s)"
proof -
  have "length (concat (map word_hex ws)) = 8 * length ws" for ws
    by (induction ws) (simp_all add: word_hex_def)
  then show ?thesis
    by (auto simp: plain_sha256_def sha256_def sha_words_def Let_def length_sha_blocks
        initial_hash_def list_all_iff word_hex_def nibble_lower_hex)
qed

lemma length_sha256 [simp]: "length (sha256 s) = 64"
  using sha256_plain [of s] by (simp add: plain_sha256_def)

lemma sha256_lower [simp]: "to_lower (sha256 s) = sha256 s"
  using sha256_plain [of s]
  by (auto simp: plain_sha256_def to_lower_id_iff list_all_iff lower_hex_iff)

lemma sha256_valid [simp]: "valid_sha256 (sha256 s)"
  by (rule plain_sha256_valid [OF sha256_plain])

end
