(* ===== verification/Udon_Report.thy ===== *)
theory Udon_Report
  imports Report_V5 Wire Digest
begin

text \<open>
  Package \<^verbatim>\<open>udonreport\<close>, the decoders: \<^verbatim>\<open>DecodeV5\<close> and \<^verbatim>\<open>ObserveV5\<close> on top of the v5
  validator, and \<^verbatim>\<open>Decode\<close> for the report versions 2, 3 and 4 with the closed sets of
  failure codes.
\<close>

subsection \<open>Report v5\<close>

text \<open>The struct tags, in field order.\<close>

definition step_v5_fields :: gofields where
  "step_v5_fields =
     [(''step_id'', False, GString), (''operation_id'', False, GString),
      (''invocation_id'', False, GString), (''outcome'', False, GString),
      (''started_at'', True, GString), (''finished_at'', True, GString),
      (''error_code'', True, GString)]"

definition report_v5_fields :: gofields where
  "report_v5_fields =
     [(''version'', False, GString), (''run_id'', False, GString),
      (''workflow_id'', False, GString), (''workflow_digest'', False, GString),
      (''inventory_complete'', False, GBool), (''status'', False, GString),
      (''started_at'', False, GString), (''finished_at'', True, GString),
      (''error_code'', True, GString), (''steps'', False, GSlice (GStruct step_v5_fields))]"

definition step_of_json :: "json \<Rightarrow> step_v5" where
  "step_of_json j =
     (let f = (\<lambda>name. str_of (field_value step_v5_fields name j))
      in \<lparr>step_id = f ''step_id'', operation_id = f ''operation_id'',
          invocation_id = f ''invocation_id'', outcome = f ''outcome'',
          step_started = f ''started_at'', step_finished = f ''finished_at'',
          step_error = f ''error_code''\<rparr>)"

definition report_of_json :: "json \<Rightarrow> report_v5" where
  "report_of_json j =
     (let v = (\<lambda>name. field_value report_v5_fields name j); f = (\<lambda>name. str_of (v name))
      in \<lparr>r5_version = f ''version'', r5_run_id = f ''run_id'',
          r5_workflow_id = f ''workflow_id'', r5_workflow_digest = f ''workflow_digest'',
          r5_inventory_complete = bool_of (v ''inventory_complete''), r5_status = f ''status'',
          r5_started_at = f ''started_at'', r5_finished_at = f ''finished_at'',
          r5_error_code = f ''error_code'',
          r5_steps = map step_of_json (elements (v ''steps''))\<rparr>)"

datatype decode_v5_error =
    TooLarge
  | InvalidJson wire_error
  | InvalidField
  | InvalidSteps
  | UnexpectedTerminal
  | UnexpectedInvocationField
  | InvalidStepField
  | Rejected v5_error

text \<open>The canonical names only, and no null.\<close>

definition closed_members :: "gofields \<Rightarrow> json \<Rightarrow> bool" where
  "closed_members fs j =
     list_all (\<lambda>(k, v). k \<in> set (map fst fs) \<and> v \<noteq> JNull) (members j)"

definition has_member :: "bytes \<Rightarrow> json \<Rightarrow> bool" where
  "has_member k j = (raw_member k j \<noteq> None)"

definition terminal_field :: "report_v5 \<Rightarrow> json \<Rightarrow> bool" where
  "terminal_field r j =
     (r5_status r = ''incomplete'' \<and> (has_member ''finished_at'' j \<or> has_member ''error_code'' j)
      \<or> r5_status r = ''success'' \<and> has_member ''error_code'' j)"

definition invocation_field :: "bytes \<Rightarrow> json \<Rightarrow> bool" where
  "invocation_field out j =
     (out = ''not_started''
        \<and> (has_member ''started_at'' j \<or> has_member ''finished_at'' j \<or> has_member ''error_code'' j)
      \<or> out = ''unknown'' \<and> (has_member ''finished_at'' j \<or> has_member ''error_code'' j)
      \<or> out = ''succeeded'' \<and> has_member ''error_code'' j)"

text \<open>The loop over the raw steps beside the decoded ones.\<close>

fun check_raw_steps :: "step_v5 list \<Rightarrow> json list \<Rightarrow> decode_v5_error + unit" where
  "check_raw_steps (s # ss) (j # js) =
     (if invocation_field (outcome s) j then Inl UnexpectedInvocationField
      else if \<not> closed_members step_v5_fields j then Inl InvalidStepField
      else check_raw_steps ss js)"
| "check_raw_steps _ _ = Inr ()"

definition max_report_bytes :: int where
  "max_report_bytes = 262144"

definition decode_v5 :: "bytes \<Rightarrow> decode_v5_error + report_v5" where
  "decode_v5 data =
     (if max_report_bytes < int (length data) then Inl TooLarge
      else case decode_strict (GStruct report_v5_fields) data of
        Inl e \<Rightarrow> Inl (InvalidJson e)
      | Inr j \<Rightarrow>
          (let r = report_of_json j
           in if \<not> closed_members report_v5_fields j then Inl InvalidField
              else if raw_member ''steps'' j = None then Inl InvalidSteps
              else if terminal_field r j then Inl UnexpectedTerminal
              else case check_raw_steps (r5_steps r) (elements (the (raw_member ''steps'' j))) of
                Inl e \<Rightarrow> Inl e
              | Inr _ \<Rightarrow>
                  (case validate_report_v5 r of
                     Inl e \<Rightarrow> Inl (Rejected e)
                   | Inr _ \<Rightarrow> Inr r)))"

text \<open>\<^verbatim>\<open>ObserveV5\<close>: a report of the expected run becomes facts, anything else uncertainty.\<close>

fun same_invocations :: "step_v5 list \<Rightarrow> step_v5 list \<Rightarrow> bool" where
  "same_invocations (s # ss) (e # es) =
     (step_id s = step_id e \<and> operation_id s = operation_id e
      \<and> invocation_id s = invocation_id e \<and> same_invocations ss es)"
| "same_invocations _ _ = True"

definition observe_v5 :: "inventory_v5 \<Rightarrow> bytes \<Rightarrow> observation_v5" where
  "observe_v5 i data =
     (case validate_inventory_v5 i of
        Inl _ \<Rightarrow> unknown_v5 i ''invalid''
      | Inr _ \<Rightarrow>
          (case decode_v5 data of
             Inl _ \<Rightarrow> unknown_v5 i ''invalid''
           | Inr r \<Rightarrow>
               if r5_run_id r \<noteq> inv_run_id i \<or> r5_workflow_id r \<noteq> inv_workflow_id i
                  \<or> r5_workflow_digest r \<noteq> inv_workflow_digest i
                  \<or> length (r5_steps r) \<noteq> length (inv_steps i)
                 then unknown_v5 i ''mismatched''
               else if \<not> same_invocations (r5_steps r) (inv_steps i)
                 then unknown_v5 i ''mismatched''
               else \<lparr>obs_report_version = version_v5, obs_run_id = inv_run_id i,
                      obs_workflow_id = inv_workflow_id i,
                      obs_workflow_digest = inv_workflow_digest i, obs_state = ''validated'',
                      obs_inventory_complete = True, obs_report_status = r5_status r,
                      obs_started_at = r5_started_at r, obs_finished_at = r5_finished_at r,
                      obs_error_code = r5_error_code r, obs_steps = r5_steps r\<rparr>))"

lemma decode_v5_accepted:
  "decode_v5 data = Inr r \<Longrightarrow> validate_report_v5 r = Inr ()"
  by (auto simp: decode_v5_def Let_def split: if_splits sum.splits)

lemma same_invocations_iff:
  "length ss = length es \<Longrightarrow> same_invocations ss es \<longleftrightarrow>
     map (\<lambda>s. (step_id s, operation_id s, invocation_id s)) ss
     = map (\<lambda>s. (step_id s, operation_id s, invocation_id s)) es"
  by (induction ss es rule: list_induct2) auto

subsection \<open>What an observation states\<close>

definition step_ids :: "step_v5 \<Rightarrow> bytes \<times> bytes \<times> bytes" where
  "step_ids s = (step_id s, operation_id s, invocation_id s)"

definition blank_step :: "bytes \<times> bytes \<times> bytes \<Rightarrow> step_v5" where
  "blank_step k =
     \<lparr>step_id = fst k, operation_id = fst (snd k), invocation_id = snd (snd k),
      outcome = ''not_started'', step_started = [], step_finished = [], step_error = []\<rparr>"

lemma observation_inventory_steps:
  "inv_steps (observation_inventory o5) = map (\<lambda>s. blank_step (step_ids s)) (obs_steps o5)"
  by (simp add: observation_inventory_def blank_step_def step_ids_def)

lemma inventory_steps_blank:
  assumes "validate_inventory_v5 i = Inr ()"
  shows "map (\<lambda>s. blank_step (step_ids s)) (inv_steps i) = inv_steps i"
proof (rule map_idI)
  fix s
  assume "s \<in> set (inv_steps i)"
  with assms show "blank_step (step_ids s) = s"
    by (intro step_v5.equality)
      (auto simp: inventory_accepted_iff step_fields_ok_def unstarted_body_ok blank_step_def step_ids_def)
qed

lemma observation_inventory_of_run:
  assumes "validate_inventory_v5 i = Inr ()" and "map step_ids ss = map step_ids (inv_steps i)"
  shows "map (\<lambda>s. blank_step (step_ids s)) ss = inv_steps i"
proof -
  have "map (\<lambda>s. blank_step (step_ids s)) ss = map blank_step (map step_ids ss)"
    by (simp add: comp_def)
  also have "\<dots> = map (\<lambda>s. blank_step (step_ids s)) (inv_steps i)"
    by (simp only: assms(2)) (simp add: comp_def)
  finally show ?thesis by (simp only: inventory_steps_blank [OF assms(1)])
qed

definition observed_run :: "report_v5 \<Rightarrow> observation_v5" where
  "observed_run r =
     \<lparr>obs_report_version = version_v5, obs_run_id = r5_run_id r,
      obs_workflow_id = r5_workflow_id r, obs_workflow_digest = r5_workflow_digest r,
      obs_state = ''validated'', obs_inventory_complete = True, obs_report_status = r5_status r,
      obs_started_at = r5_started_at r, obs_finished_at = r5_finished_at r,
      obs_error_code = r5_error_code r, obs_steps = r5_steps r\<rparr>"

text \<open>A report is of the run that an inventory expects.\<close>

definition same_run :: "inventory_v5 \<Rightarrow> report_v5 \<Rightarrow> bool" where
  "same_run i r =
     (r5_run_id r = inv_run_id i \<and> r5_workflow_id r = inv_workflow_id i
      \<and> r5_workflow_digest r = inv_workflow_digest i
      \<and> map step_ids (r5_steps r) = map step_ids (inv_steps i))"

lemma observe_v5_eq:
  "observe_v5 i data =
     (if validate_inventory_v5 i \<noteq> Inr () then unknown_v5 i ''invalid''
      else case decode_v5 data of
        Inl _ \<Rightarrow> unknown_v5 i ''invalid''
      | Inr r \<Rightarrow> if same_run i r then observed_run r else unknown_v5 i ''mismatched'')"
proof (cases "validate_inventory_v5 i")
  case (Inr u)
  show ?thesis
  proof (cases "decode_v5 data")
    case r: (Inr r)
    have "map step_ids (r5_steps r) = map step_ids (inv_steps i) \<longleftrightarrow>
        length (r5_steps r) = length (inv_steps i) \<and> same_invocations (r5_steps r) (inv_steps i)"
      using same_invocations_iff [of "r5_steps r" "inv_steps i"]
      by (auto simp: step_ids_def [abs_def] dest: map_eq_imp_length_eq)
    then show ?thesis
      using Inr r by (simp add: observe_v5_def same_run_def observed_run_def)
  qed (use Inr in \<open>simp add: observe_v5_def\<close>)
qed (simp add: observe_v5_def)

lemma observed_run_accepted:
  assumes "validate_inventory_v5 i = Inr ()" "same_run i r" "validate_report_v5 r = Inr ()"
  shows "observation_inventory (observed_run r) = i"
    and "observation_report (observed_run r) = r"
    and "validate_observation_v5 (observed_run r) = Inr ()"
proof -
  show inv: "observation_inventory (observed_run r) = i"
    using assms observation_inventory_of_run [of i "r5_steps r"]
    by (intro inventory_v5.equality)
      (simp_all add: observation_inventory_steps same_run_def,
        simp_all add: observation_inventory_def observed_run_def)
  show rep: "observation_report (observed_run r) = r"
    using assms(3) by (intro report_v5.equality)
      (simp_all add: observation_report_def observed_run_def validate_report_v5_iff report_header_ok_def)
  show "validate_observation_v5 (observed_run r) = Inr ()"
    unfolding validate_observation_v5_def inv rep using assms by (simp add: observed_run_def)
qed

text \<open>
  C13. Every observation of a run against a valid inventory is itself valid, whatever bytes the
  executor left as its report.
\<close>

theorem observe_v5_valid:
  assumes "validate_inventory_v5 i = Inr ()"
  shows "validate_observation_v5 (observe_v5 i data) = Inr ()"
  using assms decode_v5_accepted observed_run_accepted(3) unknown_observation_accepted
  by (auto simp: observe_v5_eq split: sum.splits)

definition sample_inventory :: inventory_v5 where
  "sample_inventory =
     \<lparr>inv_run_id = ''run-1'', inv_workflow_id = ''book'',
      inv_workflow_digest = ''sha256:'' @ replicate 64 CHR ''a'',
      inv_steps =
        [\<lparr>step_id = ''open'', operation_id = ''page.open'', invocation_id = ''open'',
          outcome = ''not_started'', step_started = [], step_finished = [], step_error = []\<rparr>,
         \<lparr>step_id = ''send'', operation_id = ''form.send'', invocation_id = ''send'',
          outcome = ''not_started'', step_started = [], step_finished = [], step_error = []\<rparr>]\<rparr>"

lemma sample_inventory_valid: "validate_inventory_v5 sample_inventory = Inr ()"
  by code_simp

theorem observe_v5_valid_witness:
  "validate_observation_v5 (observe_v5 sample_inventory ''{}'') = Inr ()"
  by (rule observe_v5_valid [OF sample_inventory_valid])

text \<open>
  C14. Facts are observed exactly when the inventory is valid and the bytes decode to a report
  of the very run, workflow, digest and invocations the inventory lists. Such a report is valid,
  and the observation then says what it says: its status, its instants, its error code and its
  steps. A report of another run is a mismatch, anything else is invalid; in both cases every step
  of the inventory is unknown and nothing of the report is kept.
\<close>

theorem observe_v5_facts:
  "(obs_state (observe_v5 i data) = ''validated'' \<longleftrightarrow>
      (\<exists>r. validate_inventory_v5 i = Inr () \<and> decode_v5 data = Inr r \<and> same_run i r))
   \<and> (\<forall>r. validate_inventory_v5 i = Inr () \<and> decode_v5 data = Inr r \<and> same_run i r \<longrightarrow>
        validate_report_v5 r = Inr ()
        \<and> observe_v5 i data =
            \<lparr>obs_report_version = version_v5, obs_run_id = inv_run_id i,
             obs_workflow_id = inv_workflow_id i, obs_workflow_digest = inv_workflow_digest i,
             obs_state = ''validated'', obs_inventory_complete = True,
             obs_report_status = r5_status r, obs_started_at = r5_started_at r,
             obs_finished_at = r5_finished_at r, obs_error_code = r5_error_code r,
             obs_steps = r5_steps r\<rparr>)
   \<and> (observe_v5 i data = unknown_v5 i ''mismatched'' \<longleftrightarrow>
        (\<exists>r. validate_inventory_v5 i = Inr () \<and> decode_v5 data = Inr r \<and> \<not> same_run i r))
   \<and> (observe_v5 i data = unknown_v5 i ''invalid'' \<longleftrightarrow>
        validate_inventory_v5 i \<noteq> Inr () \<or> (\<exists>e. decode_v5 data = Inl e))"
proof -
  note defs = observed_run_def unknown_v5_def
  have "obs_state (observe_v5 i data) = ''validated'' \<longleftrightarrow>
      (\<exists>r. validate_inventory_v5 i = Inr () \<and> decode_v5 data = Inr r \<and> same_run i r)"
    by (simp add: observe_v5_eq defs split: sum.split)
  moreover have "\<forall>r. validate_inventory_v5 i = Inr () \<and> decode_v5 data = Inr r \<and> same_run i r \<longrightarrow>
      validate_report_v5 r = Inr () \<and> observe_v5 i data = observed_run r"
    using decode_v5_accepted [of data] by (auto simp: observe_v5_eq)
  moreover have "observe_v5 i data = unknown_v5 i ''mismatched'' \<longleftrightarrow>
      (\<exists>r. validate_inventory_v5 i = Inr () \<and> decode_v5 data = Inr r \<and> \<not> same_run i r)"
    by (simp add: observe_v5_eq defs split: sum.split)
  moreover have "observe_v5 i data = unknown_v5 i ''invalid'' \<longleftrightarrow>
      validate_inventory_v5 i \<noteq> Inr () \<or> (\<exists>e. decode_v5 data = Inl e)"
    by (simp add: observe_v5_eq defs split: sum.split)
  ultimately show ?thesis by (simp add: observed_run_def same_run_def)
qed

subsection \<open>Reports v2, v3 and v4\<close>

definition failure_codes :: "bytes list" where
  "failure_codes =
     [''approval_required'', ''invalid_parameters'', ''mfa_timeout'', ''mfa_denied'',
      ''credentials_invalid'', ''session_expired'', ''driver_error'', ''unsupported_challenge'',
      ''captcha_required'', ''origin_rejected'', ''ambiguous_locator'', ''invalid_context'',
      ''invalid_response'', ''secret_output'', ''unclassified'']"

definition registration_failure_codes :: "bytes list" where
  "registration_failure_codes =
     [''registration_indeterminate'', ''registration_retry_forbidden'',
      ''registration_checkpoint_timeout'', ''registration_checkpoint_denied'']"

definition verification_failure_codes :: "bytes list" where
  "verification_failure_codes =
     [''verification_unsupported'', ''verification_not_ready'', ''verification_expired'',
      ''verification_failed'', ''verification_timeout'', ''verification_policy'',
      ''verification_budget'']"

definition valid_failure_code :: "bytes \<Rightarrow> bool" where
  "valid_failure_code code =
     (trim_space code \<in> set failure_codes \<or> trim_space code \<in> set registration_failure_codes
      \<or> trim_space code \<in> set verification_failure_codes)"

record credential_source =
  cs_binding :: bytes
  cs_source :: bytes

record report =
  rp_version :: bytes
  rp_status :: bytes
  rp_started_at :: bytes
  rp_finished_at :: bytes
  rp_workflow_path :: bytes
  rp_workflow_format :: bytes
  rp_workdir :: bytes
  rp_output_path :: bytes
  rp_output_digest :: bytes
  rp_error_code :: bytes
  rp_error_summary :: bytes
  rp_credential_sources :: "credential_source list"

definition version_v2 :: bytes where "version_v2 = ''udon.execution-report.v2''"
definition version_v3 :: bytes where "version_v3 = ''udon.execution-report.v3''"
definition version_v4 :: bytes where "version_v4 = ''udon.execution-report.v4''"

definition source_fields :: gofields where
  "source_fields = [(''binding'', False, GString), (''source'', False, GString)]"

definition report_fields :: gofields where
  "report_fields =
     [(''version'', False, GString), (''status'', False, GString), (''started_at'', False, GString),
      (''finished_at'', False, GString), (''workflow_path'', False, GString),
      (''workflow_format'', False, GString), (''workdir'', False, GString),
      (''output_path'', True, GString), (''output_digest'', True, GString),
      (''error_code'', True, GString), (''error_summary'', True, GString),
      (''credential_sources'', True, GSlice (GStruct source_fields))]"

definition legacy_report_of_json :: "json \<Rightarrow> report" where
  "legacy_report_of_json j =
     (let f = (\<lambda>name. str_of (field_value report_fields name j))
      in \<lparr>rp_version = f ''version'', rp_status = f ''status'', rp_started_at = f ''started_at'',
          rp_finished_at = f ''finished_at'', rp_workflow_path = f ''workflow_path'',
          rp_workflow_format = f ''workflow_format'', rp_workdir = f ''workdir'',
          rp_output_path = f ''output_path'', rp_output_digest = f ''output_digest'',
          rp_error_code = f ''error_code'', rp_error_summary = f ''error_summary'',
          rp_credential_sources =
            map (\<lambda>e. \<lparr>cs_binding = str_of (field_value source_fields ''binding'' e),
                       cs_source = str_of (field_value source_fields ''source'' e)\<rparr>)
              (elements (field_value report_fields ''credential_sources'' j))\<rparr>)"

datatype report_error =
    ReportJson wire_error
  | UnsupportedVersion
  | SourcesNotArray
  | SourcesEntryShape
  | SourcesEntryEmpty
  | BadStatus
  | BadStarted
  | BadFinished
  | FinishBeforeStart
  | MissingField
  | BadOutputDigest
  | SuccessWithError
  | OpenErrorCode
  | MissingSummary

text \<open>The loop over the raw members, which reacts to the credential sources only.\<close>

definition sources_entry_ok :: "json \<Rightarrow> bool" where
  "sources_entry_ok e =
     (length (members e) = 2 \<and> has_member ''binding'' e \<and> has_member ''source'' e)"

fun check_sources :: "report \<Rightarrow> (bytes \<times> json) list \<Rightarrow> report_error + unit" where
  "check_sources r [] = Inr ()"
| "check_sources r ((k, v) # ms) =
     (if fold_key k \<noteq> ''credential_sources'' then check_sources r ms
      else if k \<noteq> ''credential_sources'' \<or> rp_version r = version_v2 \<or> v = JNull
        then Inl SourcesNotArray
      else if \<not> list_all sources_entry_ok (elements v) then Inl SourcesEntryShape
      else if list_ex (\<lambda>s. cs_binding s = [] \<or> cs_source s = []) (rp_credential_sources r)
        then Inl SourcesEntryEmpty
      else check_sources r ms)"

definition output_digest_ok :: "bytes \<Rightarrow> bool" where
  "output_digest_ok d =
     (case cut_at CHR '':'' d of
        (algorithm, value, ok) \<Rightarrow>
          ok \<and> algorithm = ''sha256'' \<and> value = to_lower value \<and> valid_sha256 value)"

definition closed_error_code :: "report \<Rightarrow> bool" where
  "closed_error_code r =
     (rp_error_code r \<in> set failure_codes
      \<or> (rp_version r = version_v3 \<or> rp_version r = version_v4)
        \<and> rp_error_code r \<in> set registration_failure_codes
      \<or> rp_version r = version_v4 \<and> rp_error_code r \<in> set verification_failure_codes)"

definition check_outcome :: "report \<Rightarrow> report_error + unit" where
  "check_outcome r =
     (if rp_status r = ''success'' then
        fail_if (rp_error_code r \<noteq> [] \<or> rp_error_summary r \<noteq> []) SuccessWithError
      else first_error
        [fail_if (\<not> closed_error_code r) OpenErrorCode,
         fail_if (trim_space (rp_error_summary r) = []) MissingSummary])"

definition check_times :: "report \<Rightarrow> report_error + unit" where
  "check_times r =
     (case parse_instant (trim_space (rp_started_at r)) of
        None \<Rightarrow> Inl BadStarted
      | Some started \<Rightarrow>
          (case parse_instant (trim_space (rp_finished_at r)) of
             None \<Rightarrow> Inl BadFinished
           | Some finished \<Rightarrow> fail_if (finished < started) FinishBeforeStart))"

definition check_report :: "report \<Rightarrow> json \<Rightarrow> report_error + unit" where
  "check_report r j =
     first_error
       [fail_if (rp_version r \<notin> set [version_v2, version_v3, version_v4]) UnsupportedVersion,
        check_sources r (members j),
        fail_if (rp_status r \<noteq> ''success'' \<and> rp_status r \<noteq> ''error'') BadStatus,
        check_times r,
        fail_if (list_ex (\<lambda>f. trim_space f = [])
                   [rp_workflow_path r, rp_workflow_format r, rp_workdir r]) MissingField,
        fail_if (rp_output_digest r \<noteq> [] \<and> \<not> output_digest_ok (rp_output_digest r)) BadOutputDigest,
        check_outcome r]"

definition decode_report :: "bytes \<Rightarrow> report_error + report" where
  "decode_report data =
     (case decode_strict (GStruct report_fields) data of
        Inl e \<Rightarrow> Inl (ReportJson e)
      | Inr j \<Rightarrow>
          (let r = legacy_report_of_json j
           in case check_report r j of Inl e \<Rightarrow> Inl e | Inr _ \<Rightarrow> Inr r))"

definition failure_code :: "bytes \<Rightarrow> bytes" where
  "failure_code data =
     (case decode_report data of
        Inl _ \<Rightarrow> ''unclassified''
      | Inr r \<Rightarrow>
          if rp_status r \<noteq> ''error'' \<or> \<not> valid_failure_code (rp_error_code r)
          then ''unclassified'' else rp_error_code r)"

text \<open>
  C15. Whatever the bytes of a report are, the failure code read from them is one of the closed
  codes, and a code other than the unclassified one comes from an accepted error report whose
  version knows that code.
\<close>

theorem failure_code_closed:
  "failure_code data = ''unclassified''
   \<or> (\<exists>r. decode_report data = Inr r \<and> rp_status r = ''error'' \<and> closed_error_code r
          \<and> failure_code data = rp_error_code r)"
proof (cases "decode_report data")
  case (Inr r)
  then obtain j where "check_report r j = Inr ()"
    by (auto simp: decode_report_def Let_def split: sum.splits)
  then have "check_outcome r = Inr ()"
    unfolding check_report_def accepts_unit_iff [symmetric] by simp
  then have "rp_status r = ''error'' \<Longrightarrow> closed_error_code r"
    unfolding accepts_unit_iff [symmetric] by (simp add: check_outcome_def)
  with Inr show ?thesis by (auto simp: failure_code_def)
qed (simp add: failure_code_def)

end
