(* ===== verification/Go_Url.thy ===== *)
theory Go_Url
  imports Go_Json
begin

text \<open>
  \<^verbatim>\<open>net/url.Parse\<close> and \<^verbatim>\<open>net.ParseIP\<close> with its canonical printing, as the checks on origins
  use them. An address is its eight 16-bit groups; an IPv4 address is mapped into the last two.
\<close>

subsection \<open>Addresses\<close>

definition dec_digits :: "int \<Rightarrow> bytes" where
  "dec_digits n =
     (if n < 10 then [char_of (48 + n)]
      else if n < 100 then [char_of (48 + n div 10), char_of (48 + n mod 10)]
      else [char_of (48 + n div 100), char_of (48 + n div 10 mod 10), char_of (48 + n mod 10)])"

fun split_at :: "char \<Rightarrow> bytes \<Rightarrow> bytes list" where
  "split_at sep [] = [[]]"
| "split_at sep (c # s) =
     (if c = sep then [] # split_at sep s
      else case split_at sep s of [] \<Rightarrow> [[c]] | f # fs \<Rightarrow> (c # f) # fs)"

definition dec_value :: "bytes \<Rightarrow> int" where
  "dec_value ds = foldl (\<lambda>n d. 10 * n + (byte d - 48)) 0 ds"

text \<open>A field of a dotted address: no leading zero, at most 255.\<close>

definition ipv4_field :: "bytes \<Rightarrow> bool" where
  "ipv4_field f =
     (f \<noteq> [] \<and> list_all is_digit f \<and> (hd f = CHR ''0'' \<longrightarrow> length f = 1) \<and> dec_value f \<le> 255)"

definition parse_ipv4 :: "bytes \<Rightarrow> int list option" where
  "parse_ipv4 s =
     (let fs = split_at CHR ''.'' s
      in if length fs = 4 \<and> list_all ipv4_field fs then Some (map dec_value fs) else None)"

definition hex_num :: "bytes \<Rightarrow> int" where
  "hex_num ds = foldl (\<lambda>n d. 16 * n + hex_value d) 0 ds"

text \<open>
  The loop of the IPv6 parser: the groups so far and the position of the double colon. The
  text shrinks with every group.
\<close>

function ipv6_groups :: "int list \<Rightarrow> nat option \<Rightarrow> bytes \<Rightarrow> (int list \<times> nat option) option" where
  "ipv6_groups gs ell s =
     (if 8 \<le> length gs then (if s = [] then Some (gs, ell) else None)
      else
        (let ds = takeWhile is_hex s; r = drop (length ds) s
         in if ds = [] \<or> 4 < length ds then None
            else if r \<noteq> [] \<and> hd r = CHR ''.'' then
              (if (ell = None \<and> length gs \<noteq> 6) \<or> 6 < length gs then None
               else case parse_ipv4 s of
                 Some [a, b, c, d] \<Rightarrow> Some (gs @ [a * 256 + b, c * 256 + d], ell)
               | _ \<Rightarrow> None)
            else if r = [] then Some (gs @ [hex_num ds], ell)
            else if hd r \<noteq> CHR '':'' \<or> length r = 1 then None
            else if r ! 1 = CHR '':'' then
              (if ell \<noteq> None then None
               else if length r = 2 then Some (gs @ [hex_num ds], Some (Suc (length gs)))
               else ipv6_groups (gs @ [hex_num ds]) (Some (Suc (length gs))) (drop 2 r))
            else ipv6_groups (gs @ [hex_num ds]) ell (drop 1 r)))"
  by pat_completeness auto
termination
  by (relation "measure (\<lambda>(gs, ell, s). length s)") (auto simp: Let_def)

declare ipv6_groups.simps [simp del]

definition expand_groups :: "int list \<times> nat option \<Rightarrow> int list option" where
  "expand_groups p =
     (case p of (gs, ell) \<Rightarrow>
        (case ell of
           None \<Rightarrow> if length gs = 8 then Some gs else None
         | Some k \<Rightarrow>
             if length gs < 8 then Some (take k gs @ replicate (8 - length gs) 0 @ drop k gs)
             else None))"

text \<open>The address of a text without a zone, and the zone behind a percent sign.\<close>

definition parse_ipv6 :: "bytes \<Rightarrow> (int list \<times> bytes) option" where
  "parse_ipv6 s0 =
     (case cut_at CHR ''%'' s0 of (s, zone, found) \<Rightarrow>
        if found \<and> zone = [] then None
        else
          map_option (\<lambda>gs. (gs, zone))
            (if prefix ''::'' s then
               (if length s = 2 then Some (replicate 8 0)
                else Option.bind (ipv6_groups [] (Some 0) (drop 2 s)) expand_groups)
             else Option.bind (ipv6_groups [] None s) expand_groups))"

definition mapped_v4 :: "int list \<Rightarrow> int list" where
  "mapped_v4 q = [0, 0, 0, 0, 0, 65535, q ! 0 * 256 + q ! 1, q ! 2 * 256 + q ! 3]"

text \<open>\<^verbatim>\<open>netip.ParseAddr\<close>: the first of the three marks decides the form.\<close>

datatype addr = V4 "int list" | V6 "int list" bytes

definition parse_addr :: "bytes \<Rightarrow> addr option" where
  "parse_addr s =
     (case filter (\<lambda>c. c \<in> set ''.:%'') s of
        [] \<Rightarrow> None
      | c # _ \<Rightarrow>
          if c = CHR ''.'' then map_option V4 (parse_ipv4 s)
          else if c = CHR '':'' then map_option (\<lambda>(gs, z). V6 gs z) (parse_ipv6 s)
          else None)"

definition parse_ip :: "bytes \<Rightarrow> int list option" where
  "parse_ip s =
     (case parse_addr s of
        Some (V4 q) \<Rightarrow> Some (mapped_v4 q)
      | Some (V6 gs []) \<Rightarrow> Some gs
      | _ \<Rightarrow> None)"

definition is_v4 :: "int list \<Rightarrow> bool" where
  "is_v4 gs = (take 6 gs = [0, 0, 0, 0, 0, 65535])"

definition is_loopback :: "int list \<Rightarrow> bool" where
  "is_loopback gs =
     (if is_v4 gs then gs ! 6 div 256 = 127 else gs = [0, 0, 0, 0, 0, 0, 0, 1])"

definition hex_group :: "int \<Rightarrow> bytes" where
  "hex_group n =
     (let ds = map (\<lambda>k. hex_digit (n div 16 ^ k mod 16)) [3, 2, 1, 0];
          r = dropWhile (\<lambda>c. c = CHR ''0'') ds
      in if r = [] then ''0'' else r)"

text \<open>The longest run of at least two zero groups, the first of them.\<close>

fun zero_run :: "int list \<Rightarrow> nat \<Rightarrow> nat \<times> nat \<Rightarrow> nat \<times> nat" where
  "zero_run [] i best = best"
| "zero_run (g # gs) i best =
     (let l = length (takeWhile (\<lambda>x. x = 0) (g # gs))
      in zero_run gs (Suc i) (if 2 \<le> l \<and> snd best < l then (i, l) else best))"

definition print_ip :: "int list \<Rightarrow> bytes" where
  "print_ip gs =
     (if is_v4 gs then
        join ''.'' (map dec_digits
          [gs ! 6 div 256 mod 256, gs ! 6 mod 256, gs ! 7 div 256 mod 256, gs ! 7 mod 256])
      else case zero_run gs 0 (0, 0) of
        (i, l) \<Rightarrow>
          if l = 0 then join '':'' (map hex_group gs)
          else join '':'' (map hex_group (take i gs)) @ ''::''
               @ join '':'' (map hex_group (drop (i + l) gs)))"

subsection \<open>Percent escapes\<close>

fun unescape :: "(bytes \<Rightarrow> bool) \<Rightarrow> (char \<Rightarrow> bool) \<Rightarrow> bytes \<Rightarrow> bytes option" where
  "unescape ok_escape ok_char [] = Some []"
| "unescape ok_escape ok_char (c # s) =
     (if c = CHR ''%'' then
        (case s of
           a # b # s' \<Rightarrow>
             if is_hex a \<and> is_hex b \<and> ok_escape [a, b]
             then map_option (Cons (char_of (16 * hex_value a + hex_value b)))
                    (unescape ok_escape ok_char s')
             else None
         | _ \<Rightarrow> None)
      else if byte c < 128 \<and> \<not> ok_char c then None
      else map_option (Cons c) (unescape ok_escape ok_char s))"

definition host_char :: "char \<Rightarrow> bool" where
  "host_char c =
     (is_alnum c \<or> c \<in> set ''-_.~!$&()*+,;=:[]<>'' \<or> byte c = 39 \<or> byte c = 34)"

definition unescape_path :: "bytes \<Rightarrow> bytes option" where
  "unescape_path s = unescape (\<lambda>_. True) (\<lambda>_. True) s"

definition unescape_host :: "bytes \<Rightarrow> bytes option" where
  "unescape_host s = unescape (\<lambda>h. 8 \<le> hex_value (hd h) \<or> h = ''25'') host_char s"

definition zone_escape :: "bytes \<Rightarrow> bool" where
  "zone_escape h =
     (let v = 16 * hex_value (h ! 0) + hex_value (h ! 1)
      in h = ''25'' \<or> v = 32 \<or> 128 \<le> v \<or> host_char (char_of v))"

definition unescape_zone :: "bytes \<Rightarrow> bytes option" where
  "unescape_zone s = unescape zone_escape host_char s"

subsection \<open>The URL parser\<close>

record url =
  u_scheme :: bytes
  u_user :: bool
  u_host :: bytes
  u_path :: bytes
  u_raw_query :: bytes
  u_force_query :: bool
  u_fragment :: bytes

definition scheme_tail :: "char \<Rightarrow> bool" where
  "scheme_tail c = (is_digit c \<or> c \<in> set ''+-.'')"

text \<open>\<^verbatim>\<open>getScheme\<close>: the scheme and the rest, no scheme, or an error.\<close>

fun get_scheme :: "bytes \<Rightarrow> bytes \<Rightarrow> bytes \<Rightarrow> (bytes \<times> bytes) option" where
  "get_scheme raw acc [] = Some ([], raw)"
| "get_scheme raw acc (c # s) =
     (if is_lower c \<or> is_upper c then get_scheme raw (acc @ [c]) s
      else if scheme_tail c then (if acc = [] then Some ([], raw) else get_scheme raw (acc @ [c]) s)
      else if c = CHR '':'' then (if acc = [] then None else Some (acc, s))
      else Some ([], raw))"

definition valid_optional_port :: "bytes \<Rightarrow> bool" where
  "valid_optional_port p = (p = [] \<or> hd p = CHR '':'' \<and> list_all is_digit (tl p))"

text \<open>Text before and after the last occurrence of a byte.\<close>

definition cut_last :: "char \<Rightarrow> bytes \<Rightarrow> (bytes \<times> bytes) option" where
  "cut_last c s =
     (case cut_at c (rev s) of (r, l, found) \<Rightarrow> if found then Some (rev l, rev r) else None)"

definition find_sub :: "bytes \<Rightarrow> bytes \<Rightarrow> nat option" where
  "find_sub p s = find_index (\<lambda>n. prefix p (drop n s)) [0..<Suc (length s)]"

definition bracketed_host :: "bytes \<Rightarrow> bytes option" where
  "bracketed_host h =
     (case cut_last CHR '']'' h of
        None \<Rightarrow> None
      | Some (l, port) \<Rightarrow>
          if \<not> valid_optional_port port then None
          else
            (let name = tl l;
                 plain = (case find_sub ''%25'' name of
                            None \<Rightarrow> unescape_host name
                          | Some z \<Rightarrow>
                              Option.bind (unescape_host (take z name)) (\<lambda>a.
                              Option.bind (unescape_zone (drop z name)) (\<lambda>b. Some (a @ b))))
             in Option.bind (unescape_host port) (\<lambda>p.
                Option.bind plain (\<lambda>n.
                  case parse_addr n of
                    Some (V6 gs zone) \<Rightarrow> Some (''['' @ n @ '']'' @ p)
                  | _ \<Rightarrow> None))))"

definition parse_host :: "bytes \<Rightarrow> bytes option" where
  "parse_host h =
     (case cut_last CHR ''['' h of
        Some (l, _) \<Rightarrow> if l \<noteq> [] then None else bracketed_host h
      | None \<Rightarrow>
          (case cut_at CHR '':'' h of (_, port, found) \<Rightarrow>
             if found \<and> \<not> valid_optional_port (CHR '':'' # port) then None
             else unescape_host h))"

definition userinfo_char :: "char \<Rightarrow> bool" where
  "userinfo_char c = (is_alnum c \<or> c \<in> set ''-._:~!$&()*+,;=%@'' \<or> byte c = 39)"

definition parse_authority :: "bytes \<Rightarrow> (bool \<times> bytes) option" where
  "parse_authority a =
     (case cut_last CHR ''@'' a of
        None \<Rightarrow> map_option (\<lambda>h. (False, h)) (parse_host a)
      | Some (user, h) \<Rightarrow>
          if list_all userinfo_char user \<and> unescape_path user \<noteq> None
          then map_option (\<lambda>h. (True, h)) (parse_host h) else None)"

definition ctl_byte :: "char \<Rightarrow> bool" where
  "ctl_byte c = (byte c < 32 \<or> byte c = 127)"

definition split_query :: "bytes \<Rightarrow> bytes \<times> bytes \<times> bool" where
  "split_query rest =
     (case cut_at CHR ''?'' rest of (l, q, found) \<Rightarrow>
        if found \<and> q = [] then (l, [], True) else (l, q, False))"

definition parse_hier :: "bytes \<Rightarrow> bytes \<Rightarrow> bytes \<Rightarrow> bool \<Rightarrow> url option" where
  "parse_hier scheme rest query force =
     (let no_slash = \<not> prefix ''/'' rest; blank =
        \<lparr>u_scheme = scheme, u_user = False, u_host = [], u_path = [], u_raw_query = query,
         u_force_query = force, u_fragment = []\<rparr>
      in if no_slash \<and> scheme \<noteq> [] then Some blank
         else if no_slash \<and> CHR '':'' \<in> set (fst (cut_at CHR ''/'' rest)) then None
         else if (scheme \<noteq> [] \<or> \<not> prefix ''///'' rest) \<and> prefix ''//'' rest then
           (let a = takeWhile (\<lambda>c. c \<noteq> CHR ''/'') (drop 2 rest);
                p = dropWhile (\<lambda>c. c \<noteq> CHR ''/'') (drop 2 rest)
            in Option.bind (parse_authority a) (\<lambda>(user, host).
               Option.bind (unescape_path p) (\<lambda>path.
                 Some (blank\<lparr>u_user := user, u_host := host, u_path := path\<rparr>))))
         else map_option (\<lambda>path. blank\<lparr>u_path := path\<rparr>) (unescape_path rest))"

definition parse_url :: "bytes \<Rightarrow> url option" where
  "parse_url raw =
     (case cut_at CHR ''#'' raw of (u, frag, _) \<Rightarrow>
        if list_ex ctl_byte u then None
        else
          Option.bind
            (if u = ''*'' then
               Some \<lparr>u_scheme = [], u_user = False, u_host = [], u_path = ''*'', u_raw_query = [],
                     u_force_query = False, u_fragment = []\<rparr>
             else
               Option.bind (get_scheme u [] u) (\<lambda>(scheme, rest).
                 case split_query rest of (r, query, force) \<Rightarrow>
                   parse_hier (to_lower scheme) r query force))
            (\<lambda>v. map_option (\<lambda>f. v\<lparr>u_fragment := f\<rparr>) (unescape_path frag)))"

text \<open>\<^verbatim>\<open>URL.Hostname\<close> and \<^verbatim>\<open>URL.Port\<close>.\<close>

definition split_host_port :: "bytes \<Rightarrow> bytes \<times> bytes" where
  "split_host_port hp =
     (let (host, port) =
            (case cut_last CHR '':'' hp of
               Some (l, r) \<Rightarrow> if valid_optional_port (CHR '':'' # r) then (l, r) else (hp, [])
             | None \<Rightarrow> (hp, []))
      in if prefix ''['' host \<and> suffix '']'' host \<and> 2 \<le> length host
         then (butlast (tl host), port) else (host, port))"

definition hostname :: "url \<Rightarrow> bytes" where
  "hostname u = fst (split_host_port (u_host u))"

definition url_port :: "url \<Rightarrow> bytes" where
  "url_port u = snd (split_host_port (u_host u))"

end
