(* ===== verification/Json_Text.thy ===== *)
theory Json_Text
  imports Go_Json
begin

text \<open>
  Round trip of JSON text: what the encoder prints is lexed, parsed and unquoted back to the
  same value. Hence the compact text determines the value, which is what comparing canonical
  bytes and their digests relies on.
\<close>

subsection \<open>Strings\<close>

lemma list4_cases [case_names Nil One Two Three Four]:
  obtains "s = []" | a where "s = [a]" | a b where "s = [a, b]" | a b c where "s = [a, b, c]"
  | a b c d r where "s = a # b # c # d # r"
  by (metis neq_Nil_conv)

lemma utf8_len_append: "0 < utf8_len s \<Longrightarrow> utf8_len (take (utf8_len s) s @ r) = utf8_len s"
  by (cases s rule: list4_cases) (simp_all split: if_splits)

lemma utf8_len_ascii: "utf8_len (c # s) = 1 \<longleftrightarrow> byte c < 128"
  by (auto simp: in_range_def split: list.splits)

lemma byte_char_of [simp]: "0 \<le> n \<Longrightarrow> n < 256 \<Longrightarrow> byte (char_of n) = n"
  by (simp add: byte_def)

lemma byte_inject: "byte c = byte d \<longleftrightarrow> c = d"
  by (simp add: byte_def)

lemma byte_eq_iff: "0 \<le> n \<Longrightarrow> n < 256 \<Longrightarrow> byte c = n \<longleftrightarrow> c = char_of n"
  by (auto simp: byte_inject [symmetric])

lemma hex_digit_hex: "0 \<le> n \<Longrightarrow> n < 16 \<Longrightarrow> is_hex (hex_digit n) \<and> hex_value (hex_digit n) = n"
  by (auto simp: hex_digit_def hex_value_def class_defs)


lemma in_range_high: "in_range lo hi c \<Longrightarrow> 128 \<le> lo \<Longrightarrow> 128 \<le> byte c"
  by (simp add: in_range_def)

lemma take_utf8_high: "1 < utf8_len s \<Longrightarrow> \<forall>c \<in> set (take (utf8_len s) s). 128 \<le> byte c"
  by (cases s rule: list4_cases) (auto dest!: in_range_high split: if_splits)

lemma utf8_len_high: "128 \<le> byte c \<Longrightarrow> 0 < utf8_len (c # s) \<Longrightarrow> 1 < utf8_len (c # s)"
  using utf8_len_ascii [of c s] by linarith

declare utf8_len.simps(2) [simp del]

lemma unquote_Nil [simp]: "unquote [] = []"
  by (simp add: unquote.simps)

lemma unquote_rune:
  assumes "0 < utf8_len s" "byte (hd s) \<noteq> 92"
  shows "unquote (take (utf8_len s) s @ r) = take (utf8_len s) s @ unquote r"
proof (cases s)
  case (Cons c t)
  let ?n = "utf8_len s"
  have n: "utf8_len (take ?n s @ r) = ?n" by (rule utf8_len_append [OF assms(1)])
  have len: "length (take ?n s) = ?n" using utf8_len_le [of s] by simp
  obtain m where m: "?n = Suc m" using assms(1) by (cases ?n) auto
  have piece: "take ?n s @ r = c # (take m t @ r)" using m by (simp add: Cons)
  have eq: "unquote (c # (take m t @ r)) = take ?n (take ?n s @ r) @ unquote (drop ?n (take ?n s @ r))"
    using assms n m unfolding piece Cons by (subst unquote.simps) simp
  have "take ?n (take ?n s @ r) = take ?n s" "drop ?n (take ?n s @ r) = r" using len by simp_all
  then show ?thesis using eq by (simp only: piece [symmetric])
qed (use assms in simp)

lemma unquote_escape: "byte b = 92 \<Longrightarrow> e \<noteq> CHR ''u'' \<Longrightarrow> unquote (b # e # r) = escape_value e # unquote r"
  by (subst unquote.simps) simp

lemma unquote_hex:
  "byte b = 92 \<Longrightarrow> hex4 [h1, h2, h3, h4] < 55296 \<Longrightarrow>
     unquote (b # CHR ''u'' # h1 # h2 # h3 # h4 # r) = encode_rune (hex4 [h1, h2, h3, h4]) @ unquote r"
  by (subst unquote.simps) (simp add: Let_def)

lemma hex4_low:
  "0 \<le> n \<Longrightarrow> n < 16 \<Longrightarrow> 0 \<le> m \<Longrightarrow> m < 16 \<Longrightarrow> 
    hex4 [CHR ''0'', CHR ''0'', hex_digit n, hex_digit m] = 16 * n + m"
   "0 \<le> m \<Longrightarrow> m < 16 \<Longrightarrow> hex4 [CHR ''2'', CHR ''0'', CHR ''2'', hex_digit m] = 8224 + m"
  by (simp_all add: hex4_def hex_digit_hex) (simp_all add: hex_value_def class_defs byte_def)

lemma nibbles: "0 \<le> byte c div 16" "byte c div 16 < 16" "16 * (byte c div 16) + byte c mod 16 = byte c"
  using byte_less [of c] byte_nonneg [of c] by presburger+

lemma char_of_consts:
  "(char_of (34 :: int) :: char) = CHR 0x22" "(char_of (92 :: int) :: char) = CHR 0x5C"
  "(char_of (8 :: int) :: char) = CHR 0x08" "(char_of (9 :: int) :: char) = CHR 0x09"
  "(char_of (10 :: int) :: char) = CHR 0x0A" "(char_of (12 :: int) :: char) = CHR 0x0C"
  "(char_of (13 :: int) :: char) = CHR 0x0D"
  by code_simp+

lemma byte_consts:
  "byte c = 34 \<longleftrightarrow> c = CHR 0x22" "byte c = 92 \<longleftrightarrow> c = CHR 0x5C" "byte c = 8 \<longleftrightarrow> c = CHR 0x08"
  "byte c = 9 \<longleftrightarrow> c = CHR 0x09" "byte c = 10 \<longleftrightarrow> c = CHR 0x0A" "byte c = 12 \<longleftrightarrow> c = CHR 0x0C"
  "byte c = 13 \<longleftrightarrow> c = CHR 0x0D"
  by (simp_all add: byte_eq_iff char_of_consts)

lemma encode_rune_ascii: "byte c < 128 \<Longrightarrow> encode_rune (byte c) = [c]"
  by (simp add: encode_rune_def byte_def)

lemma unquote_u00:
  assumes "byte c < 128"
  shows "unquote (CHR 0x5C # CHR ''u'' # CHR ''0'' # CHR ''0'' # hex_digit (byte c div 16)
           # hex_digit (byte c mod 16) # r) = c # unquote r"
  using assms nibbles [of c] encode_rune_ascii [OF assms]
  by (subst unquote_hex) (simp_all add: hex4_low byte_def)

lemma unquote_escape_byte:
  assumes "escape_byte html c = Some e"
  shows "unquote (e @ r) = c # unquote r"
proof -
  have esc: "unquote (CHR 0x5C # d # r) = escape_value d # unquote r" if "d \<noteq> CHR ''u''" for d
    using that by (intro unquote_escape) (simp_all add: byte_def)
  show ?thesis
  proof (cases "c \<in> set [CHR 0x22, CHR 0x5C, CHR 0x08, CHR 0x09, CHR 0x0A, CHR 0x0C, CHR 0x0D]")
    case True
    with assms show ?thesis
      by (auto simp: escape_byte_def escape_value_def byte_consts char_of_consts esc)
  next
    case False
    with assms have e: "e = CHR 0x5C # ''u00'' @ [hex_digit (byte c div 16), hex_digit (byte c mod 16)]"
      and low: "byte c < 32 \<or> c \<in> set ''<>&''"
      by (auto simp: escape_byte_def byte_consts char_of_consts split: if_splits)
    from low have "byte c < 128" by (auto simp: byte_def)
    from unquote_u00 [OF this] show ?thesis by (simp add: e)
  qed
qed

lemma utf8_valid_Cons_ascii: "byte c < 128 \<Longrightarrow> utf8_valid (c # s) \<longleftrightarrow> utf8_valid s"
  using utf8_len_ascii [of c s] by (subst utf8_valid.simps) simp

lemma utf8_valid_step:
  "utf8_valid s \<Longrightarrow> s \<noteq> [] \<Longrightarrow> 0 < utf8_len s \<and> utf8_valid (drop (utf8_len s) s)"
  by (subst (asm) utf8_valid.simps) (simp split: if_splits)

lemma quote_body_Nil [simp]: "quote_body html [] = []"
  by (simp add: quote_body.simps)

text \<open>One equation for each way the encoder goes on.\<close>

lemma quote_body_ascii:
  "byte c < 128 \<Longrightarrow>
     quote_body html (c # s) = (case escape_byte html c of Some e \<Rightarrow> e | None \<Rightarrow> [c]) @ quote_body html s"
  by (subst quote_body.simps) simp

lemma quote_body_bad:
  "128 \<le> byte c \<Longrightarrow> utf8_len (c # s) = 0 \<Longrightarrow>
     quote_body html (c # s) = [CHR 0x5C, CHR ''u'', CHR ''f'', CHR ''f'', CHR ''f'', CHR ''d''] @ quote_body html s"
  by (subst quote_body.simps) (simp add: char_of_consts)

lemma quote_body_separator:
  assumes "128 \<le> byte (hd s)" "0 < utf8_len s" "map byte (take 3 s) \<in> {[226, 128, 168], [226, 128, 169]}"
  shows "quote_body html s =
     [CHR 0x5C, CHR ''u'', CHR ''2'', CHR ''0'', CHR ''2'', hex_digit (byte (s ! 2) mod 16)]
     @ quote_body html (drop 3 s)"
proof (cases s)
  case (Cons c t)
  have "\<not> byte c < 128" "utf8_len (c # t) \<noteq> 0"
    and "map byte (take 3 (c # t)) \<in> {[226, 128, 168], [226, 128, 169]}"
    using assms unfolding Cons list.sel by linarith+
  then show ?thesis unfolding Cons
    by (subst quote_body.simps) (simp only: list.case if_False if_True char_of_consts append.simps)
qed (use assms in simp)

lemma quote_body_rune:
  assumes "128 \<le> byte (hd s)" "0 < utf8_len s" "map byte (take 3 s) \<notin> {[226, 128, 168], [226, 128, 169]}"
  shows "quote_body html s = take (utf8_len s) s @ quote_body html (drop (utf8_len s) s)"
proof (cases s)
  case (Cons c t)
  have "\<not> byte c < 128" "utf8_len (c # t) \<noteq> 0"
    and "map byte (take 3 (c # t)) \<notin> {[226, 128, 168], [226, 128, 169]}"
    using assms unfolding Cons list.sel by linarith+
  then show ?thesis unfolding Cons
    by (subst quote_body.simps) (simp only: list.case if_False if_True)
qed (use assms in simp)

lemma line_separator:
  assumes "map byte (take 3 s) \<in> {[226, 128, 168], [226, 128, 169]}"
  obtains a b c t where "s = a # b # c # t" "a = char_of (226::int)" "b = char_of (128::int)" 
    "c = char_of (168::int) \<or> c = char_of (169::int)"
    "utf8_len s = 3"
  using assms
  by (cases s rule: list4_cases) (auto simp: byte_eq_iff utf8_len.simps in_range_def)

lemma unquote_separator:
  assumes "c = char_of (168::int) \<or> c = char_of (169::int)"
  shows "unquote (CHR 0x5C # ''u202'' @ hex_digit (byte c mod 16) # r)
     = char_of (226::int) # char_of (128::int) # c # unquote r"
  using assms
  by (auto simp: unquote_hex byte_def hex4_low encode_rune_def)

lemma unquote_quote_body: "utf8_valid s \<Longrightarrow> unquote (quote_body html s) = s"
proof (induction html s rule: quote_body.induct)
  case (1 html s)
  show ?case
  proof (cases s)
    case (Cons c s')
    show ?thesis
    proof (cases "byte c < 128")
      case True
      with Cons 1 have IH: "unquote (quote_body html s') = s'"
        by (simp add: utf8_valid_Cons_ascii)
      show ?thesis
      proof (cases "escape_byte html c")
        case None
        then have "byte c \<noteq> 92" by (auto simp: escape_byte_def)
        moreover have "utf8_len (c # quote_body html s') = 1"
          using True utf8_len_ascii [of c "quote_body html s'"] by simp
        ultimately have "unquote (c # quote_body html s') = c # unquote (quote_body html s')"
          using unquote_rune [of "c # quote_body html s'" "quote_body html s'"] by simp
        with None True IH show ?thesis by (simp add: Cons quote_body_ascii)
      next
        case (Some e)
        with True IH show ?thesis
          by (simp add: Cons quote_body_ascii unquote_escape_byte)
      qed
    next
      case False
      from utf8_valid_step [OF "1.prems"] Cons
      have n: "0 < utf8_len s" "utf8_valid (drop (utf8_len s) s)" by simp_all
      show ?thesis
      proof (cases "map byte (take 3 s) \<in> {[226, 128, 168], [226, 128, 169]}")
        case True
        then obtain a b d t where s: "s = a # b # d # t" "a = char_of (226::int)" "b = char_of (128::int)" 
          "d = char_of (168::int) \<or> d = char_of (169::int)" "utf8_len s = 3"
          by (rule line_separator)
        then have "unquote (quote_body html t) = t"
          using "1.IH"(3) [OF Cons False _ True] n by simp
        moreover have "quote_body html s
            = CHR 0x5C # ''u202'' @ hex_digit (byte d mod 16) # quote_body html t"
          using quote_body_separator [of s html] s True False Cons n by simp
        ultimately show ?thesis using s by (simp only: unquote_separator)
      next
        case sep: False
        have "unquote (quote_body html (drop (utf8_len s) s)) = drop (utf8_len s) s"
          using "1.IH"(4) [OF Cons False _ sep] n by simp
        moreover have "quote_body html s
            = take (utf8_len s) s @ quote_body html (drop (utf8_len s) s)"
          using sep False Cons n by (intro quote_body_rune) auto
        moreover have "byte (hd s) \<noteq> 92" using False Cons by simp
        ultimately show ?thesis using n by (simp add: unquote_rune)
      qed
    qed
  qed simp
qed

text \<open>The printed body has no bare quote: the scanner stops at the closing one.\<close>

definition adds :: "bytes \<Rightarrow> bytes \<Rightarrow> bool" where
  "adds p s = (scan_body (p @ s) = map_option (\<lambda>(b, r). (p @ b, r)) (scan_body s))"

lemma adds_plain: "\<forall>c \<in> set p. 32 \<le> byte c \<and> byte c \<noteq> 34 \<and> byte c \<noteq> 92 \<Longrightarrow> adds p s"
  unfolding adds_def
  by (induction p) (auto simp: option.map_comp comp_def case_prod_beta' option.map_ident)

lemma adds_escape: "byte e \<in> {34, 92, 47, 98, 102, 110, 114, 116} \<Longrightarrow> adds [CHR 0x5C, e] s"
  by (auto simp: adds_def byte_def)

lemma adds_hex:
  "list_all is_hex [h1, h2, h3, h4] \<Longrightarrow> adds [CHR 0x5C, CHR ''u'', h1, h2, h3, h4] s"
  by (simp add: adds_def byte_def)

lemma hex_digit_is_hex: "is_hex (hex_digit (byte c div 16))" "is_hex (hex_digit (byte c mod 16))"
  using nibbles [of c] hex_digit_hex by simp_all

lemma hex_consts: "is_hex CHR ''0''" "is_hex CHR ''2''" "is_hex CHR ''f''" "is_hex CHR ''d''"
  by code_simp+

lemma adds_escape_byte:
  assumes "escape_byte html c = Some e"
  shows "adds e s"
proof (cases "c \<in> set [CHR 0x22, CHR 0x5C, CHR 0x08, CHR 0x09, CHR 0x0A, CHR 0x0C, CHR 0x0D]")
  case True
  with assms show ?thesis
    by (auto simp: escape_byte_def byte_consts char_of_consts intro!: adds_escape) (simp_all add: byte_def)
next
  case False
  with assms have e: "e = CHR 0x5C # ''u00'' @ [hex_digit (byte c div 16), hex_digit (byte c mod 16)]"
    by (auto simp: escape_byte_def byte_consts char_of_consts split: if_splits)
  show ?thesis using adds_hex hex_digit_is_hex hex_consts by (simp add: e)
qed

lemma scan_quote_body: "scan_body (quote_body html s @ CHR 0x22 # r) = Some (quote_body html s, r)"
proof (induction html s rule: quote_body.induct)
  case (1 html s)
  have step: "scan_body ((p @ q) @ CHR 0x22 # r) = Some (p @ q, r)"
    if "adds p (q @ CHR 0x22 # r)" "scan_body (q @ CHR 0x22 # r) = Some (q, r)" for p q
    using that by (simp add: adds_def)
  show ?case
  proof (cases s)
    case Nil
    then show ?thesis by (simp add: byte_def)
  next
    case (Cons c s')
    show ?thesis
    proof (cases "byte c < 128")
      case True
      note IH = "1.IH"(1) [OF Cons True]
      show ?thesis
      proof (cases "escape_byte html c")
        case None
        then have "adds [c] (quote_body html s' @ CHR 0x22 # r)"
          by (intro adds_plain) (auto simp: escape_byte_def split: if_splits)
        from step [OF this IH] show ?thesis
          using None True by (simp add: Cons quote_body_ascii)
      next
        case (Some e)
        from step [OF adds_escape_byte [OF Some] IH] show ?thesis
          using Some True by (simp add: Cons quote_body_ascii)
      qed
    next
      case high: False
      consider "utf8_len s = 0" | "0 < utf8_len s" "map byte (take 3 s) \<in> {[226, 128, 168], [226, 128, 169]}"
        | "0 < utf8_len s" "map byte (take 3 s) \<notin> {[226, 128, 168], [226, 128, 169]}" by auto
      then show ?thesis
      proof cases
        case 1
        have "adds [CHR 0x5C, CHR ''u'', CHR ''f'', CHR ''f'', CHR ''f'', CHR ''d''] (quote_body html s' @ CHR 0x22 # r)"
          by (rule adds_hex) (simp add: hex_consts)
        from step [OF this "1.IH"(2) [OF Cons high 1]] show ?thesis
          using 1 high by (simp add: Cons quote_body_bad)
      next
        case 2
        have "adds [CHR 0x5C, CHR ''u'', CHR ''2'', CHR ''0'', CHR ''2'', hex_digit (byte (s ! 2) mod 16)]
            (quote_body html (drop 3 s) @ CHR 0x22 # r)"
          by (rule adds_hex) (simp add: hex_consts hex_digit_is_hex)
        from step [OF this "1.IH"(3) [OF Cons high _ 2(2)]] show ?thesis
          using quote_body_separator [of s html] 2 high Cons by (simp del: append.simps)
      next
        case 3
        have "1 < utf8_len s" using utf8_len_high [of c s'] high Cons 3(1) by simp
        from take_utf8_high [OF this]
        have "adds (take (utf8_len s) s) (quote_body html (drop (utf8_len s) s) @ CHR 0x22 # r)"
          by (intro adds_plain) auto
        from step [OF this "1.IH"(4) [OF Cons high _ 3(2)]] show ?thesis
          using quote_body_rune [of s html] 3 high Cons by (simp del: append.simps)
      qed
    qed
  qed
qed

lemma ascii_text_utf8: "ascii_text s \<Longrightarrow> utf8_valid s"
  by (induction s) (auto simp: utf8_valid_Cons_ascii utf8_valid.simps [of "[]"])

subsection \<open>Numbers\<close>

definition stop :: "bytes \<Rightarrow> bool" where
  "stop r = (r = [] \<or> hd r \<in> set '',]}:'')"

definition good_number :: "bytes \<Rightarrow> bool" where
  "good_number n = (scan_number n = Some (n, []))"

definition unread :: "char set \<Rightarrow> bytes \<Rightarrow> bool" where
  "unread cs r = (r = [] \<or> hd r \<notin> cs)"

lemma digits1_iff:
  "digits1 s = Some (d, t) \<longleftrightarrow>
     s = d @ t \<and> d \<noteq> [] \<and> list_all is_digit d \<and> (t = [] \<or> \<not> is_digit (hd t))"
proof
  assume "digits1 s = Some (d, t)"
  then have "d = takeWhile is_digit s" "t = dropWhile is_digit s" "d \<noteq> []"
    by (auto simp: digits1_def split: list.splits)
  moreover have "t = [] \<or> \<not> is_digit (hd t)" unfolding \<open>t = _\<close> using hd_dropWhile by blast
  ultimately show "s = d @ t \<and> d \<noteq> [] \<and> list_all is_digit d \<and> (t = [] \<or> \<not> is_digit (hd t))"
    by (auto simp: list_all_iff dest: set_takeWhileD)
next
  assume r: "s = d @ t \<and> d \<noteq> [] \<and> list_all is_digit d \<and> (t = [] \<or> \<not> is_digit (hd t))"
  then have "takeWhile is_digit t = []" "dropWhile is_digit t = t"
    by (cases t; simp)+
  with r show "digits1 s = Some (d, t)"
    by (auto simp: digits1_def list_all_iff split: list.splits)
qed

lemma digits1_append:
  "digits1 s = Some (d, t) \<Longrightarrow> r = [] \<or> \<not> is_digit (hd r) \<Longrightarrow> digits1 (s @ r) = Some (d, t @ r)"
  by (cases t) (auto simp: digits1_iff)

lemma digits1_Nil [simp]: "digits1 [] = None"
  by (simp add: digits1_def)

lemma digits1_append_Cons:
  "digits1 (a # s) = Some (d, t) \<Longrightarrow> r = [] \<or> \<not> is_digit (hd r) \<Longrightarrow>
     digits1 (a # s @ r) = Some (d, t @ r)"
  using digits1_append [of "a # s"] by simp

lemma stop_chars: "stop r \<Longrightarrow> r = [] \<or> \<not> is_digit (hd r) \<and> hd r \<notin> set ''.eE''"
  by (auto simp: stop_def class_defs byte_def)

lemma exp_part_append: "exp_part s = Some (e, t) \<Longrightarrow> stop r \<Longrightarrow> exp_part (s @ r) = Some (e, t @ r)"
  using stop_chars [of r]
  by (cases s; cases "tl s")
    (auto simp: exp_part_def digits1_append digits1_append_Cons split: if_splits)

lemma frac_part_append:
  "frac_part s = Some (f, t) \<Longrightarrow> stop r \<Longrightarrow> frac_part (s @ r) = Some (f, t @ r)"
  using stop_chars [of r]
  by (cases s) (auto simp: frac_part_def digits1_append split: if_splits)

lemma int_part_append:
  "int_part s = Some (i, t) \<Longrightarrow> stop r \<Longrightarrow> int_part (s @ r) = Some (i, t @ r)"
  using stop_chars [of r]
  by (cases s) (auto simp: int_part_def digits1_append digits1_append_Cons split: if_splits)

lemma number_sign: "scan_number s = 
     (let sg = (if s \<noteq> [] \<and> hd s = CHR ''-'' then ''-'' else []); s0 = drop (length sg) s
      in Option.bind (int_part s0) (\<lambda>(i, s1).
         Option.bind (frac_part s1) (\<lambda>(f, s2).
         Option.bind (exp_part s2) (\<lambda>(e, s3). Some (sg @ i @ f @ e, s3)))))"
  by (cases s) (auto simp: scan_number_def)

lemma scan_number_append:
  assumes "good_number n" "stop r"
  shows "scan_number (n @ r) = Some (n, r)"
proof -
  define sg where "sg = (if n \<noteq> [] \<and> hd n = CHR ''-'' then ''-'' else [])"
  from assms(1) obtain i s1 f s2 e where parts: "int_part (drop (length sg) n) = Some (i, s1)"
    "frac_part s1 = Some (f, s2)" "exp_part s2 = Some (e, [])" "n = sg @ i @ f @ e"
    unfolding good_number_def number_sign Let_def sg_def [symmetric]
    by (auto simp: bind_eq_Some_conv)
  have "n \<noteq> []" using parts(1) int_part_split [of "drop (length sg) n"] by auto
  then have sg: "(if n @ r \<noteq> [] \<and> hd (n @ r) = CHR ''-'' then ''-'' else []) = sg"
    and "drop (length sg) (n @ r) = drop (length sg) n @ r"
    by (auto simp: sg_def Suc_le_eq)
  with int_part_append [OF parts(1) assms(2)] frac_part_append [OF parts(2) assms(2)]
    exp_part_append [OF parts(3) assms(2)] parts(4)
  show ?thesis
    unfolding number_sign Let_def sg by simp
qed

lemma good_number_first: "good_number n \<Longrightarrow> n \<noteq> [] \<and> (is_digit (hd n) \<or> hd n = CHR ''-'')"
  by (cases n) (auto simp: good_number_def scan_number_def bind_eq_Some_conv int_part_def digits1_def class_defs byte_def
      split: if_splits list.splits)

subsection \<open>Tokens\<close>

fun commas :: "token list list \<Rightarrow> token list" where
  "commas [] = []"
| "commas [x] = x"
| "commas (x # y # zs) = x @ Comma # commas (y # zs)"

fun tokens :: "json \<Rightarrow> token list" where
  "tokens (JArr xs) = LBrack # commas (map tokens xs) @ [RBrack]"
| "tokens (JObj ms) =
     LBrace # commas (map (\<lambda>m. Atom (JStr (fst m)) # Colon # tokens (snd m)) ms) @ [RBrace]"
| "tokens v = [Atom v]"

text \<open>Values the encoder can print faithfully: well-formed text and number literals.\<close>

fun printable :: "json \<Rightarrow> bool" where
  "printable (JNum n) = good_number n"
| "printable (JStr s) = utf8_valid s"
| "printable (JArr xs) = (\<forall>x \<in> set xs. printable x)"
| "printable (JObj ms) = (\<forall>m \<in> set ms. utf8_valid (fst m) \<and> printable (snd m))"
| "printable v = True"

lemma lex_Nil [simp]: "lex [] = Some []"
  by (simp add: lex.simps)

lemma lex_token:
  "scan_token (c # s) = Some (t, r) \<Longrightarrow> \<not> is_ws c \<Longrightarrow> lex (c # s) = map_option (Cons t) (lex r)"
  by (subst lex.simps) simp

lemma lex_punct: "punct c = Some t \<Longrightarrow> lex (c # r) = map_option (Cons t) (lex r)"
  by (rule lex_token) (auto simp: scan_token_def is_ws_def punct_def byte_def split: if_splits)

lemma lex_quoted: "utf8_valid s \<Longrightarrow> lex (quoted html s @ r) = map_option (Cons (Atom (JStr s))) (lex r)"
  by (simp add: quoted_def char_of_consts, rule lex_token)
    (auto simp: scan_token_def punct_def byte_def is_ws_def scan_quote_body unquote_quote_body)

lemma lex_number: "good_number n \<Longrightarrow> stop r \<Longrightarrow> lex (n @ r) = map_option (Cons (Atom (JNum n))) (lex r)"
proof -
  assume n: "good_number n" "stop r"
  from good_number_first [OF n(1)] obtain c s where c: "n = c # s" "is_digit c \<or> c = CHR ''-''"
    by (cases n) auto
  have "scan_token (c # (s @ r)) = Some (Atom (JNum n), r)"
    using c(2) scan_number_append [OF n] c(1)
    by (auto simp: scan_token_def punct_def class_defs byte_def)
  with c show ?thesis
    by (simp add: lex_token class_defs is_ws_def) (subst lex_token, auto simp: class_defs is_ws_def byte_def)
qed

lemma lex_literal: "lex (''null'' @ r) = map_option (Cons (Atom JNull)) (lex r)"
  "lex (''true'' @ r) = map_option (Cons (Atom (JBool True))) (lex r)"
  "lex (''false'' @ r) = map_option (Cons (Atom (JBool False))) (lex r)"
  unfolding append_Cons
  by (rule lex_token, simp_all add: scan_token_def punct_def byte_def is_digit_def in_range_def is_ws_def scan_literal_def literals_def)+

lemma lex_join:
  assumes "\<forall>x \<in> set xs. \<forall>r. stop r \<longrightarrow> lex (p x @ r) = map_option (append (tk x)) (lex r)" "stop r"
  shows "lex (join '','' (map p xs) @ r) = map_option (append (commas (map tk xs))) (lex r)"
  using assms
proof (induction xs rule: induct_list012)
  case (3 x y zs)
  have "stop ('','' @ s)" for s by (simp add: stop_def)
  moreover have "lex ('','' @ s) = map_option (Cons Comma) (lex s)" for s
    using lex_punct [of "CHR '',''" Comma s] by (simp add: punct_def)
  ultimately show ?case
    using 3 by (simp add: option.map_comp comp_def)
qed (simp_all add: option.map_id [unfolded id_def] append_Nil [abs_def])


subsection \<open>Documents\<close>

lemma append_single: "map_option (append [t]) x = map_option (Cons t) x"
  by (cases x) simp_all

lemma lex_print:
  "printable j \<Longrightarrow> stop r \<Longrightarrow>
     lex (print_json html j @ r) = map_option (append (tokens j)) (lex r)"
proof (induction j arbitrary: r rule: tokens.induct)
  case (1 xs)
  have close: "stop (CHR '']'' # s)" "lex (CHR '']'' # s) = map_option (Cons RBrack) (lex s)" for s
    using lex_punct [of "CHR '']''" RBrack s] by (simp_all add: stop_def punct_def)
  have "lex (join '','' (map (print_json html) xs) @ (CHR '']'' # r))
      = map_option (append (commas (map tokens xs))) (lex (CHR '']'' # r))"
    using 1 close(1) [of r] by (intro lex_join) auto
  then show ?case
    using lex_punct [of "CHR ''[''" LBrack] close(2)
    by (simp add: punct_def option.map_comp comp_def)
next
  case (2 ms)
  have close: "stop (CHR ''}'' # s)" "lex (CHR ''}'' # s) = map_option (Cons RBrace) (lex s)" for s
    using lex_punct [of "CHR ''}''" RBrace s] by (simp_all add: stop_def punct_def)
  have colon: "lex (CHR '':'' # s) = map_option (Cons Colon) (lex s)" for s
    using lex_punct [of "CHR '':''" Colon s] by (simp add: punct_def)
  have member: "lex ((quoted html (fst m) @ '':'' @ print_json html (snd m)) @ s)
      = map_option (append (Atom (JStr (fst m)) # Colon # tokens (snd m))) (lex s)"
    if "m \<in> set ms" "stop s" for m s
    using 2 that colon by (cases "lex s") (simp_all add: lex_quoted)
  have "lex (join '','' (map (\<lambda>m. quoted html (fst m) @ '':'' @ print_json html (snd m)) ms)
        @ (CHR ''}'' # r))
      = map_option (append (commas (map (\<lambda>m. Atom (JStr (fst m)) # Colon # tokens (snd m)) ms)))
          (lex (CHR ''}'' # r))"
    using close(1) [of r] member by (intro lex_join) blast+
  then show ?case
    using lex_punct [of "CHR ''{''" LBrace] close(2)
    by (simp add: punct_def option.map_comp comp_def)
qed (simp_all add: lex_literal [simplified] lex_quoted lex_number append_single)

lemma tokens_first: "\<exists>t ts. tokens j = t # ts \<and> t \<noteq> RBrack \<and> t \<noteq> RBrace"
  by (cases j) auto

lemma first_elem:
  "parse_run (tokens j @ ts) (FirstElem, st) = parse_run (tokens j @ ts) (WantValue, st)"
  using tokens_first [of j] by (auto split: token.splits)

lemma parse_tokens: "parse_run (tokens j @ ts) (WantValue, st) = parse_run ts (Have j, st)"
proof (induction j arbitrary: ts st rule: tokens.induct)
  case (1 xs)
  have elems: "parse_run (commas (map tokens ys) @ RBrack # ts) (WantValue, InArr acc # st)
      = parse_run ts (Have (JArr (acc @ ys)), st)"
    if "set ys \<subseteq> set xs" "ys \<noteq> []" for ys acc
    using that
  proof (induction ys arbitrary: acc rule: induct_list012)
    case (2 x)
    then show ?case using "1.IH" by (simp add: after_value_def)
  next
    case (3 x y zs)
    then show ?case using "1.IH" by (simp add: after_value_def)
  qed simp
  show ?case
  proof (cases xs)
    case Nil
    then show ?thesis by (simp add: start_value_def)
  next
    case (Cons x ys)
    have "parse_run (commas (map tokens xs) @ RBrack # ts) (FirstElem, InArr [] # st)
        = parse_run (commas (map tokens xs) @ RBrack # ts) (WantValue, InArr [] # st)"
      using first_elem by (cases ys) (simp_all add: Cons)
    then show ?thesis using elems [of xs "[]"] by (simp add: start_value_def Cons)
  qed
next
  case (2 ms)
  let ?mt = "\<lambda>m. Atom (JStr (fst m)) # Colon # tokens (snd m)"
  have mems: "parse_run (commas (map ?mt ys) @ RBrace # ts) (WantKey, InObj acc # st)
      = parse_run ts (Have (JObj (acc @ ys)), st)"
    if "set ys \<subseteq> set ms" "ys \<noteq> []" for ys acc
    using that
  proof (induction ys arbitrary: acc rule: induct_list012)
    case (2 m)
    then show ?case using "2.IH" by (simp add: take_key_def after_value_def)
  next
    case (3 m y zs)
    then show ?case using "2.IH" by (simp add: take_key_def after_value_def)
  qed simp
  show ?case
  proof (cases ms)
    case Nil
    then show ?thesis by (simp add: start_value_def)
  next
    case (Cons m ys)
    have "parse_run (commas (map ?mt ms) @ RBrace # ts) (FirstKey, InObj [] # st)
        = parse_run (commas (map ?mt ms) @ RBrace # ts) (WantKey, InObj [] # st)"
      by (cases ys) (simp_all add: Cons)
    then show ?thesis using mems [of ms "[]"] by (simp add: start_value_def Cons)
  qed
qed (simp_all add: start_value_def)

lemma parse_print: "printable j \<Longrightarrow> parse_json (print_json html j) = Some j"
  using lex_print [of j "[]" html] parse_tokens [of j "[]" "[]"]
  by (simp add: parse_json_def stop_def)

lemma marshal_inj: "printable j \<Longrightarrow> printable k \<Longrightarrow> marshal j = marshal k \<longleftrightarrow> j = k"
  unfolding marshal_def by (metis option.inject parse_print)

text \<open>Literal text is decided by rewriting.\<close>

lemma byte_Char [simp]: "byte (Char b0 b1 b2 b3 b4 b5 b6 b7) = of_char (Char b0 b1 b2 b3 b4 b5 b6 b7)"
  by (simp add: byte_def)

lemma utf8_valid_Nil [simp]: "utf8_valid []"
  by (simp add: utf8_valid.simps)

declare utf8_valid_Cons_ascii [simp]

end
