(* ===== verification/Transition_System.thy ===== *)
theory Transition_System
  imports Main
begin

text \<open>
  Two contracts of state machines. The contract of a lifecycle: a step relation, an identity every step keeps, an invariant
  every step establishes, a set of final states no step leaves, and a ledger that only grows.
  The facts about whole runs are proved once here. The second contract is of a machine that
  reads a list of events and may refuse one, with an invariant over the events read so far.
\<close>

locale lifecycle =
  fixes step :: "'s \<Rightarrow> 's \<Rightarrow> bool"
    and ident :: "'s \<Rightarrow> 'i"
    and good :: "'s \<Rightarrow> bool"
    and final :: "'s \<Rightarrow> bool"
  assumes step_ident: "step a b \<Longrightarrow> ident b = ident a"
    and step_good: "step a b \<Longrightarrow> good b"
    and final_stuck: "final a \<Longrightarrow> \<not> step a b"
begin

lemma run_ident: "step\<^sup>*\<^sup>* a b \<Longrightarrow> ident b = ident a"
  by (induction rule: rtranclp_induct) (simp_all add: step_ident)

lemma run_good: "step\<^sup>*\<^sup>* a b \<Longrightarrow> good a \<Longrightarrow> good b"
  by (induction rule: rtranclp_induct) (simp_all add: step_good)

lemma run_from_final: "step\<^sup>*\<^sup>* a b \<Longrightarrow> final a \<Longrightarrow> b = a"
  by (induction rule: converse_rtranclp_induct) (auto dest: final_stuck)

end

text \<open>A lifecycle that also records a value once and keeps it.\<close>

locale recording_lifecycle = lifecycle +
  fixes ledger :: "'a \<Rightarrow> 'l option"
  assumes step_ledger: "step a b \<Longrightarrow> ledger a = Some x \<Longrightarrow> ledger b = Some x"
begin

lemma run_ledger: "step\<^sup>*\<^sup>* a b \<Longrightarrow> ledger a = Some x \<Longrightarrow> ledger b = Some x"
  by (induction rule: rtranclp_induct) (simp_all add: step_ledger)

end

text \<open>A machine that reads events: the first refusal ends the run.\<close>

fun run_events :: "('e \<Rightarrow> 's \<Rightarrow> 's option) \<Rightarrow> 'e list \<Rightarrow> 's \<Rightarrow> 's option" where
  "run_events step [] s = Some s"
| "run_events step (e # es) s = (case step e s of None \<Rightarrow> None | Some t \<Rightarrow> run_events step es t)"

lemma run_events_append:
  "run_events step (es @ ds) s = Option.bind (run_events step es s) (run_events step ds)"
  by (induction es arbitrary: s) (simp_all split: option.splits)

text \<open>An invariant may speak of the events read so far.\<close>

locale event_machine =
  fixes step :: "'e \<Rightarrow> 's \<Rightarrow> 's option"
    and inv :: "'e list \<Rightarrow> 's \<Rightarrow> bool"
  assumes step_inv: "inv es s \<Longrightarrow> step e s = Some t \<Longrightarrow> inv (es @ [e]) t"
begin

lemma run_inv: "inv es s \<Longrightarrow> run_events step ds s = Some t \<Longrightarrow> inv (es @ ds) t"
proof (induction ds arbitrary: es s)
  case (Cons d ds)
  then obtain u where u: "step d s = Some u" "run_events step ds u = Some t"
    by (auto split: option.splits)
  from Cons.IH [OF step_inv [OF Cons.prems(1) u(1)] u(2)] show ?case by simp
qed simp

text \<open>Every event of a run is read in a state that its predecessors explain.\<close>

lemma run_split:
  assumes "inv [] s" "run_events step (as @ e # bs) s = Some t"
  obtains u v where "inv as u" "step e u = Some v" "run_events step bs v = Some t"
proof -
  from assms(2) obtain u where u: "run_events step as s = Some u" "run_events step (e # bs) u = Some t"
    by (auto simp: run_events_append bind_eq_Some_conv)
  from run_inv [OF assms(1) u(1)] u(2) that show ?thesis by (auto split: option.splits)
qed

end

end
