(* ===== verification/Browser_Transaction.thy ===== *)
theory Browser_Transaction
  imports Go_Url Go_Time Json_Text Digest Transition_System "HOL-Library.Product_Lexorder"
begin

text \<open>
  Package \<^verbatim>\<open>browsertransaction\<close> (\<^verbatim>\<open>browsertransaction/transaction.go\<close>): the immutable
  lifecycle snapshot of a profile-authoring transaction, its validator with every early return,
  the canonical bytes and digest, and the check of a transition between two snapshots.

  The string types of the source (state, kind, failure class and code) stay strings, because a
  decoded document may hold any text in them and the validator is what closes them.
\<close>

subsection \<open>Types\<close>

record candidate =
  ca_kind :: bytes
  ca_schema :: bytes
  ca_source :: bytes
  ca_review :: bytes

record provenance =
  pv_producer :: bytes
  pv_result_version :: bytes
  pv_result_sha256 :: bytes
  pv_observed_at :: bytes
  pv_expires_at :: bytes
  pv_origins :: "bytes list"

record credential_binding =
  cb_slot :: bytes
  cb_binding :: bytes

record preparation =
  pr_package :: bytes
  pr_qualification :: bytes

record promotion =
  pm_generation :: bytes

record failure =
  fl_class :: bytes
  fl_code :: bytes

text \<open>
  A nil slice of bindings differs from an empty one: the validator and the encoder tell them
  apart, so the field is optional. The pointers are optional values.
\<close>

record transaction =
  tx_version :: bytes
  tx_id :: bytes
  tx_kind :: bytes
  tx_state :: bytes
  tx_candidates :: "candidate list"
  tx_provenance :: provenance
  tx_bindings :: "credential_binding list option"
  tx_session :: bytes
  tx_preparation :: "preparation option"
  tx_promotion :: "promotion option"
  tx_failure :: "failure option"

definition tx_v1 :: bytes where "tx_v1 = ''openudon.browser-profile-transaction.v1''"
definition tx_v2 :: bytes where "tx_v2 = ''openudon.browser-profile-transaction.v2''"
definition tx_v3 :: bytes where "tx_v3 = ''openudon.browser-profile-transaction.v3''"
definition tx_v4 :: bytes where "tx_v4 = ''openudon.browser-profile-transaction.v4''"

definition kind_auth :: bytes where "kind_auth = ''authentication_capability''"
definition kind_reg :: bytes where "kind_reg = ''registration''"

definition result_auth_v2 :: bytes where "result_auth_v2 = ''browsertools.authenticated-authoring.v2''"
definition result_reg_v1 :: bytes where "result_reg_v1 = ''browsertools.registration-authoring.v1''"
definition result_reg_v2 :: bytes where "result_reg_v2 = ''browsertools.registration-authoring.v2''"
definition result_reg_v3 :: bytes where "result_reg_v3 = ''browsertools.registration-authoring.v3''"
definition result_reg_v4 :: bytes where "result_reg_v4 = ''browsertools.registration-authoring.v4''"

datatype tx_error =
    TxVersion
  | TxId
  | TxKind
  | TxProfileVersion
  | TxComposition
  | TxState
  | TxCandidateCount
  | TxCandidateOrder
  | TxCandidateSchema
  | TxCandidateDigest
  | TxProvenance
  | TxObserved
  | TxExpires
  | TxOriginCount
  | TxOrigins
  | TxBindingsMissing
  | TxBindings
  | TxNoBinding
  | TxSession
  | TxPreparationDigest
  | TxPromotionDigest
  | TxFailure
  | TxLifecycle
  | TxTooLarge
  | TxPrevious tx_error
  | TxNext tx_error
  | TxIdentity
  | TxPreparationChanged
  | TxPreparationAppeared
  | TxPromotionChanged
  | TxEdge

subsection \<open>Patterns and digests\<close>

definition id_rest :: "char \<Rightarrow> bool" where
  "id_rest c = (is_lower c \<or> is_digit c \<or> c \<in> set ''._-'')"

definition id_pattern :: "bytes \<Rightarrow> bool" where
  "id_pattern s = matches_class (\<lambda>c. is_lower c \<or> is_digit c) id_rest 127 s"

definition symbol_pattern :: "bytes \<Rightarrow> bool" where
  "symbol_pattern s =
     matches_class is_lower (\<lambda>c. is_lower c \<or> is_digit c \<or> c = CHR ''_'') 127 s"

definition valid_digest :: "bytes \<Rightarrow> bool" where
  "valid_digest value =
     (if length value \<noteq> 71 \<or> value \<noteq> to_lower value \<or> \<not> has_prefix value ''sha256:'' then False
      else hex_decodable (trim_prefix value ''sha256:''))"

definition valid_result_version :: "bytes \<Rightarrow> bool" where
  "valid_result_version v =
     (v \<in> set [result_auth_v2, result_reg_v1, result_reg_v2, result_reg_v3, result_reg_v4])"

subsection \<open>Origins\<close>

definition ascii_only :: "bytes \<Rightarrow> bool" where
  "ascii_only s = list_all (\<lambda>c. byte c < 128) s"

text \<open>\<^verbatim>\<open>strconv.Atoi\<close> on a text of digits, and \<^verbatim>\<open>strconv.Itoa\<close>.\<close>

definition atoi_port :: "bytes \<Rightarrow> int option" where
  "atoi_port p = (if dec_value p < 2 ^ 63 then Some (dec_value p) else None)"

definition port_ok :: "bytes \<Rightarrow> bytes \<Rightarrow> bool" where
  "port_ok scheme port =
     (case atoi_port port of
        None \<Rightarrow> False
      | Some n \<Rightarrow>
          1 \<le> n \<and> n \<le> 65535 \<and> hd port \<noteq> CHR ''0''
          \<and> \<not> (scheme = ''https'' \<and> n = 443 \<or> scheme = ''http'' \<and> n = 80))"

definition valid_origin :: "bytes \<Rightarrow> bool" where
  "valid_origin value =
     (if 1024 < rune_count value then False
      else case parse_url value of
        None \<Rightarrow> False
      | Some u \<Rightarrow>
          if u_user u \<or> u_raw_query u \<noteq> [] \<or> u_fragment u \<noteq> []
             \<or> (u_path u \<noteq> [] \<and> u_path u \<noteq> ''/'') then False
          else
            (let scheme = to_lower (u_scheme u); name = to_lower (hostname u);
                 ip = parse_ip name; port = url_port u;
                 canonical_name = (case ip of Some gs \<Rightarrow> print_ip gs | None \<Rightarrow> name);
                 host = (if CHR '':'' \<in> set canonical_name then ''['' @ canonical_name @ '']''
                         else canonical_name) @ (if port \<noteq> [] then '':'' @ port else [])
             in if scheme \<noteq> ''https'' \<and> scheme \<noteq> ''http'' then False
                else if name = [] then False
                else if ip = None \<and> (CHR '':'' \<in> set name \<or> \<not> ascii_only name) then False
                else if scheme = ''http'' \<and> name \<noteq> ''localhost''
                        \<and> (case ip of None \<Rightarrow> True | Some gs \<Rightarrow> \<not> is_loopback gs) then False
                else if port \<noteq> [] \<and> \<not> port_ok scheme port then False
                else value = scheme @ ''://'' @ host))"

subsection \<open>The parts of the validator\<close>

definition want_schema :: "bytes \<Rightarrow> bytes" where
  "want_schema version =
     (if version = tx_v4 then ''uws.browser-registration.1.2''
      else if version = tx_v3 then ''uws.browser-registration.1.1''
      else ''uws.browser-registration.1.0'')"

definition validate_version_composition :: "transaction \<Rightarrow> tx_error + unit" where
  "validate_version_composition t =
     first_error
       [fail_if (tx_kind t = kind_reg
                 \<and> (length (tx_candidates t) \<noteq> 1
                    \<or> ca_schema (hd (tx_candidates t)) \<noteq> want_schema (tx_version t)))
          TxProfileVersion,
        (let rv = pv_result_version (tx_provenance t)
         in if tx_version t = tx_v1 then
              fail_if (tx_kind t = kind_auth \<and> rv \<noteq> result_auth_v2
                       \<or> tx_kind t = kind_reg \<and> rv \<noteq> result_reg_v1) TxComposition
            else if tx_version t = tx_v2 then
              fail_if (tx_kind t \<noteq> kind_reg \<or> rv \<noteq> result_reg_v2) TxComposition
            else if tx_version t = tx_v4 then
              fail_if (tx_kind t \<noteq> kind_reg \<or> rv \<noteq> result_reg_v4) TxComposition
            else if tx_version t = tx_v3 then
              fail_if (tx_kind t \<noteq> kind_reg \<or> rv \<noteq> result_reg_v3) TxComposition
            else Inr ())]"

definition valid_state :: "bytes \<Rightarrow> bool" where
  "valid_state s =
     (s \<in> set [''candidate'', ''reviewed'', ''prepared'', ''promoted'', ''cancelled'', ''failed'',
               ''indeterminate''])"

definition valid_candidate_schema :: "bytes \<Rightarrow> bytes \<Rightarrow> bool" where
  "valid_candidate_schema kind schema =
     (if kind = ''authentication'' then
        schema \<in> set [''uws.browser-authentication.1.0'', ''uws.browser-authentication.1.1'']
      else if kind = ''capability'' then
        schema \<in> set [''uws.browser.1.5'', ''uws.browser.1.6'', ''uws.browser.1.7'',
                      ''uws.browser.1.8'', ''uws.browser.1.9'']
      else if kind = ''registration'' then
        schema \<in> set [''uws.browser-registration.1.0'', ''uws.browser-registration.1.1'',
                      ''uws.browser-registration.1.2'']
      else False)"

definition want_kinds :: "bytes \<Rightarrow> bytes list" where
  "want_kinds kind =
     (if kind = kind_reg then [''registration''] else [''authentication'', ''capability''])"

definition validate_candidate :: "bytes \<Rightarrow> candidate \<Rightarrow> tx_error + unit" where
  "validate_candidate want c =
     first_error
       [fail_if (ca_kind c \<noteq> want) TxCandidateOrder,
        fail_if (\<not> valid_candidate_schema (ca_kind c) (ca_schema c)) TxCandidateSchema,
        fail_if (\<not> valid_digest (ca_source c) \<or> \<not> valid_digest (ca_review c)) TxCandidateDigest]"

definition validate_candidates :: "bytes \<Rightarrow> candidate list \<Rightarrow> tx_error + unit" where
  "validate_candidates kind cs =
     (if length cs \<noteq> length (want_kinds kind) then Inl TxCandidateCount
      else first_error (map2 validate_candidate (want_kinds kind) cs))"

definition canonical_time :: "bytes \<Rightarrow> int option" where
  "canonical_time s =
     (case parse_time s of
        None \<Rightarrow> None
      | Some t \<Rightarrow> if format_time t = s then Some (instant t) else None)"

fun origins_ascend :: "bytes \<Rightarrow> bytes list \<Rightarrow> bool" where
  "origins_ascend previous [] = True"
| "origins_ascend previous (x # xs) =
     (if x \<le> previous \<or> \<not> valid_origin x then False else origins_ascend x xs)"

definition validate_provenance :: "provenance \<Rightarrow> tx_error + unit" where
  "validate_provenance p =
     (if pv_producer p \<noteq> ''browsertools'' \<or> \<not> valid_result_version (pv_result_version p)
         \<or> \<not> valid_digest (pv_result_sha256 p) then Inl TxProvenance
      else case canonical_time (pv_observed_at p) of
        None \<Rightarrow> Inl TxObserved
      | Some observed \<Rightarrow>
          (case canonical_time (pv_expires_at p) of
             None \<Rightarrow> Inl TxExpires
           | Some expires \<Rightarrow>
               first_error
                 [fail_if (\<not> observed < expires) TxExpires,
                  fail_if (pv_origins p = [] \<or> 32 < length (pv_origins p)) TxOriginCount,
                  fail_if (\<not> origins_ascend [] (pv_origins p)) TxOrigins]))"

fun bindings_ascend :: "bytes \<Rightarrow> credential_binding list \<Rightarrow> bool" where
  "bindings_ascend previous [] = True"
| "bindings_ascend previous (b # bs) =
     (if \<not> symbol_pattern (cb_slot b) \<or> \<not> symbol_pattern (cb_binding b) \<or> cb_slot b \<le> previous
      then False else bindings_ascend (cb_slot b) bs)"

definition validate_bindings :: "credential_binding list option \<Rightarrow> tx_error + unit" where
  "validate_bindings bindings =
     (case bindings of
        None \<Rightarrow> Inl TxBindingsMissing
      | Some bs \<Rightarrow>
          first_error
            [fail_if (32 < length bs) TxBindingsMissing,
             fail_if (\<not> bindings_ascend [] bs) TxBindings])"

definition valid_failure :: "failure \<Rightarrow> bool" where
  "valid_failure f =
     (if fl_class f = ''rejected'' then
        fl_code f \<in> set [''transaction_invalid'', ''candidate_invalid'', ''candidate_stale'',
                        ''digest_mismatch'', ''review_rejected'']
      else if fl_class f = ''conflict'' then fl_code f = ''workspace_conflict''
      else if fl_class f = ''operational'' then
        fl_code f \<in> set [''preparation_failed'', ''qualification_failed'', ''promotion_failed'']
      else if fl_class f = ''indeterminate'' then fl_code f = ''promotion_indeterminate''
      else False)"

definition lifecycle_fields :: "transaction \<Rightarrow> bool" where
  "lifecycle_fields t =
     (let s = tx_state t; prep = tx_preparation t \<noteq> None; prom = tx_promotion t \<noteq> None;
          fail = tx_failure t \<noteq> None;
          class = (case tx_failure t of Some f \<Rightarrow> fl_class f | None \<Rightarrow> []);
          code = (case tx_failure t of Some f \<Rightarrow> fl_code f | None \<Rightarrow> [])
      in if s = ''candidate'' \<or> s = ''reviewed'' then \<not> (prep \<or> prom \<or> fail)
         else if s = ''prepared'' then \<not> (\<not> prep \<or> prom \<or> fail)
         else if s = ''promoted'' then \<not> (\<not> prep \<or> \<not> prom \<or> fail)
         else if s = ''cancelled'' then \<not> (prom \<or> fail)
         else if s = ''failed'' then \<not> (prom \<or> \<not> fail \<or> class = ''indeterminate'')
         else if s = ''indeterminate'' then
           \<not> (\<not> prep \<or> prom \<or> \<not> fail \<or> class \<noteq> ''indeterminate'' \<or> code \<noteq> ''promotion_indeterminate'')
         else True)"

definition validate_lifecycle :: "transaction \<Rightarrow> tx_error + unit" where
  "validate_lifecycle t =
     first_error
       [fail_if (case tx_preparation t of
                   None \<Rightarrow> False
                 | Some p \<Rightarrow> \<not> valid_digest (pr_package p) \<or> \<not> valid_digest (pr_qualification p))
          TxPreparationDigest,
        fail_if (case tx_promotion t of None \<Rightarrow> False | Some p \<Rightarrow> \<not> valid_digest (pm_generation p))
          TxPromotionDigest,
        fail_if (case tx_failure t of None \<Rightarrow> False | Some f \<Rightarrow> \<not> valid_failure f) TxFailure,
        fail_if (\<not> lifecycle_fields t) TxLifecycle]"

definition validate_transaction :: "transaction \<Rightarrow> tx_error + unit" where
  "validate_transaction t =
     first_error
       [fail_if (tx_version t \<notin> set [tx_v1, tx_v2, tx_v3, tx_v4]) TxVersion,
        fail_if (\<not> id_pattern (tx_id t)) TxId,
        fail_if (tx_kind t \<noteq> kind_auth \<and> tx_kind t \<noteq> kind_reg) TxKind,
        validate_version_composition t,
        fail_if (\<not> valid_state (tx_state t)) TxState,
        validate_candidates (tx_kind t) (tx_candidates t),
        validate_provenance (tx_provenance t),
        validate_bindings (tx_bindings t),
        fail_if (tx_kind t = kind_reg \<and> tx_bindings t = Some []) TxNoBinding,
        fail_if (if tx_kind t = kind_auth then \<not> symbol_pattern (tx_session t)
                 else tx_session t \<noteq> []) TxSession,
        validate_lifecycle t]"

subsection \<open>Canonical bytes\<close>

definition candidate_json :: "candidate \<Rightarrow> json" where
  "candidate_json c =
     JObj [(''kind'', JStr (ca_kind c)), (''schema'', JStr (ca_schema c)),
           (''source_sha256'', JStr (ca_source c)), (''review_sha256'', JStr (ca_review c))]"

definition provenance_json :: "provenance \<Rightarrow> json" where
  "provenance_json p =
     JObj [(''producer'', JStr (pv_producer p)), (''result_version'', JStr (pv_result_version p)),
           (''result_sha256'', JStr (pv_result_sha256 p)), (''observed_at'', JStr (pv_observed_at p)),
           (''expires_at'', JStr (pv_expires_at p)), (''origins'', JArr (map JStr (pv_origins p)))]"

definition binding_json :: "credential_binding \<Rightarrow> json" where
  "binding_json b = JObj [(''slot'', JStr (cb_slot b)), (''binding'', JStr (cb_binding b))]"

definition preparation_json :: "preparation \<Rightarrow> json" where
  "preparation_json p =
     JObj [(''package_sha256'', JStr (pr_package p)),
           (''qualification_sha256'', JStr (pr_qualification p))]"

definition promotion_json :: "promotion \<Rightarrow> json" where
  "promotion_json p = JObj [(''generation_sha256'', JStr (pm_generation p))]"

definition failure_json :: "failure \<Rightarrow> json" where
  "failure_json f = JObj [(''class'', JStr (fl_class f)), (''code'', JStr (fl_code f))]"

definition optional_member :: "bytes \<Rightarrow> ('a \<Rightarrow> json) \<Rightarrow> 'a option \<Rightarrow> (bytes \<times> json) list" where
  "optional_member k f x = (case x of None \<Rightarrow> [] | Some v \<Rightarrow> [(k, f v)])"

definition transaction_json :: "transaction \<Rightarrow> json" where
  "transaction_json t =
     JObj ([(''version'', JStr (tx_version t)), (''id'', JStr (tx_id t)), (''kind'', JStr (tx_kind t)),
            (''state'', JStr (tx_state t)),
            (''candidates'', JArr (map candidate_json (tx_candidates t))),
            (''provenance'', provenance_json (tx_provenance t)),
            (''credential_bindings'',
              (case tx_bindings t of None \<Rightarrow> JNull | Some bs \<Rightarrow> JArr (map binding_json bs)))]
           @ omit_str ''session'' (tx_session t)
           @ optional_member ''preparation'' preparation_json (tx_preparation t)
           @ optional_member ''promotion'' promotion_json (tx_promotion t)
           @ optional_member ''failure'' failure_json (tx_failure t))"

definition binding_key :: "credential_binding \<Rightarrow> bytes \<times> bytes" where
  "binding_key b = (cb_slot b, cb_binding b)"

definition canonical_order :: "transaction \<Rightarrow> transaction" where
  "canonical_order t =
     t\<lparr>tx_candidates := sort_key ca_kind (tx_candidates t),
       tx_bindings := map_option (sort_key binding_key) (tx_bindings t),
       tx_provenance := (tx_provenance t)\<lparr>pv_origins := sort (pv_origins (tx_provenance t))\<rparr>\<rparr>"

definition tx_max_bytes :: int where
  "tx_max_bytes = 262144"

definition canonical_bytes :: "transaction \<Rightarrow> tx_error + bytes" where
  "canonical_bytes t =
     (if tx_bindings t = None then Inl TxBindingsMissing
      else
        (let c = canonical_order t
         in case validate_transaction c of
              Inl e \<Rightarrow> Inl e
            | Inr _ \<Rightarrow>
                (let data = marshal (transaction_json c)
                 in if tx_max_bytes < int (length data) then Inl TxTooLarge else Inr data)))"

definition transaction_digest :: "transaction \<Rightarrow> tx_error + bytes" where
  "transaction_digest t =
     (case canonical_bytes t of Inl e \<Rightarrow> Inl e | Inr data \<Rightarrow> Inr (''sha256:'' @ sha256 data))"

subsection \<open>Transitions\<close>

definition allowed_transition :: "bytes \<Rightarrow> bytes \<Rightarrow> bool" where
  "allowed_transition previous next =
     (if previous = ''candidate'' then next \<in> set [''reviewed'', ''cancelled'', ''failed'']
      else if previous = ''reviewed'' then next \<in> set [''prepared'', ''cancelled'', ''failed'']
      else if previous = ''prepared'' then
        next \<in> set [''promoted'', ''indeterminate'', ''cancelled'', ''failed'']
      else if previous = ''indeterminate'' then
        next \<in> set [''prepared'', ''promoted'', ''cancelled'', ''failed'']
      else False)"

definition canonical_identity :: "transaction \<Rightarrow> tx_error + bytes" where
  "canonical_identity t =
     canonical_bytes (t\<lparr>tx_state := ''candidate'', tx_preparation := None, tx_promotion := None,
                        tx_failure := None\<rparr>)"

definition clear_lifecycle :: "transaction \<Rightarrow> transaction" where
  "clear_lifecycle t =
     t\<lparr>tx_state := [], tx_preparation := None, tx_promotion := None, tx_failure := None\<rparr>"

definition preparation_kept :: "transaction \<Rightarrow> transaction \<Rightarrow> tx_error + unit" where
  "preparation_kept p n =
     (case tx_preparation p of
        Some x \<Rightarrow> fail_if (tx_preparation n \<noteq> Some x) TxPreparationChanged
      | None \<Rightarrow> fail_if (tx_preparation n \<noteq> None \<and> tx_state n \<noteq> ''prepared'') TxPreparationAppeared)"

definition promotion_kept :: "transaction \<Rightarrow> transaction \<Rightarrow> tx_error + unit" where
  "promotion_kept p n =
     (case tx_promotion p of
        Some x \<Rightarrow> fail_if (tx_promotion n \<noteq> Some x) TxPromotionChanged
      | None \<Rightarrow> Inr ())"

definition validate_transition :: "transaction \<Rightarrow> transaction \<Rightarrow> tx_error + unit" where
  "validate_transition previous next =
     (case validate_transaction previous of
        Inl e \<Rightarrow> Inl (TxPrevious e)
      | Inr _ \<Rightarrow>
          (case validate_transaction next of
             Inl e \<Rightarrow> Inl (TxNext e)
           | Inr _ \<Rightarrow>
               (case canonical_identity (clear_lifecycle previous) of
                  Inl e \<Rightarrow> Inl (TxPrevious e)
                | Inr a \<Rightarrow>
                    (case canonical_identity (clear_lifecycle next) of
                       Inl e \<Rightarrow> Inl (TxNext e)
                     | Inr b \<Rightarrow>
                         first_error
                           [fail_if (a \<noteq> b) TxIdentity,
                            preparation_kept previous next,
                            promotion_kept previous next,
                            fail_if (\<not> allowed_transition (tx_state previous) (tx_state next))
                              TxEdge]))))"

subsection \<open>Accepted text is ASCII\<close>

lemma ascii_utf8: "ascii_only s \<Longrightarrow> utf8_valid s"
  by (induction s) (auto simp: ascii_only_def utf8_valid_Cons_ascii utf8_valid.simps [of "[]"])

lemma ascii_append [simp]: "ascii_only (a @ b) \<longleftrightarrow> ascii_only a \<and> ascii_only b"
  by (simp add: ascii_only_def)

lemma ascii_Cons [simp]: "ascii_only (c # s) \<longleftrightarrow> byte c < 128 \<and> ascii_only s"
  by (simp add: ascii_only_def)

lemma ascii_Nil [simp]: "ascii_only []"
  by (simp add: ascii_only_def)

lemma ascii_class: "list_all P s \<Longrightarrow> (\<And>c. P c \<Longrightarrow> byte c < 128) \<Longrightarrow> ascii_only s"
  by (auto simp: ascii_only_def list_all_iff)

lemma id_pattern_ascii: "id_pattern s \<Longrightarrow> ascii_only s"
  unfolding id_pattern_def
  by (drule matches_class_chars) (auto simp: id_rest_def class_defs byte_def intro!: ascii_class [where P = id_rest])

lemma symbol_pattern_ascii: "symbol_pattern s \<Longrightarrow> ascii_only s"
  unfolding symbol_pattern_def
  by (drule matches_class_chars) (auto simp: class_defs byte_def elim!: ascii_class)

lemma hex_ascii: "is_hex c \<Longrightarrow> byte c < 128"
  by (auto simp: class_defs)

lemma valid_digest_prefix: "valid_digest (''sha256:'' @ h) \<longleftrightarrow> plain_sha256 h"
proof -
  have "list_all (\<lambda>c. \<not> is_upper c) ''sha256:''" by code_simp
  then have low: "''sha256:'' @ h = to_lower (''sha256:'' @ h) \<longleftrightarrow> list_all (\<lambda>c. \<not> is_upper c) h"
    using to_lower_id_iff [of "''sha256:'' @ h"] by (metis list_all_append)
  have "valid_digest (''sha256:'' @ h) \<longleftrightarrow>
      length h = 64 \<and> list_all (\<lambda>c. \<not> is_upper c) h \<and> hex_decodable h"
    unfolding valid_digest_def trim_prefix_append low has_prefix_def by auto
  then show ?thesis
    by (auto simp: plain_sha256_def hex_decodable_def list_all_iff lower_hex_iff)
qed

lemma valid_digest_iff: "valid_digest s \<longleftrightarrow> (\<exists>h. s = ''sha256:'' @ h \<and> plain_sha256 h)"
proof
  assume s: "valid_digest s"
  then obtain h where "s = ''sha256:'' @ h"
    unfolding valid_digest_def has_prefix_def prefix_def by (metis (no_types))
  with s show "\<exists>h. s = ''sha256:'' @ h \<and> plain_sha256 h"
    using valid_digest_prefix [of h] by blast
qed (use valid_digest_prefix in blast)

lemma valid_digest_ascii: "valid_digest s \<Longrightarrow> ascii_only s"
  by (auto simp: valid_digest_iff plain_sha256_def byte_def lower_hex_iff hex_ascii [unfolded byte_def]
      ascii_only_def list_all_iff)

lemma digit_char_ascii: "byte (digit_char n) < 128"
proof -
  have "0 \<le> n mod 10" "n mod 10 < 10" by simp_all
  then have "0 \<le> 48 + n mod 10" "48 + n mod 10 < 128" by linarith+
  then show ?thesis by (simp add: digit_char_def)
qed

lemma pad_digits_ascii: "ascii_only (pad_digits k n)"
  by (induction k n rule: pad_digits.induct) (simp_all add: digit_char_ascii)

lemma format_time_ascii: "ascii_only (format_time t)"
proof -
  have "ascii_only (rev (dropWhile P (rev s)))" if "ascii_only s" for P s
    using that by (auto simp: ascii_only_def list_all_iff dest: set_dropWhileD)
  then show ?thesis
    by (simp add: format_time_def format_fraction_def format_zone_def pad_digits_ascii Let_def byte_def)
qed

lemma canonical_time_ascii: "canonical_time s = Some i \<Longrightarrow> ascii_only s"
  by (auto simp: canonical_time_def format_time_ascii split: option.splits if_splits)

lemma dec_digits_ascii: "0 \<le> n \<Longrightarrow> n < 256 \<Longrightarrow> ascii_only (dec_digits n)"
  by (auto simp: dec_digits_def)

lemma join_ascii: "ascii_only sep \<Longrightarrow> (\<forall>x \<in> set xs. ascii_only x) \<Longrightarrow> ascii_only (join sep xs)"
  by (induction sep xs rule: join.induct) simp_all

lemma hex_digit_ascii: "byte (hex_digit (n mod 16)) < 128"
proof -
  have "0 \<le> n mod 16" "n mod 16 < 16" by simp_all
  then show ?thesis by (auto simp: hex_digit_def)
qed

lemma hex_group_ascii: "ascii_only (hex_group n)"
  using hex_digit_ascii
  by (auto simp: hex_group_def Let_def ascii_only_def list_all_iff byte_def dest: set_dropWhileD)

lemma print_ip_ascii: "ascii_only (print_ip gs)"
proof -
  have "ascii_only (join '':'' (map hex_group xs))" for xs
    by (rule join_ascii) (simp_all add: hex_group_ascii byte_def)
  moreover have "ascii_only (dec_digits (n mod 256))" for n
    by (rule dec_digits_ascii) simp_all
  ultimately show ?thesis
    by (auto simp: print_ip_def byte_def split: prod.splits intro!: join_ascii)
qed

lemma valid_optional_port_ascii: "valid_optional_port p \<Longrightarrow> ascii_only (tl p)"
  by (cases p) (auto simp: valid_optional_port_def ascii_only_def list_all_iff class_defs)

lemma url_port_ascii: "ascii_only (url_port u)"
  using valid_optional_port_ascii
  by (fastforce simp: url_port_def split_host_port_def Let_def split: option.splits if_splits)

text \<open>What an accepted origin is: a scheme, a canonical host and a port that is not the default.\<close>

lemma valid_origin_parts:
  assumes "valid_origin v"
  obtains scheme name port where
    "v = scheme @ ''://'' @ (if CHR '':'' \<in> set name then ''['' @ name @ '']'' else name)
         @ (if port \<noteq> [] then '':'' @ port else [])"
    "scheme = ''https'' \<or> scheme = ''http'' \<and> (name = ''localhost''
        \<or> (\<exists>gs. is_loopback gs \<and> name = print_ip gs))"
    "ascii_only name" "ascii_only port" "port \<noteq> [] \<longrightarrow> port_ok scheme port"
proof -
  from assms obtain u where u: "parse_url v = Some u"
    by (auto simp: valid_origin_def split: if_splits option.splits)
  define scheme where "scheme = to_lower (u_scheme u)"
  define host where "host = to_lower (hostname u)"
  define name where "name = (case parse_ip host of Some gs \<Rightarrow> print_ip gs | None \<Rightarrow> host)"
  note facts = assms [unfolded valid_origin_def u Let_def option.case scheme_def [symmetric]
      host_def [symmetric] name_def [symmetric]]
  have c: "scheme = ''https'' \<or> scheme = ''http''"
    "parse_ip host = None \<longrightarrow> ascii_only host"
    "scheme = ''http'' \<longrightarrow> host = ''localhost'' \<or> (\<exists>gs. parse_ip host = Some gs \<and> is_loopback gs)"
    "url_port u \<noteq> [] \<longrightarrow> port_ok scheme (url_port u)"
    "v = scheme @ ''://'' @ (if CHR '':'' \<in> set name then ''['' @ name @ '']'' else name)
         @ (if url_port u \<noteq> [] then '':'' @ url_port u else [])"
    using facts by (simp_all only: split: if_splits option.splits) (auto split: option.splits)
  have "parse_ip ''localhost'' = None" by code_simp
  with c(1,3) have "scheme = ''https'' \<or> scheme = ''http'' \<and> (name = ''localhost''
        \<or> (\<exists>gs. is_loopback gs \<and> name = print_ip gs))"
    by (auto simp: name_def)
  moreover have "ascii_only name"
    using c(2) by (cases "parse_ip host") (simp_all add: name_def print_ip_ascii)
  ultimately show ?thesis
    using that c(4,5) url_port_ascii by blast
qed

lemma valid_origin_ascii: "valid_origin v \<Longrightarrow> ascii_only v"
  by (erule valid_origin_parts) (auto simp: byte_def)

subsection \<open>Accepted transactions\<close>

lemma origins_ascend_iff:
  "origins_ascend p xs \<longleftrightarrow> sorted_wrt (<) (p # xs) \<and> (\<forall>x \<in> set xs. valid_origin x)"
proof (induction xs arbitrary: p)
  case (Cons x xs)
  show ?case
    using Cons.IH [of x] by (auto simp: not_le intro: order.strict_trans)
qed simp

lemma bindings_ascend_iff:
  "bindings_ascend p bs \<longleftrightarrow> sorted_wrt (<) (p # map cb_slot bs)
     \<and> (\<forall>b \<in> set bs. symbol_pattern (cb_slot b) \<and> symbol_pattern (cb_binding b))"
proof (induction bs arbitrary: p)
  case (Cons b bs)
  show ?case
    using Cons.IH [of "cb_slot b"] by (auto simp: not_le intro: order.strict_trans)
qed simp

lemma validate_bindings_accepts [accepts_simps]:
  "accepts (validate_bindings o1) \<longleftrightarrow>
     (\<exists>bs. o1 = Some bs \<and> length bs \<le> 32 \<and> bindings_ascend [] bs)"
  by (auto simp: validate_bindings_def split: option.splits)

lemma validate_candidates_accepts [accepts_simps]:
  "accepts (validate_candidates kind cs) \<longleftrightarrow>
     map ca_kind cs = want_kinds kind
     \<and> (\<forall>c \<in> set cs. valid_candidate_schema (ca_kind c) (ca_schema c)
          \<and> valid_digest (ca_source c) \<and> valid_digest (ca_review c))"
  by (auto simp: validate_candidates_def want_kinds_def validate_candidate_def length_Suc_conv
      numeral_2_eq_2 Cons_eq_map_conv map_eq_Cons_conv)

lemma validate_provenance_accepts [accepts_simps]:
  "accepts (validate_provenance p) \<longleftrightarrow>
     pv_producer p = ''browsertools'' \<and> valid_result_version (pv_result_version p)
     \<and> valid_digest (pv_result_sha256 p)
     \<and> (\<exists>o1 e. canonical_time (pv_observed_at p) = Some o1
              \<and> canonical_time (pv_expires_at p) = Some e \<and> o1 < e)
     \<and> pv_origins p \<noteq> [] \<and> length (pv_origins p) \<le> 32 \<and> origins_ascend [] (pv_origins p)"
  by (auto simp: validate_provenance_def split: option.splits)

lemma validate_lifecycle_accepts [accepts_simps]:
  "accepts (validate_lifecycle t) \<longleftrightarrow>
     (\<forall>p. tx_preparation t = Some p \<longrightarrow> valid_digest (pr_package p) \<and> valid_digest (pr_qualification p))
     \<and> (\<forall>p. tx_promotion t = Some p \<longrightarrow> valid_digest (pm_generation p))
     \<and> (\<forall>f. tx_failure t = Some f \<longrightarrow> valid_failure f) \<and> lifecycle_fields t"
  by (auto simp: validate_lifecycle_def split: option.splits)

lemma validate_transaction_accepts:
  "accepts (validate_transaction t) \<longleftrightarrow>
     tx_version t \<in> {tx_v1, tx_v2, tx_v3, tx_v4} \<and> id_pattern (tx_id t)
     \<and> tx_kind t \<in> {kind_auth, kind_reg} \<and> accepts (validate_version_composition t)
     \<and> valid_state (tx_state t) \<and> accepts (validate_candidates (tx_kind t) (tx_candidates t))
     \<and> accepts (validate_provenance (tx_provenance t)) \<and> accepts (validate_bindings (tx_bindings t))
     \<and> (tx_kind t = kind_reg \<longrightarrow> tx_bindings t \<noteq> Some [])
     \<and> (if tx_kind t = kind_auth then symbol_pattern (tx_session t) else tx_session t = [])
     \<and> accepts (validate_lifecycle t)"
  by (simp add: validate_transaction_def)

text \<open>An accepted transaction is already in canonical order.\<close>

lemma sort_key_strict: "sorted_wrt (<) (map k xs) \<Longrightarrow> sort_key k xs = xs"
  by (intro sort_key_id_if_sorted) (simp add: strict_sorted_iff)

lemma slots_binding_key: "sorted_wrt (<) (map cb_slot bs) \<Longrightarrow> sorted_wrt (<) (map binding_key bs)"
  by (simp add: sorted_wrt_map binding_key_def less_prod_def) 
    (erule sorted_wrt_mono_rel [rotated], simp)

lemma accepted_canonical_order:
  assumes "accepts (validate_transaction t)"
  shows "canonical_order t = t"
proof -
  from assms have t: "map ca_kind (tx_candidates t) = want_kinds (tx_kind t)"
    "origins_ascend [] (pv_origins (tx_provenance t))"
    "\<exists>bs. tx_bindings t = Some bs \<and> bindings_ascend [] bs"
    by (auto simp: validate_transaction_accepts accepts_simps)
  have "''authentication'' < ''capability''" by code_simp
  then have "sort_key ca_kind (tx_candidates t) = tx_candidates t"
    using t(1) by (intro sort_key_strict) (simp add: want_kinds_def)
  moreover have "sort (pv_origins (tx_provenance t)) = pv_origins (tx_provenance t)"
    using t(2) by (intro sort_key_strict) (simp add: origins_ascend_iff)
  moreover have "map_option (sort_key binding_key) (tx_bindings t) = tx_bindings t"
    using t(3) by (auto simp: bindings_ascend_iff intro!: sort_key_strict slots_binding_key)
  ultimately show ?thesis by (simp add: canonical_order_def)
qed


lemmas text_ascii = id_pattern_ascii symbol_pattern_ascii valid_digest_ascii valid_origin_ascii
  canonical_time_ascii

lemma ascii_consts:
  "ascii_only tx_v1" "ascii_only tx_v2" "ascii_only tx_v3" "ascii_only tx_v4" "ascii_only kind_auth"
  "ascii_only kind_reg" "ascii_only result_auth_v2" "ascii_only result_reg_v1"
  "ascii_only result_reg_v2" "ascii_only result_reg_v3" "ascii_only result_reg_v4"
  "ascii_only ''browsertools''"
  by code_simp+

lemma valid_state_ascii: "valid_state s \<Longrightarrow> ascii_only s"
  by (auto simp: valid_state_def byte_def)

lemma valid_schema_ascii: "valid_candidate_schema k s \<Longrightarrow> ascii_only k \<and> ascii_only s"
  by (auto simp: valid_candidate_schema_def byte_def split: if_splits)

lemma valid_failure_ascii: "valid_failure f \<Longrightarrow> ascii_only (fl_class f) \<and> ascii_only (fl_code f)"
  by (auto simp: valid_failure_def byte_def split: if_splits)

lemma valid_result_version_ascii: "valid_result_version s \<Longrightarrow> ascii_only s"
  by (auto simp: valid_result_version_def ascii_consts)

lemma keys_utf8:
  "list_all utf8_valid
     [''version'', ''id'', ''kind'', ''state'', ''candidates'', ''provenance'',
      ''credential_bindings'', ''session'', ''preparation'', ''promotion'', ''failure'',
      ''schema'', ''source_sha256'', ''review_sha256'', ''producer'', ''result_version'',
      ''result_sha256'', ''observed_at'', ''expires_at'', ''origins'', ''slot'', ''binding'',
      ''package_sha256'', ''qualification_sha256'', ''generation_sha256'', ''class'', ''code'', ''browsertools'']"
  by code_simp

lemmas key_utf8 [simp] = keys_utf8 [simplified]

lemmas text_utf8 = text_ascii [THEN ascii_utf8] valid_result_version_ascii [THEN ascii_utf8]

lemma transaction_printable:
  assumes "accepts (validate_transaction t)"
  shows "printable (transaction_json t)"
proof -
  note a = assms [unfolded validate_transaction_accepts]
  have v: "tx_version t \<in> {tx_v1, tx_v2, tx_v3, tx_v4}" and i: "id_pattern (tx_id t)"
    and k: "tx_kind t \<in> {kind_auth, kind_reg}" and st: "valid_state (tx_state t)"
    and cs: "accepts (validate_candidates (tx_kind t) (tx_candidates t))"
    and pv: "accepts (validate_provenance (tx_provenance t))"
    and bs: "accepts (validate_bindings (tx_bindings t))"
    and se: "if tx_kind t = kind_auth then symbol_pattern (tx_session t) else tx_session t = []"
    and lc: "accepts (validate_lifecycle t)"
    using a by blast+
  have head: "utf8_valid (tx_version t)" "utf8_valid (tx_kind t)"
    using v k by (auto simp: ascii_consts ascii_utf8)
  have head': "utf8_valid (tx_id t)" "utf8_valid (tx_state t)" "utf8_valid (tx_session t)"
    using se i st by (simp_all add: id_pattern_ascii valid_state_ascii symbol_pattern_ascii ascii_utf8
      split: if_splits)
  have "\<forall>c \<in> set (tx_candidates t). utf8_valid (ca_kind c) \<and> utf8_valid (ca_schema c)"
    using cs [unfolded validate_candidates_accepts] valid_schema_ascii ascii_utf8 by blast
  then have cands: "\<forall>c \<in> set (tx_candidates t). printable (candidate_json c)"
    using cs [unfolded validate_candidates_accepts]
    by (simp add: candidate_json_def text_utf8)
  have prov: "printable (provenance_json (tx_provenance t))"
    using pv [unfolded validate_provenance_accepts origins_ascend_iff]
    by (auto simp: provenance_json_def text_utf8)
  have binds: "\<forall>bs. tx_bindings t = Some bs \<longrightarrow> (\<forall>b \<in> set bs. printable (binding_json b))"
    using bs [unfolded validate_bindings_accepts bindings_ascend_iff]
    by (auto simp: binding_json_def text_utf8)
  have later: "\<forall>p. tx_preparation t = Some p \<longrightarrow> printable (preparation_json p)"
    "\<forall>p. tx_promotion t = Some p \<longrightarrow> printable (promotion_json p)"
    "\<forall>f. tx_failure t = Some f \<longrightarrow> printable (failure_json f)"
    using lc [unfolded validate_lifecycle_accepts]
    by (simp_all add: preparation_json_def promotion_json_def failure_json_def text_utf8
        valid_failure_ascii ascii_utf8)
  show ?thesis
    using head head' cands prov binds later
    by (auto simp: transaction_json_def omit_str_def optional_member_def split: option.splits)
qed

lemma json_fields_inj [simp]:
  "candidate_json c = candidate_json d \<longleftrightarrow> c = d"
  "provenance_json p = provenance_json q \<longleftrightarrow> p = q"
  "binding_json b = binding_json b' \<longleftrightarrow> b = b'"
  "preparation_json x = preparation_json y \<longleftrightarrow> x = y"
  "promotion_json m = promotion_json n \<longleftrightarrow> m = n"
  "failure_json f = failure_json g \<longleftrightarrow> f = g"
  by (auto simp: candidate_json_def provenance_json_def binding_json_def preparation_json_def
      promotion_json_def failure_json_def inj_map_eq_map inj_def)

lemma omit_str_members: "omit_str k s = omit_str k s' \<longleftrightarrow> s = s'"
  by (auto simp: omit_str_def)

text \<open>The layout determines the transaction: an absent member and a present one differ.\<close>

definition transaction_tail :: "transaction \<Rightarrow> (bytes \<times> json) list" where
  "transaction_tail t =
     omit_str ''session'' (tx_session t)
     @ optional_member ''preparation'' preparation_json (tx_preparation t)
     @ optional_member ''promotion'' promotion_json (tx_promotion t)
     @ optional_member ''failure'' failure_json (tx_failure t)"

lemma tail_lookup:
  "map_of (transaction_tail t) ''session'' = (if tx_session t = [] then None else Some (JStr (tx_session t)))"
  "map_of (transaction_tail t) ''preparation'' = map_option preparation_json (tx_preparation t)"
  "map_of (transaction_tail t) ''promotion'' = map_option promotion_json (tx_promotion t)"
  "map_of (transaction_tail t) ''failure'' = map_option failure_json (tx_failure t)"
  by (auto simp: transaction_tail_def omit_str_def optional_member_def map_add_def split: option.splits)

lemma map_option_inj: "(\<And>a b. f a = f b \<longleftrightarrow> a = b) \<Longrightarrow> map_option f x = map_option f y \<longleftrightarrow> x = y"
  by (cases x; cases y) auto

lemma transaction_json_inj: "transaction_json s = transaction_json t \<longleftrightarrow> s = t"
proof
  assume eq: "transaction_json s = transaction_json t"
  then have tail: "transaction_tail s = transaction_tail t"
    and same: "tx_version s = tx_version t" "tx_id s = tx_id t" "tx_kind s = tx_kind t"
    "tx_state s = tx_state t" "tx_provenance s = tx_provenance t"
    and lists: "map candidate_json (tx_candidates s) = map candidate_json (tx_candidates t)"
    "(case tx_bindings s of None \<Rightarrow> JNull | Some bs \<Rightarrow> JArr (map binding_json bs))
     = (case tx_bindings t of None \<Rightarrow> JNull | Some bs \<Rightarrow> JArr (map binding_json bs))"
    unfolding transaction_json_def transaction_tail_def [symmetric] by simp_all
  have "tx_candidates s = tx_candidates t" "tx_bindings s = tx_bindings t"
    using lists by (auto simp: inj_map_eq_map inj_def split: option.splits)
  moreover have "tx_session s = tx_session t" "tx_preparation s = tx_preparation t"
    "tx_promotion s = tx_promotion t" "tx_failure s = tx_failure t"
    using tail_lookup [of s] tail_lookup [of t] unfolding tail
    by (auto simp: map_option_inj split: if_splits)
  ultimately show "s = t" using same by simp
qed simp

subsection \<open>Canonical bytes and digests\<close>

lemma canonical_bytes_iff:
  "canonical_bytes t = Inr data \<longleftrightarrow>
     tx_bindings t \<noteq> None \<and> accepts (validate_transaction (canonical_order t))
     \<and> data = marshal (transaction_json (canonical_order t)) \<and> int (length data) \<le> tx_max_bytes"
  by (auto simp: canonical_bytes_def Let_def split: sum.splits)

lemma canonical_bytes_determine:
  assumes "canonical_bytes s = Inr a" "canonical_bytes t = Inr b"
  shows "a = b \<longleftrightarrow> canonical_order s = canonical_order t"
  using assms marshal_inj [OF transaction_printable transaction_printable]
  by (auto simp: canonical_bytes_iff transaction_json_inj)

text \<open>The identity of a transaction: everything but the lifecycle.\<close>

definition same_identity :: "transaction \<Rightarrow> transaction \<Rightarrow> bool" where
  "same_identity s t = (clear_lifecycle s = clear_lifecycle t)"

lemma identity_accepted:
  assumes "accepts (validate_transaction t)"
  shows "accepts (validate_transaction ((clear_lifecycle t)\<lparr>tx_state := ''candidate''\<rparr>))"
proof -
  let ?i = "(clear_lifecycle t)\<lparr>tx_state := ''candidate''\<rparr>"
  have "validate_version_composition ?i = validate_version_composition t"
    by (simp add: validate_version_composition_def clear_lifecycle_def Let_def)
  moreover have "accepts (validate_lifecycle ?i)" "valid_state ''candidate''"
    by (simp_all add: validate_lifecycle_def lifecycle_fields_def clear_lifecycle_def valid_state_def)
  ultimately show ?thesis
    using assms unfolding validate_transaction_accepts by (simp add: clear_lifecycle_def)
qed

lemma canonical_identity_eq:
  assumes "accepts (validate_transaction t)"
  shows "canonical_identity (clear_lifecycle t) =
    (let data = marshal (transaction_json ((clear_lifecycle t)\<lparr>tx_state := ''candidate''\<rparr>))
     in if tx_max_bytes < int (length data) then Inl TxTooLarge else Inr data)"
proof -
  let ?i = "(clear_lifecycle t)\<lparr>tx_state := ''candidate''\<rparr>"
  note ok = identity_accepted [OF assms]
  have "canonical_identity (clear_lifecycle t) = canonical_bytes ?i"
    by (cases t) (simp add: canonical_identity_def clear_lifecycle_def)
  moreover have "tx_bindings ?i \<noteq> None"
    using ok by (auto simp: validate_transaction_accepts validate_bindings_accepts)
  ultimately show ?thesis
    using ok accepted_canonical_order [OF ok]
    by (auto simp: canonical_bytes_def Let_def accepts_unit_iff split: sum.splits)
qed

lemma identity_bytes_eq:
  assumes "accepts (validate_transaction p)" "accepts (validate_transaction n)"
    and "canonical_identity (clear_lifecycle p) = Inr a" "canonical_identity (clear_lifecycle n) = Inr b"
  shows "a = b \<longleftrightarrow> same_identity p n"
proof -
  note ids = identity_accepted [OF assms(1)] identity_accepted [OF assms(2)]
  have "a = b \<longleftrightarrow>
      (clear_lifecycle p)\<lparr>tx_state := ''candidate''\<rparr> = (clear_lifecycle n)\<lparr>tx_state := ''candidate''\<rparr>"
    using assms(3,4) marshal_inj [OF transaction_printable [OF ids(1)] transaction_printable [OF ids(2)]]
    unfolding canonical_identity_eq [OF assms(1)] canonical_identity_eq [OF assms(2)]
    by (auto simp: Let_def transaction_json_inj split: if_splits)
  also have "\<dots> \<longleftrightarrow> same_identity p n"
    by (cases p; cases n) (auto simp: same_identity_def clear_lifecycle_def)
  finally show ?thesis .
qed

text \<open>
  C1. A transition between two snapshots is accepted exactly when both are valid, nothing but
  the lifecycle differs, the edge is one of the lifecycle's, a preparation appears only with the
  prepared state and never changes, and a promotion never changes. The comparison of canonical
  bytes in the code decides equality of the identities.
\<close>

theorem validate_transition_accepts:
  "accepts (validate_transition p n) \<longleftrightarrow>
     accepts (validate_transaction p) \<and> accepts (validate_transaction n)
     \<and> same_identity p n \<and> accepts (canonical_identity (clear_lifecycle p))
     \<and> allowed_transition (tx_state p) (tx_state n)
     \<and> (tx_preparation p = None \<and> (tx_preparation n = None \<or> tx_state n = ''prepared'')
        \<or> tx_preparation p \<noteq> None \<and> tx_preparation n = tx_preparation p)
     \<and> (tx_promotion p = None \<or> tx_promotion n = tx_promotion p)"
proof (cases "accepts (validate_transaction p) \<and> accepts (validate_transaction n)")
  case True
  then have ok: "accepts (validate_transaction p)" "accepts (validate_transaction n)" by auto
  then have step: "validate_transition p n =
      (case canonical_identity (clear_lifecycle p) of
         Inl e \<Rightarrow> Inl (TxPrevious e)
       | Inr a \<Rightarrow>
           (case canonical_identity (clear_lifecycle n) of
              Inl e \<Rightarrow> Inl (TxNext e)
            | Inr b \<Rightarrow>
                first_error
                  [fail_if (a \<noteq> b) TxIdentity, preparation_kept p n, promotion_kept p n,
                   fail_if (\<not> allowed_transition (tx_state p) (tx_state n)) TxEdge]))"
    by (simp add: validate_transition_def accepts_unit_iff)
  have kept: "accepts (preparation_kept p n) \<longleftrightarrow>
      tx_preparation p = None \<and> (tx_preparation n = None \<or> tx_state n = ''prepared'')
        \<or> tx_preparation p \<noteq> None \<and> tx_preparation n = tx_preparation p"
    "accepts (promotion_kept p n) \<longleftrightarrow> tx_promotion p = None \<or> tx_promotion n = tx_promotion p"
    by (auto simp: preparation_kept_def promotion_kept_def split: option.splits)
  show ?thesis
  proof (cases "canonical_identity (clear_lifecycle p)")
    case (Inl e)
    then show ?thesis by (simp add: step)
  next
    case a: (Inr a)
    show ?thesis
    proof (cases "canonical_identity (clear_lifecycle n)")
      case (Inl e)
      then have "\<not> same_identity p n" using a by (auto simp: same_identity_def)
      then show ?thesis using a Inl by (simp add: step)
    next
      case (Inr b)
      then show ?thesis
        using ok a identity_bytes_eq [OF ok a Inr] by (auto simp: step kept)
    qed
  qed
next
  case False
  then show ?thesis
    by (auto simp: validate_transition_def split: sum.splits)
qed

subsection \<open>Runs\<close>

text \<open>
  A lifecycle step: the pair of snapshots that the check of a transition accepts.
\<close>

inductive lifecycle_step :: "transaction \<Rightarrow> transaction \<Rightarrow> bool" where
  "validate_transition p n = Inr () \<Longrightarrow> lifecycle_step p n"

inductive_simps lifecycle_step_iff: "lifecycle_step p n"

definition final_state :: "transaction \<Rightarrow> bool" where
  "final_state t = (tx_state t \<in> {''promoted'', ''cancelled'', ''failed''})"

lemma lifecycle_step_facts:
  assumes "lifecycle_step p n"
  shows "accepts (validate_transaction p)" "accepts (validate_transaction n)"
    "clear_lifecycle p = clear_lifecycle n" "allowed_transition (tx_state p) (tx_state n)"
    "tx_preparation p \<noteq> None \<Longrightarrow> tx_preparation n = tx_preparation p"
    "\<not> final_state p"
proof -
  from assms have a: "accepts (validate_transition p n)"
    by (simp add: lifecycle_step_iff accepts_unit_iff)
  show "accepts (validate_transaction p)" "accepts (validate_transaction n)"
    "clear_lifecycle p = clear_lifecycle n" "allowed_transition (tx_state p) (tx_state n)"
    "tx_preparation p \<noteq> None \<Longrightarrow> tx_preparation n = tx_preparation p"
    using a by (auto simp: validate_transition_accepts same_identity_def)
  then show "\<not> final_state p" by (auto simp: final_state_def allowed_transition_def)
qed

subsection \<open>The runs of a transaction, and a sample\<close>

definition sample_transaction :: transaction where
  "sample_transaction =
     \<lparr>tx_version = tx_v1, tx_id = ''shop-login'', tx_kind = kind_auth, tx_state = ''candidate'',
      tx_candidates =
        [\<lparr>ca_kind = ''authentication'', ca_schema = ''uws.browser-authentication.1.0'',
          ca_source = ''sha256:'' @ replicate 64 CHR ''1'', ca_review = ''sha256:'' @ replicate 64 CHR ''2''\<rparr>,
         \<lparr>ca_kind = ''capability'', ca_schema = ''uws.browser.1.5'',
          ca_source = ''sha256:'' @ replicate 64 CHR ''3'', ca_review = ''sha256:'' @ replicate 64 CHR ''4''\<rparr>],
      tx_provenance =
        \<lparr>pv_producer = ''browsertools'', pv_result_version = result_auth_v2,
         pv_result_sha256 = ''sha256:'' @ replicate 64 CHR ''5'',
         pv_observed_at = ''2026-01-02T03:04:05Z'', pv_expires_at = ''2026-01-02T04:04:05.5Z'',
         pv_origins = [''https://a.example'', ''https://b.example:8443'']\<rparr>,
      tx_bindings = Some [\<lparr>cb_slot = ''password'', cb_binding = ''shop_password''\<rparr>],
      tx_session = ''shop'', tx_preparation = None, tx_promotion = None, tx_failure = None\<rparr>"

lemma sample_accepted: "validate_transaction sample_transaction = Inr ()"
  by code_simp

lemma sample_size: "int (length (marshal (transaction_json sample_transaction))) \<le> tx_max_bytes"
  by code_simp

lemma sample_accepts: "accepts (validate_transaction sample_transaction)"
  by (simp add: sample_accepted)

interpretation tx: recording_lifecycle lifecycle_step clear_lifecycle
  "\<lambda>t. accepts (validate_transaction t)" final_state tx_preparation
proof unfold_locales
  fix a b :: transaction and x
  assume ab: "lifecycle_step a b"
  show "clear_lifecycle b = clear_lifecycle a" using lifecycle_step_facts(3) [OF ab] by simp
  show "accepts (validate_transaction b)" by (rule lifecycle_step_facts(2) [OF ab])
  show "tx_preparation a = Some x \<Longrightarrow> tx_preparation b = Some x"
    using lifecycle_step_facts(5) [OF ab] by auto
next
  fix a b
  assume "final_state a"
  then show "\<not> lifecycle_step a b" using lifecycle_step_facts(6) by blast
qed

text \<open>
  C2. Along every run of accepted transitions the identity and provenance of a transaction
  never change, a recorded preparation is kept, every snapshot stays valid, and no transition
  leaves a promoted, cancelled or failed transaction.
\<close>

theorem transaction_runs:
  assumes "lifecycle_step\<^sup>*\<^sup>* s t" "accepts (validate_transaction s)"
  shows "clear_lifecycle t = clear_lifecycle s \<and> accepts (validate_transaction t)
    \<and> (tx_preparation s \<noteq> None \<longrightarrow> tx_preparation t = tx_preparation s)
    \<and> (final_state s \<longrightarrow> t = s)"
  using tx.run_ident [OF assms(1)] tx.run_good [OF assms] tx.run_ledger [OF assms(1)]
    tx.run_from_final [OF assms(1)] by auto

lemma sample_step: "lifecycle_step sample_transaction (sample_transaction\<lparr>tx_state := ''reviewed''\<rparr>)"
proof -
  let ?next = "sample_transaction\<lparr>tx_state := ''reviewed''\<rparr>"
  have next_ok: "accepts (validate_transaction ?next)" by code_simp
  have same: "same_identity sample_transaction ?next"
    by (simp add: same_identity_def clear_lifecycle_def)
  have "(clear_lifecycle sample_transaction)\<lparr>tx_state := ''candidate''\<rparr> = sample_transaction"
    by (simp add: clear_lifecycle_def sample_transaction_def)
  then have ident: "accepts (canonical_identity (clear_lifecycle sample_transaction))"
    using sample_size by (simp add: canonical_identity_eq [OF sample_accepts] Let_def)
  have edge: "allowed_transition (tx_state sample_transaction) (tx_state ?next)"
    "tx_preparation sample_transaction = None" "tx_preparation ?next = None"
    "tx_promotion sample_transaction = None"
    by code_simp+
  have "accepts (validate_transition sample_transaction ?next)"
    unfolding validate_transition_accepts using sample_accepts next_ok same ident edge by blast
  then show ?thesis by (simp add: lifecycle_step_iff accepts_unit_iff)
qed

theorem transaction_runs_witness:
  "clear_lifecycle (sample_transaction\<lparr>tx_state := ''reviewed''\<rparr>) = clear_lifecycle sample_transaction
   \<and> accepts (validate_transaction (sample_transaction\<lparr>tx_state := ''reviewed''\<rparr>))"
  using transaction_runs [OF r_into_rtranclp [where r = lifecycle_step, OF sample_step] sample_accepts]
  by simp

text \<open>
  C3. Two transactions have the same digest only when they are the same transaction up to the
  order of their candidates, bindings and origins, or when two texts collide under SHA-256.
\<close>

theorem transaction_digest_binds:
  assumes "transaction_digest s = Inr d" "transaction_digest t = Inr d"
  shows "canonical_order s = canonical_order t \<or> (\<exists>a b. a \<noteq> b \<and> sha256 a = sha256 b)"
proof -
  from assms obtain a b where ab: "canonical_bytes s = Inr a" "canonical_bytes t = Inr b"
    "sha256 a = sha256 b"
    by (auto simp: transaction_digest_def split: sum.splits)
  then show ?thesis using canonical_bytes_determine [OF ab(1,2)] by blast
qed

definition shuffled_transaction :: transaction where
  "shuffled_transaction =
     sample_transaction\<lparr>tx_candidates := rev (tx_candidates sample_transaction)\<rparr>"

lemma shuffled_order: "canonical_order shuffled_transaction = sample_transaction"
proof -
  have "canonical_order shuffled_transaction = canonical_order sample_transaction"
    by code_simp
  then show ?thesis by (simp only: accepted_canonical_order [OF sample_accepts])
qed

theorem transaction_digest_binds_witness:
  "\<exists>d. transaction_digest sample_transaction = Inr d \<and> transaction_digest shuffled_transaction = Inr d
     \<and> (canonical_order sample_transaction = canonical_order shuffled_transaction
        \<or> (\<exists>a b. a \<noteq> b \<and> sha256 a = sha256 b))"
proof -
  let ?data = "marshal (transaction_json sample_transaction)"
  have "canonical_bytes sample_transaction = Inr ?data" "canonical_bytes shuffled_transaction = Inr ?data"
    using sample_accepts sample_size accepted_canonical_order [OF sample_accepts] shuffled_order
    by (simp_all add: canonical_bytes_iff)
      (simp_all add: sample_transaction_def shuffled_transaction_def)
  then have d: "transaction_digest sample_transaction = Inr (''sha256:'' @ sha256 ?data)"
    "transaction_digest shuffled_transaction = Inr (''sha256:'' @ sha256 ?data)"
    by (simp_all add: transaction_digest_def)
  from transaction_digest_binds [OF d] d show ?thesis by blast
qed

end
