(* ===== verification/Authority.thy ===== *)
theory Authority
  imports Go_Url Go_Time Json_Text Digest
begin

text \<open>
  Package \<^verbatim>\<open>authority\<close> (\<^verbatim>\<open>authority/authority.go\<close>): the broker authority, its seal (a
  digest over its own encoding with the seal field blank), its validator and the validity
  window. The contract of a sealed record is a locale, interpreted on the authority.
\<close>

subsection \<open>Sealed records\<close>

text \<open>
  A record carries the digest of its own text in a field that is blank in that text.
\<close>

locale sealed_record =
  fixes seal :: "'r \<Rightarrow> bytes"
    and set_seal :: "bytes \<Rightarrow> 'r \<Rightarrow> 'r"
    and enc :: "'r \<Rightarrow> bytes"
    and clean :: "'r \<Rightarrow> bool"
  assumes seal_set: "seal (set_seal d r) = d"
    and set_set: "set_seal d (set_seal e r) = set_seal d r"
    and set_same: "set_seal (seal r) r = r"
    and enc_inj: "clean r \<Longrightarrow> clean s \<Longrightarrow>
      enc (set_seal [] r) = enc (set_seal [] s) \<Longrightarrow> set_seal [] r = set_seal [] s"
begin

text \<open>Two records with one seal are one record, or their texts collide.\<close>

lemma seal_binds:
  assumes "clean r" "clean s"
    and "seal r = sha256 (enc (set_seal [] r))" "seal s = sha256 (enc (set_seal [] s))"
    and "seal r = seal s"
  shows "r = s \<or> (\<exists>a b. a \<noteq> b \<and> sha256 a = sha256 b)"
proof (cases "enc (set_seal [] r) = enc (set_seal [] s)")
  case True
  then have "set_seal [] r = set_seal [] s" using assms by (intro enc_inj)
  then have "set_seal (seal r) (set_seal [] r) = set_seal (seal s) (set_seal [] s)"
    using assms(5) by simp
  then show ?thesis by (simp add: set_set set_same)
next
  case False
  with assms show ?thesis by metis
qed

lemma reseal:
  "seal (set_seal (sha256 (enc (set_seal [] r))) r)
   = sha256 (enc (set_seal [] (set_seal (sha256 (enc (set_seal [] r))) r)))"
  by (simp add: seal_set set_set)

end

subsection \<open>Types\<close>

record binding =
  bd_name :: bytes
  bd_revision :: bytes
  bd_kind :: bytes
  bd_in :: bytes
  bd_parameter :: bytes

record operation =
  op_step_id :: bytes
  op_operation_id :: bytes
  op_invocation_id :: bytes
  op_method :: bytes
  op_origin :: bytes
  op_constraints :: bytes
  op_bindings :: "binding list"

record authority =
  au_version :: bytes
  au_run_id :: bytes
  au_owner_id :: bytes
  au_agent_id :: bytes
  au_grant_id :: bytes
  au_grant_revision :: bytes
  au_occurrence_id :: bytes
  au_package :: bytes
  au_handoff :: bytes
  au_inputs :: bytes
  au_executor :: bytes
  au_policy :: bytes
  au_approved_at :: bytes
  au_expires_at :: bytes
  au_operations :: "operation list"

datatype authority_error =
    AuIdentity
  | AuRun
  | AuDigest
  | AuSeal
  | AuDeadline
  | AuCount
  | AuInventory
  | AuMethod
  | AuOrigin
  | AuBindingCount
  | AuBindings
  | AuNotCurrent

definition authority_version :: bytes where
  "authority_version = ''openudon.broker-authority.v1''"

definition transport_version :: bytes where
  "transport_version = ''udon.http-broker.v1''"

definition max_operations :: nat where
  "max_operations = 100"

subsection \<open>Encoding and seal\<close>

definition binding_members :: "binding \<Rightarrow> json" where
  "binding_members b =
     JObj [(''name'', JStr (bd_name b)), (''revision'', JStr (bd_revision b)),
           (''kind'', JStr (bd_kind b)), (''in'', JStr (bd_in b)),
           (''parameter'', JStr (bd_parameter b))]"

definition operation_members :: "operation \<Rightarrow> json" where
  "operation_members p =
     JObj ([(''step_id'', JStr (op_step_id p)), (''operation_id'', JStr (op_operation_id p)),
            (''invocation_id'', JStr (op_invocation_id p)), (''method'', JStr (op_method p)),
            (''origin'', JStr (op_origin p)), (''constraints_sha256'', JStr (op_constraints p))]
           @ (if op_bindings p = [] then []
              else [(''bindings'', JArr (map binding_members (op_bindings p)))]))"

definition authority_json :: "authority \<Rightarrow> json" where
  "authority_json a =
     JObj [(''version'', JStr (au_version a)), (''run_id'', JStr (au_run_id a)),
           (''owner_id'', JStr (au_owner_id a)), (''agent_id'', JStr (au_agent_id a)),
           (''grant_id'', JStr (au_grant_id a)),
           (''grant_revision_sha256'', JStr (au_grant_revision a)),
           (''occurrence_id'', JStr (au_occurrence_id a)),
           (''package_sha256'', JStr (au_package a)), (''handoff_sha256'', JStr (au_handoff a)),
           (''inputs_sha256'', JStr (au_inputs a)), (''executor_sha256'', JStr (au_executor a)),
           (''policy_sha256'', JStr (au_policy a)), (''approved_at'', JStr (au_approved_at a)),
           (''expires_at'', JStr (au_expires_at a)),
           (''operations'', JArr (map operation_members (au_operations a)))]"

definition authority_digest :: "authority \<Rightarrow> bytes" where
  "authority_digest a = sha256 (marshal (authority_json (a\<lparr>au_policy := []\<rparr>)))"

subsection \<open>Validation\<close>

definition identifier_char :: "char \<Rightarrow> bool" where
  "identifier_char c = (is_alnum c \<or> c \<in> set ''-_.'')"

definition is_identifier :: "bytes \<Rightarrow> bool" where
  "is_identifier s =
     (if s = [] \<or> 128 < length s then False else list_all identifier_char s)"

text \<open>The three tests on a digest that the source repeats.\<close>

definition strict_digest :: "bytes \<Rightarrow> bool" where
  "strict_digest d = (length d = 64 \<and> valid_sha256 d \<and> to_lower d = d)"

text \<open>\<^verbatim>\<open>http.CanonicalHeaderKey\<close>: text that is no header token is left alone.\<close>

definition upper_char :: "char \<Rightarrow> char" where
  "upper_char c = (if is_lower c then char_of (byte c - 32) else c)"

definition header_token :: "char \<Rightarrow> bool" where
  "header_token c = (is_alnum c \<or> c \<in> set ''!#$%&*+-.^_`|~'' \<or> byte c = 39)"

fun canonical_key :: "bool \<Rightarrow> bytes \<Rightarrow> bytes" where
  "canonical_key up [] = []"
| "canonical_key up (c # s) =
     (if up then upper_char c else lower_char c) # canonical_key (c = CHR ''-'') s"

definition canonical_header_key :: "bytes \<Rightarrow> bytes" where
  "canonical_header_key s = (if list_all header_token s then canonical_key True s else s)"

definition reserved_headers :: "bytes list" where
  "reserved_headers =
     [''authorization'', ''proxy-authorization'', ''cookie'', ''set-cookie'', ''connection'',
      ''proxy-connection'', ''transfer-encoding'', ''upgrade'', ''trailer'', ''te'', ''host'',
      ''content-length'']"

definition validate_binding :: "binding \<Rightarrow> bool" where
  "validate_binding b =
     (if \<not> is_identifier (bd_name b) \<or> \<not> strict_digest (bd_revision b) then False
      else if bd_kind b = ''bearer'' \<and> bd_in b = ''header'' \<and> bd_parameter b = ''Authorization''
        then True
      else if bd_kind b \<noteq> ''api_key'' \<or> (bd_in b \<noteq> ''header'' \<and> bd_in b \<noteq> ''query'')
              \<or> \<not> is_identifier (bd_parameter b) then False
      else if bd_in b = ''header'' then
        canonical_header_key (bd_parameter b) = bd_parameter b
        \<and> to_lower (bd_parameter b) \<notin> set reserved_headers
      else True)"

definition location :: "binding \<Rightarrow> bytes" where
  "location b = bd_in b @ '':'' @ to_lower (bd_parameter b)"

fun scan_bindings :: "bytes list \<Rightarrow> bytes list \<Rightarrow> binding list \<Rightarrow> bool" where
  "scan_bindings names locations [] = True"
| "scan_bindings names locations (b # bs) =
     (if \<not> validate_binding b \<or> bd_name b \<in> set names \<or> location b \<in> set locations then False
      else scan_bindings (bd_name b # names) (location b # locations) bs)"

definition reviewed_origin :: "bytes \<Rightarrow> bool" where
  "reviewed_origin s =
     (case parse_url s of
        None \<Rightarrow> False
      | Some u \<Rightarrow>
          length s \<le> 2048 \<and> (u_scheme u = ''http'' \<or> u_scheme u = ''https'') \<and> hostname u \<noteq> []
          \<and> \<not> u_user u \<and> u_path u = [] \<and> u_raw_query u = [] \<and> \<not> u_force_query u
          \<and> u_fragment u = [] \<and> \<not> list_ex (\<lambda>c. byte c \<in> {13, 10, 0}) s)"

definition broker_methods :: "bytes list" where
  "broker_methods = [''GET'', ''HEAD'', ''POST'', ''PUT'', ''PATCH'', ''DELETE'', ''OPTIONS'']"

definition validate_operation :: "operation \<Rightarrow> authority_error + unit" where
  "validate_operation p =
     first_error
       [fail_if (op_method p \<notin> set broker_methods) AuMethod,
        fail_if (\<not> reviewed_origin (op_origin p)) AuOrigin,
        fail_if (16 < length (op_bindings p)) AuBindingCount,
        fail_if (\<not> scan_bindings [] [] (op_bindings p)) AuBindings]"

definition operation_ids_ok :: "operation \<Rightarrow> bool" where
  "operation_ids_ok p =
     (is_identifier (op_step_id p) \<and> is_identifier (op_operation_id p) \<and> is_identifier (op_invocation_id p)
      \<and> strict_digest (op_constraints p))"

fun scan_operations ::
  "bytes list \<Rightarrow> bytes list \<Rightarrow> bytes list \<Rightarrow> operation list \<Rightarrow> authority_error + unit"
where
  "scan_operations ss os vs [] = Inr ()"
| "scan_operations ss os vs (p # ps) =
     (if \<not> operation_ids_ok p \<or> op_step_id p \<in> set ss \<or> op_operation_id p \<in> set os
         \<or> op_invocation_id p \<in> set vs then Inl AuInventory
      else case validate_operation p of
        Inl e \<Rightarrow> Inl e
      | Inr _ \<Rightarrow>
          scan_operations (op_step_id p # ss) (op_operation_id p # os) (op_invocation_id p # vs) ps)"

definition authority_window :: "authority \<Rightarrow> (int \<times> int) option" where
  "authority_window a =
     (case parse_instant (au_approved_at a) of
        None \<Rightarrow> None
      | Some x \<Rightarrow>
          (case parse_instant (au_expires_at a) of
             None \<Rightarrow> None
           | Some y \<Rightarrow> if x < y then Some (x, y) else None))"

definition authority_digests :: "authority \<Rightarrow> bytes list" where
  "authority_digests a =
     [au_grant_revision a, au_package a, au_handoff a, au_inputs a, au_executor a, au_policy a]"

definition run_id_char :: "char \<Rightarrow> bool" where
  "run_id_char c = (is_digit c \<or> in_range 97 102 c)"

definition validate_authority :: "authority \<Rightarrow> authority_error + unit" where
  "validate_authority a =
     first_error
       [fail_if (au_version a \<noteq> authority_version \<or> \<not> is_identifier (au_owner_id a)
                 \<or> \<not> is_identifier (au_agent_id a) \<or> \<not> is_identifier (au_grant_id a)
                 \<or> \<not> is_identifier (au_occurrence_id a) \<or> length (au_run_id a) < 16
                 \<or> 64 < length (au_run_id a)) AuIdentity,
        fail_if (\<not> list_all run_id_char (au_run_id a)) AuRun,
        fail_if (\<not> list_all strict_digest (authority_digests a)) AuDigest,
        fail_if (au_policy a \<noteq> authority_digest a) AuSeal,
        fail_if (authority_window a = None) AuDeadline,
        fail_if (au_operations a = [] \<or> max_operations < length (au_operations a)) AuCount,
        scan_operations [] [] [] (au_operations a)]"

text \<open>Validity at an instant: the approval has begun and the deadline has not been reached.\<close>

definition validate_authority_at :: "authority \<Rightarrow> int \<Rightarrow> authority_error + unit" where
  "validate_authority_at a now =
     (case validate_authority a of
        Inl e \<Rightarrow> Inl e
      | Inr _ \<Rightarrow>
          (case authority_window a of
             None \<Rightarrow> Inl AuNotCurrent
           | Some (approved, expires) \<Rightarrow>
               fail_if (now < approved \<or> \<not> now < expires) AuNotCurrent))"

subsection \<open>Accepted authorities\<close>

lemma strict_digest_plain: "strict_digest d \<longleftrightarrow> plain_sha256 d"
proof
  assume d: "strict_digest d"
  then have v: "length d = 64" "hex_decodable (trim_space d)" "length (trim_space d) = 64"
    by (auto simp: strict_digest_def valid_sha256_def valid_hex_def Let_def)
  then have "trim_space d = d" by (intro trim_space_same_length) simp
  with v d show "plain_sha256 d"
    by (auto simp: plain_sha256_def strict_digest_def hex_decodable_def to_lower_id_iff
        list_all_iff lower_hex_iff)
next
  assume "plain_sha256 d"
  then show "strict_digest d"
    by (auto simp: strict_digest_def plain_sha256_valid) 
      (auto simp: plain_sha256_def to_lower_id_iff list_all_iff lower_hex_iff)
qed


lemma strict_digest_ascii: "strict_digest d \<Longrightarrow> list_all (\<lambda>c. byte c < 128) d"
  by (auto simp: strict_digest_plain plain_sha256_def list_all_iff class_defs)

lemma authority_digest_ignores_seal [simp]:
  "authority_digest (a\<lparr>au_policy := d\<rparr>) = authority_digest a"
  by (simp add: authority_digest_def)

lemma scan_operations_iff:
  "scan_operations ss os vs ps = Inr () \<longleftrightarrow>
     (\<forall>p \<in> set ps. operation_ids_ok p \<and> validate_operation p = Inr ())
     \<and> fresh ss (map op_step_id ps) \<and> fresh os (map op_operation_id ps)
     \<and> fresh vs (map op_invocation_id ps)"
proof (induction ps arbitrary: ss os vs)
  case (Cons p ps)
  show ?case
    by (cases "validate_operation p") (auto simp: Cons.IH fresh_Cons)
qed simp

lemma scan_bindings_iff:
  "scan_bindings ns ls bs \<longleftrightarrow>
     (\<forall>b \<in> set bs. validate_binding b) \<and> fresh ns (map bd_name bs) \<and> fresh ls (map location bs)"
  by (induction bs arbitrary: ns ls) (auto simp: fresh_Cons)

lemma validate_authority_accepts:
  "validate_authority a = Inr () \<longleftrightarrow>
     au_version a = authority_version \<and> is_identifier (au_owner_id a) \<and> is_identifier (au_agent_id a)
     \<and> is_identifier (au_grant_id a) \<and> is_identifier (au_occurrence_id a)
     \<and> 16 \<le> length (au_run_id a) \<and> length (au_run_id a) \<le> 64
     \<and> list_all run_id_char (au_run_id a) \<and> list_all strict_digest (authority_digests a)
     \<and> au_policy a = authority_digest a \<and> authority_window a \<noteq> None
     \<and> au_operations a \<noteq> [] \<and> length (au_operations a) \<le> max_operations
     \<and> scan_operations [] [] [] (au_operations a) = Inr ()"
  unfolding validate_authority_def accepts_unit_iff [symmetric]
  by (auto simp: not_less)

subsection \<open>The seal binds the authority\<close>

text \<open>Text the encoder keeps apart: well-formed UTF-8, which decoded documents always are.\<close>

definition clean_authority :: "authority \<Rightarrow> bool" where
  "clean_authority a = printable (authority_json a)"

lemma binding_members_inj [simp]: "binding_members b = binding_members c \<longleftrightarrow> b = c"
  by (auto simp: binding_members_def)

lemma operation_members_inj [simp]: "operation_members p = operation_members q \<longleftrightarrow> p = q"
  by (auto simp: operation_members_def inj_map_eq_map inj_def split: if_splits)

lemma authority_json_inj: "authority_json a = authority_json b \<longleftrightarrow> a = b"
  by (auto simp: authority_json_def inj_map_eq_map inj_def)

lemma clean_blank: "clean_authority a \<Longrightarrow> printable (authority_json (a\<lparr>au_policy := []\<rparr>))"
  by (simp add: clean_authority_def authority_json_def utf8_valid.simps [of "[]"])

interpretation au: sealed_record au_policy "\<lambda>d a. a\<lparr>au_policy := d\<rparr>"
  "\<lambda>a. marshal (authority_json a)" clean_authority
  by unfold_locales (simp_all add: clean_blank marshal_inj authority_json_inj)

lemma identifier_ascii: "is_identifier s \<Longrightarrow> ascii_text s"
proof -
  have "identifier_char c \<Longrightarrow> byte c < 128" for c
    by (auto simp: identifier_char_def alnum_ascii)
  then show "is_identifier s \<Longrightarrow> ascii_text s"
    by (auto simp: is_identifier_def split: if_splits intro: ascii_text_class)
qed

lemma strict_digest_utf8: "strict_digest d \<Longrightarrow> utf8_valid d"
  using strict_digest_ascii by (auto simp: ascii_text_def intro!: ascii_text_utf8)

lemma identifier_utf8: "is_identifier s \<Longrightarrow> utf8_valid s"
  by (intro ascii_text_utf8 identifier_ascii)

lemma binding_printable: "validate_binding b \<Longrightarrow> printable (binding_members b)"
  by (auto simp: validate_binding_def binding_members_def identifier_utf8 strict_digest_utf8
      split: if_splits)

lemma operation_printable:
  assumes "operation_ids_ok p" "validate_operation p = Inr ()" "utf8_valid (op_origin p)"
  shows "printable (operation_members p)"
proof -
  from assms(2) have "op_method p \<in> set broker_methods" "scan_bindings [] [] (op_bindings p)"
    by (simp_all add: validate_operation_def accepts_unit_iff [symmetric])
  then have "utf8_valid (op_method p)" "\<forall>b \<in> set (op_bindings p). printable (binding_members b)"
    by (auto simp: broker_methods_def scan_bindings_iff binding_printable)
  with assms(1,3) show ?thesis
    by (auto simp: operation_members_def operation_ids_ok_def identifier_utf8 strict_digest_utf8)
qed

lemma accepted_clean:
  assumes "validate_authority a = Inr ()" "\<forall>p \<in> set (au_operations a). utf8_valid (op_origin p)"
  shows "clean_authority a"
proof -
  note a = assms(1) [unfolded validate_authority_accepts]
  have "utf8_valid (au_run_id a)"
    using a by (intro ascii_text_utf8 ascii_text_class [where P = run_id_char])
      (auto simp: run_id_char_def class_defs)
  moreover obtain t u where "parse_time (au_approved_at a) = Some t" "parse_time (au_expires_at a) = Some u"
    using a by (auto simp: authority_window_def parse_instant_def split: option.splits)
  then have "utf8_valid (au_approved_at a)" "utf8_valid (au_expires_at a)"
    by (auto intro: ascii_text_utf8 parse_time_ascii)
  moreover have "\<forall>d \<in> set (authority_digests a). utf8_valid d"
    using a by (auto simp: list_all_iff strict_digest_utf8)
  moreover have "\<forall>p \<in> set (au_operations a). printable (operation_members p)"
    using a assms(2) by (auto simp: scan_operations_iff operation_printable)
  ultimately show ?thesis
    using a by (simp add: clean_authority_def authority_json_def identifier_utf8 authority_digests_def
        authority_version_def)
qed

text \<open>
  C10. The policy digest of a valid broker authority binds all of it: two valid authorities with
  the same policy digest, the origins of whose operations are valid UTF-8, are the same authority,
  or two texts collide under SHA-256. Validation restricts every other field to ASCII or
  UTF-8 but lets any byte above 127 into the host of an origin, and \<^verbatim>\<open>json.Marshal\<close> writes a byte
  that is not UTF-8 as the replacement character, so the condition on origins is needed.
\<close>

theorem authority_seal_binds:
  assumes "validate_authority a = Inr ()" "validate_authority b = Inr ()"
    and "au_policy a = au_policy b"
    and "\<forall>p \<in> set (au_operations a) \<union> set (au_operations b). utf8_valid (op_origin p)"
  shows "a = b \<or> (\<exists>x y. x \<noteq> y \<and> sha256 x = sha256 y)"
proof (rule au.seal_binds)
  show "clean_authority a" "clean_authority b" using assms by (auto intro: accepted_clean)
  show "au_policy a = sha256 (marshal (authority_json (a\<lparr>au_policy := []\<rparr>)))"
    "au_policy b = sha256 (marshal (authority_json (b\<lparr>au_policy := []\<rparr>)))"
    using assms(1,2) by (auto simp: validate_authority_accepts authority_digest_def)
  show "au_policy a = au_policy b" by (rule assms(3))
qed

definition blank_authority :: authority where
  "blank_authority =
     \<lparr>au_version = authority_version, au_run_id = ''0123456789abcdef'', au_owner_id = ''owner'',
      au_agent_id = ''agent'', au_grant_id = ''grant'', au_grant_revision = replicate 64 CHR ''1'',
      au_occurrence_id = ''first'', au_package = replicate 64 CHR ''2'',
      au_handoff = replicate 64 CHR ''3'', au_inputs = replicate 64 CHR ''4'',
      au_executor = replicate 64 CHR ''5'', au_policy = [],
      au_approved_at = ''2026-01-02T03:04:05Z'', au_expires_at = ''2026-01-02T04:04:05Z'',
      au_operations =
        [\<lparr>op_step_id = ''send'', op_operation_id = ''mail.send'', op_invocation_id = ''send'',
          op_method = ''POST'', op_origin = ''https://api.example'',
          op_constraints = replicate 64 CHR ''6'',
          op_bindings =
            [\<lparr>bd_name = ''token'', bd_revision = replicate 64 CHR ''7'', bd_kind = ''bearer'',
              bd_in = ''header'', bd_parameter = ''Authorization''\<rparr>]\<rparr>]\<rparr>"

definition sample_authority :: authority where
  "sample_authority = blank_authority\<lparr>au_policy := authority_digest blank_authority\<rparr>"

lemma sample_authority_valid: "validate_authority sample_authority = Inr ()"
proof -
  have ops: "scan_operations [] [] [] (au_operations blank_authority) = Inr ()" by code_simp
  have times: "authority_window blank_authority \<noteq> None" by code_simp
  have digs: "list_all strict_digest
       [au_grant_revision blank_authority, au_package blank_authority, au_handoff blank_authority,
        au_inputs blank_authority, au_executor blank_authority]" by code_simp
  have ids: "au_version blank_authority = authority_version \<and> is_identifier (au_owner_id blank_authority)
     \<and> is_identifier (au_agent_id blank_authority) \<and> is_identifier (au_grant_id blank_authority)
     \<and> is_identifier (au_occurrence_id blank_authority) \<and> list_all run_id_char (au_run_id blank_authority)
     \<and> au_operations blank_authority \<noteq> []" by code_simp
  have "strict_digest (authority_digest blank_authority)"
    by (simp add: strict_digest_plain authority_digest_def sha256_plain)
  moreover have "authority_window sample_authority = authority_window blank_authority"
    by (simp add: authority_window_def sample_authority_def cong: option.case_cong)
  ultimately show ?thesis
    using ops times digs ids
    by (simp add: validate_authority_accepts sample_authority_def authority_digests_def max_operations_def)
      (simp add: blank_authority_def)
qed

theorem authority_seal_binds_witness:
  "sample_authority = sample_authority\<lparr>au_policy := authority_digest sample_authority\<rparr>
   \<or> (\<exists>x y. x \<noteq> y \<and> sha256 x = sha256 y)"
proof -
  have eq: "sample_authority\<lparr>au_policy := authority_digest sample_authority\<rparr> = sample_authority"
    by (simp add: sample_authority_def)
  show ?thesis
    using authority_seal_binds [OF sample_authority_valid sample_authority_valid]
    unfolding eq by (simp add: sample_authority_def blank_authority_def)
qed

end
