(* ===== verification/Approval.thy ===== *)
theory Approval
  imports Authority
begin

text \<open>
  Package \<^verbatim>\<open>approval\<close> (\<^verbatim>\<open>approval/approval.go\<close>): the reviewer's approval of a package for a
  tier, with or without a broker authority inside. The clock is a parameter.
\<close>

record approval =
  ap_version :: bytes
  ap_scope :: bytes
  ap_state :: bytes
  ap_reviewer :: bytes
  ap_approved_at :: bytes
  ap_expires_at :: bytes
  ap_package :: bytes
  ap_notes :: bytes
  ap_broker :: "authority option"

datatype approval_error =
    ApVersion
  | ApBroker
  | ApScope
  | ApReviewer
  | ApApprovedAt
  | ApExpiresAt
  | ApExpired
  | ApPackage
  | ApTierName
  | ApTierState

definition approval_v1 :: bytes where "approval_v1 = ''openudon.approval.v1''"
definition approval_v2 :: bytes where "approval_v2 = ''openudon.approval.v2''"

definition validate_tier_state :: "bytes \<Rightarrow> bytes \<Rightarrow> approval_error + unit" where
  "validate_tier_state tier st =
     (if tier = ''sandbox'' then
        (if st = ''approved_for_sandbox'' \<or> st = ''approved_for_production'' then Inr ()
         else Inl ApTierState)
      else if tier = ''production'' then
        (if st = ''approved_for_production'' then Inr () else Inl ApTierState)
      else Inl ApTierName)"

definition broker_matches :: "approval \<Rightarrow> bytes \<Rightarrow> int \<Rightarrow> bool" where
  "broker_matches a digest now =
     (case ap_broker a of
        None \<Rightarrow> True
      | Some b \<Rightarrow>
          accepts (validate_authority_at b now) \<and> au_package b = digest
          \<and> au_approved_at b = ap_approved_at a \<and> au_expires_at b = ap_expires_at a)"

definition check_expiry :: "approval \<Rightarrow> int \<Rightarrow> approval_error + unit" where
  "check_expiry a now =
     (if trim_space (ap_expires_at a) = [] then Inr ()
      else case parse_instant (ap_expires_at a) of
        None \<Rightarrow> Inl ApExpiresAt
      | Some e \<Rightarrow> fail_if (\<not> now < e) ApExpired)"

definition validate_approval ::
  "approval \<Rightarrow> bytes \<Rightarrow> bytes \<Rightarrow> bytes \<Rightarrow> int \<Rightarrow> approval_error + unit" where
  "validate_approval a scope digest tier now =
     first_error
       [fail_if ((ap_version a \<noteq> approval_v1 \<or> ap_broker a \<noteq> None)
                 \<and> (ap_version a \<noteq> approval_v2 \<or> ap_broker a = None)) ApVersion,
        fail_if (\<not> broker_matches a digest now) ApBroker,
        fail_if (ap_scope a \<noteq> scope) ApScope,
        fail_if (trim_space (ap_reviewer a) = []) ApReviewer,
        fail_if (parse_instant (ap_approved_at a) = None) ApApprovedAt,
        check_expiry a now,
        fail_if (ap_package a \<noteq> digest) ApPackage,
        validate_tier_state tier (ap_state a)]"

lemma tier_accepts:
  "accepts (validate_tier_state tier st) \<longleftrightarrow>
     tier = ''sandbox'' \<and> st \<in> {''approved_for_sandbox'', ''approved_for_production''}
     \<or> tier = ''production'' \<and> st = ''approved_for_production''"
  by (simp add: validate_tier_state_def)

lemma expiry_accepts:
  "accepts (check_expiry a now) \<longleftrightarrow>
     trim_space (ap_expires_at a) = [] \<or> (\<exists>e. parse_instant (ap_expires_at a) = Some e \<and> now < e)"
  by (auto simp: check_expiry_def split: option.splits)

text \<open>The authority inside a broker approval, as far as the approval requires it.\<close>

lemma broker_accepts:
  "broker_matches a digest now \<and> ap_broker a = Some b \<longleftrightarrow>
     ap_broker a = Some b \<and> validate_authority b = Inr () \<and> au_package b = digest
     \<and> au_approved_at b = ap_approved_at a \<and> au_expires_at b = ap_expires_at a
     \<and> (\<exists>approved expires. authority_window b = Some (approved, expires)
          \<and> approved \<le> now \<and> now < expires \<and> parse_instant (ap_expires_at a) = Some expires)"
proof -
  have "accepts (validate_authority_at b now) \<longleftrightarrow> validate_authority b = Inr ()
      \<and> (\<exists>approved expires. authority_window b = Some (approved, expires) \<and> approved \<le> now \<and> now < expires)"
    by (auto simp: validate_authority_at_def split: sum.splits option.splits)
  moreover have "authority_window b = Some (x, y) \<Longrightarrow> parse_instant (au_expires_at b) = Some y" for x y
    by (auto simp: authority_window_def split: option.splits if_splits)
  ultimately show ?thesis by (fastforce simp: broker_matches_def)
qed

text \<open>
  C11. An approval is accepted for a package, a scope and a tier exactly when it is of that
  package and scope, names a reviewer and an instant of approval, has not expired, and is in a
  state of the tier: the sandbox takes an approval for the sandbox or for production, production
  takes an approval for production only, and there is no third tier. A first version carries no
  broker. A broker approval carries the sealed authority of the same package with the same
  instants, current at that moment, and the expiry is then mandatory.
\<close>

theorem approval_authorizes:
  "validate_approval a scope digest tier now = Inr () \<longleftrightarrow>
     ap_scope a = scope \<and> ap_package a = digest \<and> trim_space (ap_reviewer a) \<noteq> []
     \<and> (\<exists>t. parse_instant (ap_approved_at a) = Some t)
     \<and> (trim_space (ap_expires_at a) = [] \<or> (\<exists>e. parse_instant (ap_expires_at a) = Some e \<and> now < e))
     \<and> (tier = ''sandbox'' \<and> ap_state a \<in> {''approved_for_sandbox'', ''approved_for_production''}
        \<or> tier = ''production'' \<and> ap_state a = ''approved_for_production'')
     \<and> (ap_version a = ''openudon.approval.v1'' \<and> ap_broker a = None
        \<or> ap_version a = ''openudon.approval.v2''
          \<and> (\<exists>b approved expires. ap_broker a = Some b \<and> validate_authority b = Inr ()
               \<and> au_package b = digest \<and> au_approved_at b = ap_approved_at a
               \<and> au_expires_at b = ap_expires_at a \<and> authority_window b = Some (approved, expires)
               \<and> approved \<le> now \<and> now < expires \<and> parse_instant (ap_expires_at a) = Some expires))"
proof (cases "ap_broker a")
  case None
  then show ?thesis
    unfolding accepts_unit_iff [symmetric] validate_approval_def
    by (auto simp: approval_v1_def broker_matches_def tier_accepts expiry_accepts)
next
  case (Some b)
  then show ?thesis
    using broker_accepts [of a digest now b]
    unfolding accepts_unit_iff [symmetric] validate_approval_def
    by (auto simp: approval_v2_def tier_accepts expiry_accepts)
qed

definition sample_approval :: approval where
  "sample_approval =
     \<lparr>ap_version = approval_v2, ap_scope = ''mail'', ap_state = ''approved_for_sandbox'',
      ap_reviewer = ''Ada'', ap_approved_at = au_approved_at sample_authority,
      ap_expires_at = au_expires_at sample_authority, ap_package = au_package sample_authority,
      ap_notes = [], ap_broker = Some sample_authority\<rparr>"

definition sample_now :: int where
  "sample_now = the (parse_instant ''2026-01-02T03:30:00Z'')"

lemma sample_window:
  "\<exists>x y. authority_window sample_authority = Some (x, y) \<and> x \<le> sample_now \<and> sample_now < y"
proof -
  have "case authority_window blank_authority of None \<Rightarrow> False | Some (x, y) \<Rightarrow> x \<le> sample_now \<and> sample_now < y"
    by code_simp
  moreover have "authority_window sample_authority = authority_window blank_authority"
    by (simp add: authority_window_def sample_authority_def cong: option.case_cong)
  ultimately show ?thesis by (auto split: option.splits)
qed

lemma sample_approval_valid:
  "validate_approval sample_approval ''mail'' (au_package sample_authority) ''sandbox'' sample_now = Inr ()"
proof -
  from sample_window obtain x y where w: "authority_window sample_authority = Some (x, y)"
    "x \<le> sample_now" "sample_now < y" by blast
  then have at: "accepts (validate_authority_at sample_authority sample_now)"
    by (simp add: validate_authority_at_def sample_authority_valid)
  from w have times: "parse_instant (au_approved_at sample_authority) = Some x"
    "parse_instant (au_expires_at sample_authority) = Some y"
    by (auto simp: authority_window_def split: option.splits if_splits)
  have "trim_space ''Ada'' \<noteq> []" by code_simp
  with at times w(3) have "accepts (validate_approval sample_approval ''mail'' (au_package sample_authority) ''sandbox'' sample_now)"
    by (simp add: validate_approval_def sample_approval_def broker_matches_def tier_accepts expiry_accepts)
  then show ?thesis by (simp add: accepts_unit_iff)
qed

theorem approval_authorizes_witness:
  "ap_package sample_approval = au_package sample_authority
   \<and> (\<exists>b approved expires. ap_broker sample_approval = Some b \<and> validate_authority b = Inr ()
        \<and> authority_window b = Some (approved, expires) \<and> approved \<le> sample_now \<and> sample_now < expires)"
proof -
  have "ap_version sample_approval \<noteq> ''openudon.approval.v1''"
    by (simp add: sample_approval_def approval_v2_def)
  with sample_approval_valid [unfolded approval_authorizes] show ?thesis by blast
qed

end
