(* ===== verification/Json_Parsed.thy ===== *)
theory Json_Parsed
  imports Json_Text
begin

text \<open>
  What parsing yields: every string of a parsed document is well-formed UTF-8 and every number
  a literal of the grammar, so a parsed document prints faithfully.
\<close>

subsection \<open>Runes\<close>

definition is_rune :: "bytes \<Rightarrow> bool" where
  "is_rune p = (p \<noteq> [] \<and> utf8_len p = length p)"

lemma utf8_valid_rune: "is_rune p \<Longrightarrow> utf8_valid (p @ q) \<longleftrightarrow> utf8_valid q"
proof -
  assume p: "is_rune p"
  then have "utf8_len (p @ q) = length p"
    using utf8_len_append [of p q] by (simp add: is_rune_def)
  with p show ?thesis by (subst utf8_valid.simps) (auto simp: is_rune_def)
qed

lemma is_rune_take: "0 < utf8_len s \<Longrightarrow> is_rune (take (utf8_len s) s)"
  using utf8_len_append [of s "[]"] utf8_len_le [of s] by (auto simp: is_rune_def)

text \<open>The shapes of two, three and four bytes, over the digits of the rune in base 64.\<close>

lemma is_rune_shapes:
  "0 \<le> a \<Longrightarrow> a < 128 \<Longrightarrow> is_rune (map char_of [a])"
  "2 \<le> a \<Longrightarrow> a < 32 \<Longrightarrow> 0 \<le> b \<Longrightarrow> b < 64 \<Longrightarrow> is_rune (map char_of [192 + a, 128 + b])"
  "0 \<le> a \<Longrightarrow> a < 16 \<Longrightarrow> 0 \<le> b \<Longrightarrow> b < 64 \<Longrightarrow> 0 \<le> c \<Longrightarrow> c < 64 \<Longrightarrow>
     (a = 0 \<Longrightarrow> 32 \<le> b) \<Longrightarrow> (a = 13 \<Longrightarrow> b < 32) \<Longrightarrow>
     is_rune (map char_of [224 + a, 128 + b, 128 + c])"
  "0 \<le> a \<Longrightarrow> a < 5 \<Longrightarrow> 0 \<le> b \<Longrightarrow> b < 64 \<Longrightarrow> 0 \<le> c \<Longrightarrow> c < 64 \<Longrightarrow> 0 \<le> d \<Longrightarrow> d < 64 \<Longrightarrow>
     (a = 0 \<Longrightarrow> 16 \<le> b) \<Longrightarrow> (a = 4 \<Longrightarrow> b < 16) \<Longrightarrow>
     is_rune (map char_of [240 + a, 128 + b, 128 + c, 128 + d])"
  for a b c d :: int
  by (auto simp: is_rune_def in_range_def utf8_len.simps)

lemma base64:
  "0 \<le> x mod 64" "x mod 64 < 64" "x = 64 * (x div 64) + x mod 64" for x :: int
  by simp_all

lemma is_rune_encode:
  assumes "0 \<le> r" "r < 1114112" "\<not> (55296 \<le> r \<and> r \<le> 57343)"
  shows "is_rune (encode_rune r)"
proof -
  define a b c where "a = r mod 64" and "b = r div 64 mod 64" and "c = r div 64 div 64 mod 64"
  define d where "d = r div 64 div 64 div 64"
  have q: "r div 4096 = r div 64 div 64" "r div 262144 = r div 64 div 64 div 64"
    using assms(1) by (simp_all add: zdiv_zmult2_eq [symmetric])
  have bounds: "0 \<le> a" "a < 64" "0 \<le> b" "b < 64" "0 \<le> c" "c < 64"
    by (simp_all add: a_def b_def c_def)
  have r: "r = 64 * (r div 64) + a" "r div 64 = 64 * (r div 64 div 64) + b"
    "r div 64 div 64 = 64 * d + c" by (simp_all add: a_def b_def c_def d_def)
  consider "r < 128" | "128 \<le> r" "r < 2048" | "2048 \<le> r" "r < 65536" | "65536 \<le> r" by linarith
  then show ?thesis
  proof cases
    case 1
    then show ?thesis using is_rune_shapes(1) [of r] assms(1) by (simp add: encode_rune_def)
  next
    case 2
    have "is_rune (map char_of [192 + r div 64, 128 + a])"
      using 2 r(1) bounds by (intro is_rune_shapes(2)) linarith+
    then show ?thesis using 2 by (simp only: encode_rune_def a_def) simp
  next
    case 3
    have "is_rune (map char_of [224 + r div 64 div 64, 128 + b, 128 + a])"
      using 3 r bounds assms(3) by (intro is_rune_shapes(3)) linarith+
    then show ?thesis using 3 by (simp only: encode_rune_def a_def b_def q) simp
  next
    case 4
    have "is_rune (map char_of [240 + d, 128 + c, 128 + b, 128 + a])"
      using 4 r bounds assms(2) by (intro is_rune_shapes(4)) linarith+
    then show ?thesis using 4 by (simp only: encode_rune_def a_def b_def c_def d_def q) simp
  qed
qed

lemma is_rune_replacement: "is_rune replacement"
  by code_simp

lemma hex_value_range: "is_hex c \<Longrightarrow> 0 \<le> hex_value c \<and> hex_value c < 16"
  by (auto simp: hex_value_def class_defs)

lemma hex4_range:
  assumes "list_all is_hex ds" "length ds \<le> 4"
  shows "0 \<le> hex4 ds" "hex4 ds < 65536"
proof -
  have "0 \<le> foldl (\<lambda>n d. 16 * n + hex_value d) n ds
      \<and> foldl (\<lambda>n d. 16 * n + hex_value d) n ds < (n + 1) * 16 ^ length ds"
    if "0 \<le> n" "list_all is_hex ds" for n ds
    using that
  proof (induction ds arbitrary: n)
    case (Cons d ds)
    from Cons.prems hex_value_range [of d] have d: "0 \<le> hex_value d" "hex_value d < 16" by auto
    have le: "(16 * n + hex_value d + 1) * 16 ^ length ds \<le> (n + 1) * 16 ^ length (d # ds)"
      using d by (simp add: mult.assoc [symmetric])
    from Cons.prems d have "0 \<le> 16 * n + hex_value d" "list_all is_hex ds" by auto
    from Cons.IH [OF this] show ?case using less_le_trans [OF _ le] by (simp only: foldl_Cons)
  qed simp
  from this [of 0 ds] assms(1) have b: "0 \<le> hex4 ds" "hex4 ds < 16 ^ length ds"
    by (simp_all add: hex4_def)
  show "0 \<le> hex4 ds" by (rule b(1))
  have "(16 :: int) ^ length ds \<le> 16 ^ 4" using assms(2) by (intro power_increasing) auto
  with b(2) show "hex4 ds < 65536" by simp
qed

subsection \<open>Strings\<close>

text \<open>What stands between the quotes, unit by unit: a plain byte or one escape.\<close>

definition body_unit :: "bytes \<Rightarrow> bool" where
  "body_unit p =
     ((\<exists>c. p = [c] \<and> 32 \<le> byte c \<and> byte c \<noteq> 34 \<and> byte c \<noteq> 92)
      \<or> (\<exists>e. p = [CHR 0x5C, e] \<and> byte e \<in> {34, 92, 47, 98, 102, 110, 114, 116})
      \<or> (\<exists>h1 h2 h3 h4. p = [CHR 0x5C, CHR ''u'', h1, h2, h3, h4] \<and> list_all is_hex [h1, h2, h3, h4]))"

inductive units :: "bytes \<Rightarrow> bool" where
  "units []"
| "body_unit p \<Longrightarrow> units b \<Longrightarrow> units (p @ b)"

lemma scan_body_step:
  assumes "scan_body (c # s) = Some (b, r)"
  obtains "c = CHR 0x22" "b = []" "s = r"
  | p t d where "body_unit p" "c # s = p @ t" "scan_body t = Some (d, r)" "b = p @ d"
proof -
  consider (q) "byte c = 34" | (e) "byte c = 92" | (p) "32 \<le> byte c" "byte c \<noteq> 34" "byte c \<noteq> 92"
    using assms by (cases "byte c = 34 \<or> byte c = 92 \<or> byte c < 32") auto
  then show ?thesis
  proof cases
    case q
    then show ?thesis using assms that(1) by (simp add: byte_eq_iff char_of_consts)
  next
    case p
    then obtain d where "scan_body s = Some (d, r)" "b = [c] @ d" using assms by auto
    moreover have "body_unit [c]" using p by (simp add: body_unit_def)
    ultimately show ?thesis using that(2) [of "[c]" s d] by simp
  next
    case e
    then have c: "c = CHR 0x5C" by (simp add: byte_eq_iff char_of_consts)
    from e assms obtain x t where s: "s = x # t" by (cases s) auto
    show ?thesis
    proof (cases "x = CHR ''u''")
      case False
      then obtain d where "scan_body t = Some (d, r)" "b = c # x # d"
        "byte x \<in> {34, 92, 47, 98, 102, 110, 114, 116}"
        using assms e unfolding s scan_body.simps by (auto simp del: insert_iff split: if_splits)
      then show ?thesis using that(2) [of "[c, x]" t d] by (simp add: body_unit_def s c)
    next
      case True
      then obtain h1 h2 h3 h4 t' where t: "t = h1 # h2 # h3 # h4 # t'"
        using assms e unfolding s scan_body.simps by (simp split: list.splits)
      from True t obtain d where "scan_body t' = Some (d, r)" "list_all is_hex [h1, h2, h3, h4]"
        "b = c # x # h1 # h2 # h3 # h4 # d"
        using assms e unfolding s scan_body.simps by (auto split: if_splits)
      then show ?thesis using that(2) [of "[c, x, h1, h2, h3, h4]" t' d] True
        by (simp add: body_unit_def s c t)
    qed
  qed
qed

lemma body_unit_nonempty: "body_unit p \<Longrightarrow> p \<noteq> []"
  by (auto simp: body_unit_def)

lemma scan_body_units: "scan_body s = Some (b, r) \<Longrightarrow> units b \<and> s = b @ CHR 0x22 # r"
proof (induction "length s" arbitrary: s b r rule: less_induct)
  case less
  then obtain c u where s: "s = c # u" by (cases s) auto
  from less.prems [unfolded s] show ?case
  proof (cases rule: scan_body_step)
    case (2 p t d)
    have "length t < length s" using 2(1,2) body_unit_nonempty [of p] s by (cases p) auto
    from less.hyps [OF this 2(3)] 2 s show ?thesis by (auto intro: units.intros)
  qed (simp add: s units.intros)
qed

lemma body_unit_adds: "body_unit p \<Longrightarrow> adds p s"
  unfolding body_unit_def
  apply (elim disjE exE conjE; hypsubst)
    apply (rule adds_plain, simp)
   apply (rule adds_escape, assumption)
  apply (rule adds_hex, assumption)
  done

lemma units_scan: "units b \<Longrightarrow> scan_body (b @ CHR 0x22 # r) = Some (b, r)"
proof (induction rule: units.induct)
  case (2 p b)
  then show ?case using body_unit_adds [OF 2(1), of "b @ CHR 0x22 # r"] by (simp add: adds_def)
qed (simp add: byte_def)

lemma units_plain:
  assumes "units (c # s)" "byte c \<noteq> 92"
  shows "units s"
  using assms(1)
proof (cases rule: units.cases)
  case (2 p b)
  then have "p = [c]" using assms(2) by (auto simp: body_unit_def)
  with 2 show ?thesis by simp
qed

lemma units_drop: "units (p @ s) \<Longrightarrow> \<forall>c \<in> set p. 128 \<le> byte c \<Longrightarrow> units s"
proof (induction p)
  case (Cons c p)
  then have "units (p @ s)" using units_plain [of c "p @ s"] by auto
  with Cons show ?case by simp
qed simp

lemma units_escape:
  assumes "units (c # s)" "byte c = 92"
  obtains e t where "s = e # t" "e \<noteq> CHR ''u''" "byte e < 128" "units t"
  | ds t where "s = CHR ''u'' # ds @ t" "length ds = 4" "list_all is_hex ds" "units t"
  using assms(1)
proof (cases rule: units.cases)
  case (2 p b)
  then consider e where "p = [c, e]" "byte e \<in> {34, 92, 47, 98, 102, 110, 114, 116}"
    | h1 h2 h3 h4 where "p = [c, CHR ''u'', h1, h2, h3, h4]" "list_all is_hex [h1, h2, h3, h4]"
    using assms(2) by (auto simp: body_unit_def)
  then show ?thesis
  proof cases
    case 1
    then have "e \<noteq> CHR ''u''" "byte e < 128" by auto
    then show ?thesis using 2 1 that(1) [of e b] by simp
  next
    case 3: 2
    then show ?thesis using 2 that(2) [of "[h1, h2, h3, h4]" b] by simp
  qed
qed


lemma low_surrogate_range: "low_surrogate s = Some m \<Longrightarrow> 56320 \<le> m \<and> m \<le> 57343"
  by (auto simp: low_surrogate_def Let_def split: list.splits if_splits)

lemma low_surrogate_units:
  assumes "low_surrogate s = Some m" "units s"
  shows "units (drop 6 s)"
proof -
  obtain a u h1 h2 h3 h4 t where s: "s = a # u # h1 # h2 # h3 # h4 # t" "byte a = 92" "u = CHR ''u''"
    using assms(1) by (auto simp: low_surrogate_def Let_def split: list.splits if_splits)
  from assms(2) [unfolded s(1)] s(2) show ?thesis
    by (cases rule: units_escape) (use s in \<open>auto simp: append_eq_Cons_conv length_Suc_conv eval_nat_numeral\<close>)
qed

text \<open>Unquoting always yields well-formed UTF-8.\<close>

lemma unquote_unicode:
  "length ds = 4 \<Longrightarrow> unquote (CHR 0x5C # CHR ''u'' # ds @ t) =
     (let n = hex4 ds
      in if 55296 \<le> n \<and> n \<le> 57343 then
           (case (if n \<le> 56319 then low_surrogate t else None) of
              Some m \<Rightarrow> encode_rune (65536 + (n - 55296) * 1024 + (m - 56320)) @ unquote (drop 6 t)
            | None \<Rightarrow> replacement @ unquote t)
         else encode_rune n @ unquote t)"
  by (subst unquote.simps) (simp add: byte_def Let_def cong: option.case_cong)

lemma unquote_utf8: "units b \<Longrightarrow> utf8_valid (unquote b)"
proof (induction "length b" arbitrary: b rule: less_induct)
  case less
  show ?case
  proof (cases b)
    case (Cons c s)
    show ?thesis
    proof (cases "byte c = 92")
      case True
      then have c: "c = CHR 0x5C" by (simp add: byte_eq_iff char_of_consts)
      from less.prems [unfolded Cons] True show ?thesis
      proof (cases rule: units_escape)
        case (1 e t)
        have "utf8_valid (unquote t)" by (rule less.hyps) (use 1 Cons in auto)
        moreover have "byte (escape_value e) < 128" using 1(3) by (simp add: escape_value_def)
        ultimately show ?thesis
          using 1 True c Cons by (simp add: unquote_escape utf8_valid_Cons_ascii)
      next
        case (2 ds t)
        note h = hex4_range [of ds]
        have t: "utf8_valid (unquote t)" by (rule less.hyps) (use 2 Cons in auto)
        have low: "utf8_valid (unquote (drop 6 t))" if "low_surrogate t = Some m" for m
          by (rule less.hyps) (use low_surrogate_units [OF that 2(4)] 2 Cons in auto)
        have pair: "is_rune (encode_rune (65536 + (n - 55296) * 1024 + (m - 56320)))"
          if "55296 \<le> n" "n \<le> 56319" "56320 \<le> m" "m \<le> 57343" for n m
        proof (rule is_rune_encode)
          let ?x = "65536 + (n - 55296) * 1024 + (m - 56320)"
          have k: "0 \<le> (n - 55296) * 1024" "(n - 55296) * 1024 \<le> 1023 * 1024"
            using that(1,2) by (simp_all only: mult_right_mono diff_ge_0_iff_ge diff_le_eq zero_le_mult_iff) simp_all
          show "0 \<le> ?x" using k(1) that(3) by simp
          show "?x < 1114112" using k(2) that(4) by simp
          have "57343 < ?x" using k(1) that(3) by simp
          then show "\<not> (55296 \<le> ?x \<and> ?x \<le> 57343)" by (simp only: not_le [symmetric]) blast
        qed
        have surrogate: "utf8_valid (case (if hex4 ds \<le> 56319 then low_surrogate t else None) of
              Some m \<Rightarrow> encode_rune (65536 + (hex4 ds - 55296) * 1024 + (m - 56320)) @ unquote (drop 6 t)
            | None \<Rightarrow> replacement @ unquote t)" if "55296 \<le> hex4 ds"
        proof (cases "if hex4 ds \<le> 56319 then low_surrogate t else None")
          case None
          then show ?thesis using t by (simp add: utf8_valid_rune is_rune_replacement)
        next
          case (Some m)
          then have m: "hex4 ds \<le> 56319" "low_surrogate t = Some m" by (auto split: if_splits)
          then have "56320 \<le> m" "m \<le> 57343" using low_surrogate_range by blast+
          with pair [OF that m(1) this] low [OF m(2)] show ?thesis
            by (simp only: Some option.case utf8_valid_rune)
        qed
        show ?thesis
          unfolding Cons c 2(1) append_Cons unquote_unicode [OF 2(2)] Let_def
          using h 2 t surrogate by (simp add: utf8_valid_rune is_rune_encode)
      qed
    next
      case plain: False
      show ?thesis
      proof (cases "utf8_len b = 0")
        case True
        have "utf8_valid (unquote s)"
          by (rule less.hyps) (use units_plain [of c s] less.prems plain Cons in auto)
        then show ?thesis using True plain unfolding Cons
          by (subst unquote.simps) (simp add: utf8_valid_rune is_rune_replacement)
      next
        case False
        have "units (drop (utf8_len b) b)"
        proof (cases "byte c < 128")
          case True
          then have "utf8_len b = 1" using Cons utf8_len_ascii by simp
          then show ?thesis using units_plain [of c s] less.prems plain Cons by simp
        next
          case high: False
          then have "1 < utf8_len b" using utf8_len_high [of c s] False Cons by simp
          then show ?thesis
            using units_drop [of "take (utf8_len b) b" "drop (utf8_len b) b"] less.prems
              take_utf8_high [of b] by simp
        qed
        then have "utf8_valid (unquote (drop (utf8_len b) b))"
          using less.hyps [of "drop (utf8_len b) b"] False Cons by simp
        then have rest: "utf8_valid (unquote (drop (utf8_len b) b))" .
        have "unquote (take (utf8_len b) b @ drop (utf8_len b) b)
            = take (utf8_len b) b @ unquote (drop (utf8_len b) b)"
          by (rule unquote_rune) (use False plain Cons in simp_all)
        with rest is_rune_take [of b] False show ?thesis
          by (simp only: append_take_drop_id utf8_valid_rune neq0_conv)
      qed
    qed
  qed simp
qed


subsection \<open>Numbers and documents\<close>

lemma digits1_prefix:
  "digits1 s = Some (d, r) \<Longrightarrow> t = [] \<or> \<not> is_digit (hd t) \<Longrightarrow> digits1 (d @ t) = Some (d, t)"
  by (auto simp: digits1_iff)

lemma digits1_self: "digits1 s = Some (d, r) \<Longrightarrow> digits1 d = Some (d, [])"
  using digits1_prefix [of s d r "[]"] by simp

lemma int_part_prefix:
  "int_part s = Some (d, r) \<Longrightarrow> t = [] \<or> \<not> is_digit (hd t) \<Longrightarrow> int_part (d @ t) = Some (d, t)"
  by (cases d) (auto simp: int_part_def digits1_iff split: if_splits)

lemma frac_part_prefix:
  "frac_part s = Some (d, r) \<Longrightarrow> t = [] \<or> \<not> is_digit (hd t) \<and> hd t \<noteq> CHR ''.'' \<Longrightarrow>
     frac_part (d @ t) = Some (d, t)"
  by (auto simp: frac_part_def digits1_prefix digits1_self split: if_splits)

lemma exp_part_self: "exp_part s = Some (d, r) \<Longrightarrow> exp_part d = Some (d, [])"
proof (cases "s \<noteq> [] \<and> hd s \<in> set ''eE''")
  case True
  assume e: "exp_part s = Some (d, r)"
  with True obtain x g u where s: "s = x # g # u" "x \<in> set ''eE''"
    by (cases s; cases "tl s") (auto simp: exp_part_def)
  show ?thesis
  proof (cases "g \<in> set ''+-''")
    case True
    with e s obtain d' where "digits1 u = Some (d', r)" "d = x # g # d'"
      by (auto simp: exp_part_def)
    then show ?thesis using True s(2) digits1_self by (simp add: exp_part_def)
  next
    case False
    with e s obtain d' where d: "digits1 (g # u) = Some (d', r)" "d = x # d'"
      by (auto simp: exp_part_def)
    then obtain d'' where "d' = g # d''" by (cases d') (auto simp: digits1_iff)
    then show ?thesis using False s(2) d digits1_self [OF d(1)] by (simp add: exp_part_def)
  qed
next
  case False
  then have "exp_part s = Some ([], s)" unfolding exp_part_def by (rule if_not_P)
  moreover assume "exp_part s = Some (d, r)"
  ultimately show ?thesis by (simp add: exp_part_def)
qed

lemma exp_part_first: "exp_part s = Some (d, r) \<Longrightarrow> d = [] \<or> hd d \<in> set ''eE''"
  by (cases s; cases "tl s") (auto simp: exp_part_def split: if_splits)

lemma frac_part_first: "frac_part s = Some (d, r) \<Longrightarrow> d = [] \<or> hd d = CHR ''.''"
  by (cases s) (auto simp: frac_part_def split: if_splits)

lemma scan_number_good: "scan_number s = Some (d, r) \<Longrightarrow> good_number d"
proof -
  assume s: "scan_number s = Some (d, r)"
  define sg where "sg = (if s \<noteq> [] \<and> hd s = CHR ''-'' then ''-'' else [])"
  from s obtain i s1 f s2 e where parts: "int_part (drop (length sg) s) = Some (i, s1)"
    "frac_part s1 = Some (f, s2)" "exp_part s2 = Some (e, r)" "d = sg @ i @ f @ e"
    unfolding number_sign Let_def sg_def [symmetric] by (auto simp: bind_eq_Some_conv)
  have e: "e = [] \<or> \<not> is_digit (hd e) \<and> hd e \<noteq> CHR ''.''"
    using exp_part_first [OF parts(3)] by (auto simp: class_defs byte_def)
  have fe: "f @ e = [] \<or> \<not> is_digit (hd (f @ e))"
    using frac_part_first [OF parts(2)] e by (cases f) (auto simp: class_defs byte_def)
  have i: "int_part (i @ f @ e) = Some (i, f @ e)" by (rule int_part_prefix [OF parts(1) fe])
  have "i \<noteq> []" using int_part_split [OF parts(1)] by simp
  moreover from this have "hd i \<noteq> CHR ''-''"
  proof -
    have "i = ''0'' \<or> list_all is_digit i"
      using parts(1) by (auto simp: int_part_def digits1_iff split: if_splits)
    with \<open>i \<noteq> []\<close> show ?thesis by (cases i) (auto simp: class_defs byte_def)
  qed
  ultimately have sg: "(if d \<noteq> [] \<and> hd d = CHR ''-'' then ''-'' else []) = sg"
    "drop (length sg) d = i @ f @ e"
    by (auto simp: parts(4) sg_def)
  show ?thesis
    unfolding good_number_def number_sign Let_def sg
    using i frac_part_prefix [OF parts(2) e] exp_part_self [OF parts(3)] by (simp add: parts(4))
qed

subsection \<open>Documents\<close>

fun good_token :: "token \<Rightarrow> bool" where
  "good_token (Atom v) = printable v"
| "good_token _ = True"

lemma punct_good: "punct c = Some t \<Longrightarrow> good_token t"
  by (auto simp: punct_def split: if_splits)

lemma scan_literal_good: "scan_literal s = Some (v, r) \<Longrightarrow> printable v"
  by (auto simp: scan_literal_def literals_def split: if_splits)

lemma scan_token_good:
  assumes "scan_token s = Some (t, r)"
  shows "good_token t"
proof (cases s)
  case (Cons c u)
  show ?thesis
  proof (cases "punct c")
    case (Some p)
    then show ?thesis using assms punct_good [of c] by (simp add: scan_token_def Cons)
  next
    case None
    consider "byte c = 34" | "byte c \<noteq> 34" "is_digit c \<or> c = CHR ''-''"
      | "byte c \<noteq> 34" "\<not> (is_digit c \<or> c = CHR ''-'')" by blast
    then show ?thesis
    proof cases
      case 1
      then obtain b where "scan_body u = Some (b, r)" "t = Atom (JStr (unquote b))"
        using assms None by (auto simp: scan_token_def Cons)
      then show ?thesis using scan_body_units [of u b r] by (simp add: unquote_utf8)
    next
      case 2
      then obtain n where "scan_number s = Some (n, r)" "t = Atom (JNum n)"
        using assms None by (auto simp: scan_token_def Cons simp del: disj_not1)
      then show ?thesis using scan_number_good by simp
    next
      case 3
      then obtain v where "scan_literal s = Some (v, r)" "t = Atom v"
        using assms None by (auto simp: scan_token_def Cons)
      then show ?thesis using scan_literal_good by simp
    qed
  qed
qed (use assms in \<open>simp add: scan_token_def\<close>)

lemma lex_good: "lex s = Some ts \<Longrightarrow> \<forall>t \<in> set ts. good_token t"
proof (induction s arbitrary: ts rule: lex.induct)
  case (1 s)
  show ?case
  proof (cases s)
    case (Cons c u)
    show ?thesis
    proof (cases "is_ws c")
      case True
      then have "Go_Json.lex u = Some ts" using 1(3) by (subst (asm) lex.simps) (simp add: Cons)
      then show ?thesis by (rule 1(1) [OF Cons True])
    next
      case False
      then obtain t r ts' where t: "scan_token s = Some (t, r)" "Go_Json.lex r = Some ts'" "ts = t # ts'"
        using 1(3) by (subst (asm) lex.simps) (auto simp: Cons split: option.splits)
      from 1(2) [OF Cons False t(1) refl t(2)] scan_token_good [OF t(1)] show ?thesis
        by (simp add: t(3))
    qed
  qed (use 1 in simp)
qed

fun good_frame :: "frame \<Rightarrow> bool" where
  "good_frame (InArr xs) = printable (JArr xs)"
| "good_frame (InObj ms) = printable (JObj ms)"
| "good_frame (InKey ms k) = (printable (JObj ms) \<and> utf8_valid k)"

definition good_config :: "mode \<times> frame list \<Rightarrow> bool" where
  "good_config c =
     (list_all good_frame (snd c) \<and> (case fst c of Have v \<Rightarrow> printable v | _ \<Rightarrow> True))"

lemma parse_step_good:
  "parse_step t c = Some d \<Longrightarrow> good_token t \<Longrightarrow> good_config c \<Longrightarrow> good_config d"
  by (cases "(t, c)" rule: parse_step.cases)
    (auto simp: good_config_def start_value_def take_key_def after_value_def
      split: token.splits list.splits frame.splits json.splits if_splits)

lemma parse_run_good:
  "parse_run ts c = Some d \<Longrightarrow> \<forall>t \<in> set ts. good_token t \<Longrightarrow> good_config c \<Longrightarrow> good_config d"
  by (induction ts c rule: parse_run.induct) (auto dest: parse_step_good split: option.splits)

lemma parse_json_printable:
  assumes "parse_json s = Some j"
  shows "printable j"
proof -
  from assms obtain ts where ts: "Go_Json.lex s = Some ts" "parse_run ts (WantValue, []) = Some (Have j, [])"
    by (auto simp: parse_json_def split: option.splits mode.splits list.splits)
  have "good_config (Have j, [])"
    by (rule parse_run_good [OF ts(2) lex_good [OF ts(1)]]) (simp add: good_config_def)
  then show ?thesis by (simp add: good_config_def)
qed

end
