(* ===== verification/Canonical_Json.thy ===== *)
theory Canonical_Json
  imports Json_Parsed Wire Digest "HOL-Library.Multiset"
begin

text \<open>
  Package \<^verbatim>\<open>browsercontract\<close>, \<^verbatim>\<open>json.go\<close>: the canonical encoding, its digest, and the
  closed decoding of contract documents. Every failure of that file is the one contract error,
  so the functions return an option.
\<close>

declare utf8_len.simps [simp del]

subsection \<open>Definitions\<close>

text \<open>
  An object decoded into \<^verbatim>\<open>any\<close> is a map, which the encoder writes in the byte order of its
  keys; arrays keep their order and numbers their text.
\<close>

fun sort_json :: "json \<Rightarrow> json" where
  "sort_json (JArr xs) = JArr (map sort_json xs)"
| "sort_json (JObj ms) = JObj (sort_key fst (map (\<lambda>m. (fst m, sort_json (snd m))) ms))"
| "sort_json j = j"

text \<open>\<^verbatim>\<open>strconv.ParseUint(s, 16, 16)\<close> on four bytes.\<close>

definition parse_hex4 :: "bytes \<Rightarrow> int option" where
  "parse_hex4 s = (if length s = 4 \<and> list_all is_hex s then Some (hex4 s) else None)"

text \<open>
  \<^verbatim>\<open>validUnicodeEscapes\<close>: the scan over the raw bytes with the flag that says whether the
  position is inside a string. Indices become suffixes of the text.
\<close>

function valid_escapes :: "bool \<Rightarrow> bytes \<Rightarrow> bool" where
  "valid_escapes inside s =
     (case s of
        [] \<Rightarrow> True
      | c # s1 \<Rightarrow>
          if byte c = 34 then valid_escapes (\<not> inside) s1
          else if \<not> inside \<or> byte c \<noteq> 92 then valid_escapes inside s1
          else
            (case s1 of
               [] \<Rightarrow> False
             | e # s2 \<Rightarrow>
                 if e \<noteq> CHR ''u'' then valid_escapes inside s2
                 else if length s2 < 4 then False
                 else
                   (case parse_hex4 (take 4 s2) of
                      None \<Rightarrow> False
                    | Some n \<Rightarrow>
                        if 56320 \<le> n \<and> n \<le> 57343 then False
                        else if 55296 \<le> n \<and> n \<le> 56319 then
                          (if length (drop 4 s2) < 6 \<or> byte (s2 ! 4) \<noteq> 92 \<or> s2 ! 5 \<noteq> CHR ''u''
                           then False
                           else
                             (case parse_hex4 (take 4 (drop 6 s2)) of
                                None \<Rightarrow> False
                              | Some low \<Rightarrow>
                                  if low < 56320 \<or> 57343 < low then False
                                  else valid_escapes inside (drop 10 s2)))
                        else valid_escapes inside (drop 4 s2))))"
  by pat_completeness auto
termination
  by (relation "measure (\<lambda>(b, s). length s)") auto

declare valid_escapes.simps [simp del]

definition canonical_json :: "bytes \<Rightarrow> bytes option" where
  "canonical_json data =
     (if data = [] \<or> 8388608 < int (length data) \<or> \<not> utf8_valid data \<or> \<not> valid_escapes False data
      then None
      else case decode_strict GAny data of
        Inl _ \<Rightarrow> None
      | Inr j \<Rightarrow> Some (print_json False (sort_json j)))"

text \<open>\<^verbatim>\<open>CanonicalDigest\<close> of a value that the encoder prints as the given tree.\<close>

definition canonical_digest :: "json \<Rightarrow> bytes option" where
  "canonical_digest j = map_option sha256 (canonical_json (marshal j))"

text \<open>
  \<^verbatim>\<open>closedShape\<close>: no null, every field that is not \<^verbatim>\<open>omitempty\<close> present, exact names only.
\<close>

lemma member_size:
  "map_of (rev ms) k = Some v \<Longrightarrow> size v < Suc (size_list (size_prod (\<lambda>_. 0) size) ms)"
  by (drule map_of_SomeD) (induction ms, auto)

lemma element_size: "x \<in> set xs \<Longrightarrow> size x < Suc (size_list size xs)"
  by (induction xs) auto

function closed_shape :: "goty \<Rightarrow> json \<Rightarrow> bool" where
  "closed_shape t j =
     (if j = JNull then False
      else case dest_type t of
        GRaw \<Rightarrow> True
      | GStruct fs \<Rightarrow>
          (case j of
             JObj ms \<Rightarrow>
               (\<forall>f \<in> set fs.
                  case map_of (rev ms) (fst f) of
                    None \<Rightarrow> fst (snd f)
                  | Some v \<Rightarrow> closed_shape (snd (snd f)) v)
               \<and> (\<forall>m \<in> set ms. fst m \<in> fst ` set fs)
           | _ \<Rightarrow> False)
      | GSlice u \<Rightarrow> (case j of JArr xs \<Rightarrow> (\<forall>x \<in> set xs. closed_shape u x) | _ \<Rightarrow> False)
      | _ \<Rightarrow> True)"
  by pat_completeness auto
termination
  by (relation "measure (\<lambda>(t, j). size j)") (auto simp: member_size element_size)

definition contract_max_bytes :: int where
  "contract_max_bytes = 1048576"

text \<open>
  \<^verbatim>\<open>Decode\<close>: the canonical text of the document, strictly decoded, of closed shape. The
  result is the document the destination is filled from.
\<close>

definition decode_contract :: "goty \<Rightarrow> bytes \<Rightarrow> json option" where
  "decode_contract t data =
     (if contract_max_bytes < int (length data) then None
      else case canonical_json data of
        None \<Rightarrow> None
      | Some canonical \<Rightarrow>
          (case decode_strict t canonical of
             Inl _ \<Rightarrow> None
           | Inr j \<Rightarrow> if closed_shape t j then Some j else None))"

subsection \<open>Sorting\<close>

lemma insort_key_map: "\<forall>y \<in> insert x (set xs). k (g y) = h y \<Longrightarrow>
    insort_key k (g x) (map g xs) = map g (insort_key h x xs)"
  by (induction xs) auto

lemma sort_key_map: "\<forall>y \<in> set xs. k (g y) = h y \<Longrightarrow> sort_key k (map g xs) = map g (sort_key h xs)"
proof (induction xs)
  case (Cons x xs)
  then have "sort_key k (map g xs) = map g (sort_key h xs)" by simp
  then show ?case using Cons.prems insort_key_map [of x "sort_key h xs" k g h] by simp
qed simp

lemma sort_json_idem: "sort_json (sort_json j) = sort_json j"
proof (induction j rule: sort_json.induct)
  case (2 ms)
  let ?g = "\<lambda>m. (fst m, sort_json (snd m))"
  have "sort_key fst (map ?g (map ?g ms)) = map ?g (sort_key fst (map ?g ms))"
    by (rule sort_key_map) simp
  moreover have "map ?g (map ?g ms) = map ?g ms" using 2 by simp
  ultimately show ?case by (simp add: sort_key_id_if_sorted del: map_map)
qed (simp_all cong: map_cong)

lemma sort_json_printable [simp]: "printable (sort_json j) \<longleftrightarrow> printable j"
  by (induction j rule: sort_json.induct) auto

lemma sum_list_sort_key: "sum_list (map f (sort_key k xs)) = sum_list (map f xs)" for f :: "'a \<Rightarrow> int"
  by (metis mset_map mset_sort sum_mset_sum_list)

lemma sort_json_nodes [simp]: "node_count (sort_json j) = node_count j"
proof (induction j rule: sort_json.induct)
  case (2 ms)
  then show ?case by (simp add: sum_list_sort_key comp_def cong: map_cong)
qed (simp_all add: comp_def cong: map_cong)

lemma depth_of_le_iff:
  "depth_of (JArr xs) \<le> d \<longleftrightarrow> 1 \<le> d \<and> (\<forall>x \<in> set xs. depth_of x \<le> d - 1)"
  "depth_of (JObj ms) \<le> d \<longleftrightarrow> 1 \<le> d \<and> (\<forall>m \<in> set ms. depth_of (snd m) \<le> d - 1)"
proof -
  have e: "1 + foldr max zs 0 \<le> d \<longleftrightarrow> foldr max zs 0 \<le> d - 1" for zs by linarith
  show "depth_of (JArr xs) \<le> d \<longleftrightarrow> 1 \<le> d \<and> (\<forall>x \<in> set xs. depth_of x \<le> d - 1)"
    "depth_of (JObj ms) \<le> d \<longleftrightarrow> 1 \<le> d \<and> (\<forall>m \<in> set ms. depth_of (snd m) \<le> d - 1)"
    unfolding depth_of.simps e foldr_max_le by auto
qed

lemma sort_json_depth [simp]: "depth_of (sort_json j) \<le> d \<longleftrightarrow> depth_of j \<le> d"
  by (induction j arbitrary: d rule: sort_json.induct) (auto simp: depth_of_le_iff simp del: depth_of.simps zle_diff1_eq)

text \<open>Into \<^verbatim>\<open>any\<close>, unambiguous means that no object repeats a key.\<close>

lemma any_simps [simp]: "elem_type GAny = GAny" "member_type GAny k = GAny" "field_hits GAny ms = []"
  by (simp_all add: elem_type_def member_type_def)
    (induction ms, simp_all add: field_hits_Cons field_hit_def)

lemma fits_any [simp]: "fits GAny j"
  by (cases j) simp_all

lemma sort_json_unambiguous: "unambiguous GAny (sort_json j) \<longleftrightarrow> unambiguous GAny j"
proof (induction j rule: sort_json.induct)
  case (2 ms)
  have "distinct (map fst (sort_key fst xs)) \<longleftrightarrow> distinct (map fst xs)" for xs :: "(bytes \<times> json) list"
    by (metis mset_map mset_sort mset_eq_imp_distinct_iff)
  with 2 show ?case by (auto simp: comp_def)
qed auto

subsection \<open>The canonical text is accepted again\<close>

text \<open>Pieces of a string body that the scan for escapes passes over.\<close>

definition passes :: "bytes \<Rightarrow> bool" where
  "passes p = (\<forall>s. valid_escapes True (p @ s) = valid_escapes True s)"

lemma passes_Nil: "passes []" and passes_append: "passes p \<Longrightarrow> passes q \<Longrightarrow> passes (p @ q)"
  by (simp_all add: passes_def)

lemma passes_byte: "byte c \<noteq> 34 \<Longrightarrow> byte c \<noteq> 92 \<Longrightarrow> passes [c]"
  by (simp add: passes_def valid_escapes.simps [of _ "c # _"])

lemma passes_plain: "\<forall>c \<in> set p. byte c \<noteq> 34 \<and> byte c \<noteq> 92 \<Longrightarrow> passes p"
proof (induction p)
  case (Cons c p)
  then show ?case using passes_append [of "[c]" p] by (simp add: passes_byte)
qed (rule passes_Nil)

lemma passes_escape: "e \<noteq> CHR ''u'' \<Longrightarrow> passes [CHR 0x5C, e]"
  by (simp add: passes_def valid_escapes.simps [of _ "CHR 0x5C # _"])

lemma passes_unicode:
  assumes "length ds = 4" "list_all is_hex ds" "hex4 ds < 55296 \<or> 57343 < hex4 ds"
  shows "passes (CHR 0x5C # CHR ''u'' # ds)"
proof -
  have "parse_hex4 (take 4 (ds @ s)) = Some (hex4 ds)" "drop 4 (ds @ s) = s" for s
    using assms by (simp_all add: parse_hex4_def)
  moreover have "\<not> (56320 \<le> hex4 ds \<and> hex4 ds \<le> 57343)" "\<not> (55296 \<le> hex4 ds \<and> hex4 ds \<le> 56319)"
    using assms(3) by (simp_all only: not_le de_Morgan_conj) linarith+
  ultimately show ?thesis
    unfolding passes_def append_Cons using assms(1)
    by (subst valid_escapes.simps) (simp only: list.case byte_consts option.case if_False if_True simp_thms length_append, simp)
qed

lemma passes_escape_byte:
  assumes "escape_byte html c = Some e"
  shows "passes e"
proof (cases "byte c \<in> {34, 92, 8, 12, 10, 13, 9}")
  case True
  with assms obtain x where "e = [CHR 0x5C, x]" "x \<noteq> CHR ''u''"
    by (auto simp: escape_byte_def char_of_consts byte_consts)
  then show ?thesis by (simp add: passes_escape)
next
  case False
  then have c: "e = CHR 0x5C # CHR ''u'' # [CHR ''0'', CHR ''0'', hex_digit (byte c div 16), hex_digit (byte c mod 16)]"
    and "byte c < 128"
    using assms by (auto simp: escape_byte_def char_of_consts split: if_splits)
  then have "hex4 [CHR ''0'', CHR ''0'', hex_digit (byte c div 16), hex_digit (byte c mod 16)] = byte c"
    using hex4_low(1) [of "byte c div 16" "byte c mod 16"] nibbles [of c] by simp
  then show ?thesis unfolding c using \<open>byte c < 128\<close>
    by (intro passes_unicode) (simp_all add: hex_digit_is_hex hex_consts)
qed

lemma passes_quote_body: "passes (quote_body html s)"
proof (induction html s rule: quote_body.induct)
  case (1 html s)
  show ?case
  proof (cases s)
    case Nil
    then show ?thesis by (simp add: passes_Nil)
  next
    case (Cons c s')
    show ?thesis
    proof (cases "byte c < 128")
      case True
      have "passes (case escape_byte html c of Some e \<Rightarrow> e | None \<Rightarrow> [c])"
        using passes_escape_byte [of html c] passes_byte [of c]
        by (cases "escape_byte html c") (auto simp: escape_byte_def split: if_splits)
      then show ?thesis using passes_append "1.IH"(1) [OF Cons True]
        unfolding Cons quote_body_ascii [OF True] by blast
    next
      case high: False
      consider "utf8_len s = 0" | "0 < utf8_len s" "map byte (take 3 s) \<in> {[226, 128, 168], [226, 128, 169]}"
        | "0 < utf8_len s" "map byte (take 3 s) \<notin> {[226, 128, 168], [226, 128, 169]}" by auto
      then show ?thesis
      proof cases
        case 1
        have "passes (CHR 0x5C # CHR ''u'' # [CHR ''f'', CHR ''f'', CHR ''f'', CHR ''d''])"
          by (rule passes_unicode) (code_simp)+
        from passes_append [OF this "1.IH"(2) [OF Cons high 1]] show ?thesis
          using 1 high by (simp add: Cons quote_body_bad)
      next
        case 2
        have "hex4 [CHR ''2'', CHR ''0'', CHR ''2'', hex_digit (byte (s ! 2) mod 16)] = 8224 + byte (s ! 2) mod 16"
          by (rule hex4_low(2)) simp_all
        moreover have "8224 + byte (s ! 2) mod 16 < 55296"
          using pos_mod_bound [of 16 "byte (s ! 2)"] by linarith
        ultimately have low: "hex4 [CHR ''2'', CHR ''0'', CHR ''2'', hex_digit (byte (s ! 2) mod 16)] < 55296"
          by (simp only:)
        have "passes (CHR 0x5C # CHR ''u'' # [CHR ''2'', CHR ''0'', CHR ''2'', hex_digit (byte (s ! 2) mod 16)])"
          using low by (intro passes_unicode) (simp_all add: hex_digit_is_hex hex_consts)
        from passes_append [OF this "1.IH"(3) [OF Cons high _ 2(2)]] show ?thesis
          using quote_body_separator [of s html] 2 high Cons by simp
      next
        case 3
        have "1 < utf8_len s" using utf8_len_high [of c s'] high Cons 3(1) by simp
        from take_utf8_high [OF this] have "passes (take (utf8_len s) s)"
          by (intro passes_plain) auto
        from passes_append [OF this "1.IH"(4) [OF Cons high _ 3(2)]] show ?thesis
          using quote_body_rune [of s html] 3 high Cons by simp
      qed
    qed
  qed
qed

lemma valid_escapes_quoted: "valid_escapes False (quoted html s @ r) = valid_escapes False r"
proof -
  have "valid_escapes True (quote_body html s @ CHR 0x22 # r) = valid_escapes True (CHR 0x22 # r)"
    using passes_quote_body by (simp add: passes_def)
  then show ?thesis
    by (simp add: quoted_def char_of_consts valid_escapes.simps [of _ "CHR 0x22 # _"])
qed

text \<open>Number literals are made of digits, signs, the point and the exponent mark.\<close>

definition number_char :: "char \<Rightarrow> bool" where
  "number_char c = (is_digit c \<or> c \<in> set ''-+.eE'')"

lemma good_number_chars: "good_number n \<Longrightarrow> list_all number_char n"
proof -
  assume n: "good_number n"
  define sg where "sg = (if n \<noteq> [] \<and> hd n = CHR ''-'' then ''-'' else [])"
  from n obtain i s1 f s2 e where parts: "int_part (drop (length sg) n) = Some (i, s1)"
    "frac_part s1 = Some (f, s2)" "exp_part s2 = Some (e, [])" "n = sg @ i @ f @ e"
    unfolding good_number_def number_sign Let_def sg_def [symmetric] by (auto simp: bind_eq_Some_conv)
  have ds: "list_all number_char d" if "digits1 s = Some (d, r)" for s d r
    using that by (auto simp: digits1_iff number_char_def list_all_iff)
  have marks: "number_char CHR ''0''" "number_char CHR ''.''" "number_char CHR ''-''"
    "number_char CHR ''+''" "number_char CHR ''e''" "number_char CHR ''E''"
    by code_simp+
  have "list_all number_char i"
    using parts(1) ds marks by (auto simp: int_part_def split: if_splits)
  moreover have "list_all number_char f"
    using parts(2) ds marks by (auto simp: frac_part_def split: if_splits)
  moreover have "list_all number_char e"
  proof (cases "s2 \<noteq> [] \<and> hd s2 \<in> set ''eE''")
    case True
    then obtain x u where s2: "s2 = x # u" "number_char x" using marks by (cases s2) auto
    from True parts(3) s2(1) obtain g v where u: "u = g # v" by (cases u) (simp_all add: exp_part_def)
    show ?thesis
    proof (cases "g \<in> set ''+-''")
      case True
      with parts(3) s2(1) u \<open>s2 \<noteq> [] \<and> hd s2 \<in> set ''eE''\<close>
      obtain d where "digits1 v = Some (d, [])" "e = x # g # d" by (auto simp: exp_part_def)
      then show ?thesis using ds s2(2) True marks by auto
    next
      case False
      with parts(3) s2(1) u \<open>s2 \<noteq> [] \<and> hd s2 \<in> set ''eE''\<close>
      obtain d where "digits1 u = Some (d, [])" "e = x # d" by (auto simp: exp_part_def)
      then show ?thesis using ds s2(2) by auto
    qed
  next
    case False
    then have "exp_part s2 = Some ([], s2)" unfolding exp_part_def by (rule if_not_P)
    with parts(3) show ?thesis by simp
  qed
  moreover have "list_all number_char sg" using marks by (simp add: sg_def)
  ultimately show ?thesis by (subst parts(4)) simp
qed

lemma number_char_plain: "number_char c \<Longrightarrow> byte c < 128 \<and> byte c \<noteq> 34"
  by (auto simp: number_char_def class_defs)

text \<open>Text that leaves the scan outside a string where it was.\<close>

definition outside :: "bytes \<Rightarrow> bool" where
  "outside p = (utf8_valid p \<and> (\<forall>s. valid_escapes False (p @ s) = valid_escapes False s))"

lemma utf8_valid_append: "utf8_valid p \<Longrightarrow> utf8_valid (p @ q) \<longleftrightarrow> utf8_valid q"
proof (induction p rule: utf8_valid.induct)
  case (1 p)
  show ?case
  proof (cases "p = []")
    case False
    then have v: "0 < utf8_len p" "utf8_valid (drop (utf8_len p) p)"
      using utf8_valid_step [OF 1(2)] by auto
    with 1(1) False have "utf8_valid (drop (utf8_len p) p @ q) \<longleftrightarrow> utf8_valid q" by simp
    moreover have "utf8_valid ((take (utf8_len p) p @ drop (utf8_len p) p) @ q)
        \<longleftrightarrow> utf8_valid (drop (utf8_len p) p @ q)"
      unfolding append_assoc by (rule utf8_valid_rune [OF is_rune_take [OF v(1)]])
    ultimately show ?thesis by simp
  qed simp
qed

lemma outside_append: "outside p \<Longrightarrow> outside q \<Longrightarrow> outside (p @ q)"
  by (simp add: outside_def utf8_valid_append)

lemma outside_byte: "byte c < 128 \<Longrightarrow> byte c \<noteq> 34 \<Longrightarrow> outside [c]"
  by (simp add: outside_def valid_escapes.simps [of _ "c # _"])

lemma outside_Cons: "byte c < 128 \<Longrightarrow> byte c \<noteq> 34 \<Longrightarrow> outside p \<Longrightarrow> outside (c # p)"
  using outside_append [of "[c]" p] by (simp add: outside_byte)

lemma outside_plain: "\<forall>c \<in> set p. byte c < 128 \<and> byte c \<noteq> 34 \<Longrightarrow> outside p"
proof (induction p)
  case (Cons c p)
  then show ?case using outside_append [of "[c]" p] by (simp add: outside_byte)
qed (simp add: outside_def)

lemma outside_join:
  "outside sep \<Longrightarrow> \<forall>x \<in> set xs. outside x \<Longrightarrow> outside (join sep xs)"
proof (induction sep xs rule: join.induct)
  case (3 sep x y zs)
  then show ?case by (simp add: outside_append)
qed (simp_all add: outside_def)

lemma ascii_piece: "list_all (\<lambda>c. byte c < 128) p \<Longrightarrow> utf8_valid p"
  by (rule ascii_text_utf8) (simp add: ascii_text_def)

lemma hex_digit_low: "0 \<le> n \<Longrightarrow> n < 16 \<Longrightarrow> byte (hex_digit n) < 128"
  by (simp add: hex_digit_def)

lemma escape_byte_ascii:
  "escape_byte html c = Some e \<Longrightarrow> byte c < 128 \<Longrightarrow> list_all (\<lambda>c. byte c < 128) e"
  using nibbles [of c] by (auto simp: escape_byte_def char_of_consts hex_digit_low split: if_splits)

lemma quote_body_utf8: "utf8_valid s \<Longrightarrow> utf8_valid (quote_body html s)"
proof (induction html s rule: quote_body.induct)
  case (1 html s)
  show ?case
  proof (cases s)
    case (Cons c s')
    show ?thesis
    proof (cases "byte c < 128")
      case True
      have "utf8_valid (case escape_byte html c of Some e \<Rightarrow> e | None \<Rightarrow> [c])"
      proof (cases "escape_byte html c")
        case (Some e)
        then show ?thesis using escape_byte_ascii [OF Some True] by (simp add: ascii_piece)
      qed (use True in simp)
      moreover have "utf8_valid (quote_body html s')"
        by (rule "1.IH"(1) [OF Cons True]) (use 1(5) True Cons in simp)
      ultimately show ?thesis unfolding Cons quote_body_ascii [OF True]
        by (simp add: utf8_valid_append)
    next
      case high: False
      from utf8_valid_step [OF 1(5)] Cons
      have v: "0 < utf8_len s" "utf8_valid (drop (utf8_len s) s)" by auto
      show ?thesis
      proof (cases "map byte (take 3 s) \<in> {[226, 128, 168], [226, 128, 169]}")
        case True
        from line_separator [OF True] have l: "utf8_len s = 3" by metis
        have "utf8_valid (quote_body html (drop 3 s))"
          using "1.IH"(3) [OF Cons high _ True] v l by simp
        moreover have "byte (hex_digit (byte (s ! 2) mod 16)) < 128"
          by (rule hex_digit_low) simp_all
        ultimately show ?thesis
          using quote_body_separator [of s html] True high Cons v by simp
      next
        case False
        have "utf8_valid (quote_body html (drop (utf8_len s) s))"
          using "1.IH"(4) [OF Cons high _ False] v by simp
        then show ?thesis
          using quote_body_rune [of s html] False high Cons v
          by (simp add: utf8_valid_rune is_rune_take)
      qed
    qed
  qed simp
qed

lemma outside_quoted: "utf8_valid s \<Longrightarrow> outside (quoted html s)"
  using valid_escapes_quoted [of html s]
  by (simp add: outside_def quoted_def char_of_consts utf8_valid_append quote_body_utf8)

lemma outside_literals: "outside ''null''" "outside ''true''" "outside ''false''"
  by (rule outside_plain, code_simp)+

lemma outside_print: "printable j \<Longrightarrow> outside (print_json html j)"
proof (induction j rule: printable.induct)
  case (3 xs)
  have "outside (join '','' (map (print_json html) xs))"
    by (rule outside_join) (use 3 in \<open>auto intro: outside_byte\<close>)
  then show ?case
    using outside_append [OF outside_append, of "''[''" _ "'']''"] by (simp add: outside_byte)
next
  case (4 ms)
  have "outside (join '','' (map (\<lambda>m. quoted html (fst m) @ '':'' @ print_json html (snd m)) ms))"
    by (rule outside_join) (use 4 in \<open>auto intro!: outside_byte outside_Cons outside_append outside_quoted\<close>)
  then show ?case
    using outside_append [OF outside_append, of "''{''" _ "''}''"] by (simp add: outside_byte)
next
  case (1 n)
  then show ?case using good_number_chars [of n] number_char_plain
    by (auto simp: list_all_iff intro: outside_plain)
qed (simp_all add: outside_quoted outside_literals)

lemma canonical_json_iff:
  "canonical_json d = Some c \<longleftrightarrow>
     d \<noteq> [] \<and> int (length d) \<le> 8388608 \<and> utf8_valid d \<and> valid_escapes False d
     \<and> (\<exists>j. decode_strict GAny d = Inr j \<and> c = print_json False (sort_json j))"
  by (auto simp: canonical_json_def split: sum.splits)

lemma canonical_json_sorted:
  assumes "canonical_json d = Some c"
  obtains j where "parse_json d = Some j" "printable j" "decode_strict GAny d = Inr j"
    "c = print_json False (sort_json j)" "parse_json c = Some (sort_json j)"
  using assms parse_json_printable [of d] parse_print [of "sort_json _" False]
  unfolding canonical_json_iff decode_strict_iff by auto

lemma print_json_nonempty: "printable j \<Longrightarrow> print_json html j \<noteq> []"
  by (cases j) (auto simp: quoted_def dest: good_number_first)

text \<open>The canonical text of a printed tree within the limits.\<close>

lemma canonical_json_print:
  assumes j: "printable j" "unambiguous GAny j" "depth_of j \<le> max_depth" "node_count j \<le> max_nodes"
    and len: "int (length (print_json html j)) \<le> 8388608"
  shows "canonical_json (print_json html j) = Some (print_json False (sort_json j))"
proof -
  have "outside (print_json html j)" by (rule outside_print) (rule j(1))
  then have "utf8_valid (print_json html j)"
    "valid_escapes False (print_json html j @ []) = valid_escapes False []"
    unfolding outside_def by blast+
  then have "utf8_valid (print_json html j)" "valid_escapes False (print_json html j)"
    by (simp_all add: valid_escapes.simps [of _ "[]"])
  moreover have "decode_strict GAny (print_json html j) = Inr j"
    using j len unfolding decode_strict_iff by (simp add: parse_print max_bytes_def)
  ultimately show ?thesis
    using len j(1) by (simp add: canonical_json_iff print_json_nonempty)
qed

lemma canonical_json_again:
  assumes c: "canonical_json d = Some c" and len: "int (length c) \<le> 8388608"
  shows "canonical_json c = Some c"
proof -
  obtain j where j: "printable j" "decode_strict GAny d = Inr j" "c = print_json False (sort_json j)"
    "parse_json c = Some (sort_json j)" using c by (rule canonical_json_sorted)
  have "decode_strict GAny c = Inr (sort_json j)"
    using j(2,4) len unfolding decode_strict_iff sort_json_unambiguous sort_json_depth sort_json_nodes
    by (simp only: max_bytes_def fits_any simp_thms)
  moreover have "outside c" unfolding j(3) by (rule outside_print) (simp add: j(1))
  then have "utf8_valid c" "valid_escapes False (c @ []) = valid_escapes False []"
    unfolding outside_def by blast+
  then have "utf8_valid c" "valid_escapes False c" by (simp_all add: valid_escapes.simps [of _ "[]"])
  moreover have "c \<noteq> []" using j(1,3) by (simp add: print_json_nonempty)
  ultimately show ?thesis using len by (simp add: canonical_json_iff sort_json_idem j(3))
qed

text \<open>
  C17. Canonical encoding loses nothing but the order of members: the canonical text parses
  to the document with its members sorted, and two documents have one canonical text exactly
  when they differ in the order of members only. The canonical text is itself canonical when it
  is within the limit of 8388608 bytes for a document: escapes make a canonical text longer than
  its document, and one above the limit is refused by a second encoding.
\<close>

theorem canonical_json_roundtrip:
  assumes "canonical_json d = Some c"
  shows "(\<exists>j. parse_json d = Some j \<and> parse_json c = Some (sort_json j))
    \<and> (int (length c) \<le> 8388608 \<longrightarrow> canonical_json c = Some c)
    \<and> (\<forall>e k. canonical_json e = Some k \<longrightarrow>
          (k = c \<longleftrightarrow> map_option sort_json (parse_json e) = map_option sort_json (parse_json d)))"
proof -
  obtain j where j: "parse_json d = Some j" "c = print_json False (sort_json j)"
    "parse_json c = Some (sort_json j)" using assms by (rule canonical_json_sorted)
  have "k = c \<longleftrightarrow> map_option sort_json (parse_json e) = map_option sort_json (parse_json d)"
    if "canonical_json e = Some k" for e k
  proof -
    from that obtain i where i: "parse_json e = Some i" "k = print_json False (sort_json i)"
      "parse_json k = Some (sort_json i)" by (rule canonical_json_sorted)
    have "sort_json i = sort_json j" if "k = c" using i(3) j(3) that by simp
    moreover have "k = c" if "sort_json i = sort_json j" using i(2) j(2) that by (simp only:)
    ultimately show ?thesis by (auto simp: i(1) j(1))
  qed
  then show ?thesis using j(1,3) canonical_json_again [OF assms] by blast
qed

definition sample_document :: bytes where
  "sample_document =
     [CHR ''{'', CHR 0x22, CHR ''b'', CHR 0x22, CHR '':'', CHR ''1'', CHR '','',
      CHR 0x22, CHR ''a'', CHR 0x22, CHR '':'', CHR '' '', CHR ''['', CHR ''t'', CHR ''r'', CHR ''u'',
      CHR ''e'', CHR '']'', CHR ''}'']"

theorem canonical_json_roundtrip_witness:
  "\<exists>c. canonical_json sample_document = Some c \<and> canonical_json c = Some c
     \<and> (\<exists>j. parse_json sample_document = Some j \<and> parse_json c = Some (sort_json j))"
proof -
  let ?c = "print_json False (JObj [(''a'', JArr [JBool True]), (''b'', JNum ''1'')])"
  have c: "canonical_json sample_document = Some ?c" by code_simp
  have "int (length ?c) \<le> 8388608" by code_simp
  with canonical_json_roundtrip [OF c] c show ?thesis by blast
qed

text \<open>Equal canonical digests mean equal documents up to order, or a collision.\<close>

lemma canonical_digest_binds:
  assumes "canonical_digest j = Some x" "canonical_digest k = Some x" "printable j" "printable k"
  shows "sort_json j = sort_json k \<or> (\<exists>a b. a \<noteq> b \<and> sha256 a = sha256 b)"
proof -
  from assms(1,2) obtain a b where ab: "canonical_json (marshal j) = Some a"
    "canonical_json (marshal k) = Some b" "sha256 a = sha256 b"
    by (auto simp: canonical_digest_def)
  have "parse_json (marshal j) = Some j" "parse_json (marshal k) = Some k"
    using assms(3,4) by (simp_all add: marshal_def parse_print)
  then have "parse_json a = Some (sort_json j)" "parse_json b = Some (sort_json k)"
    using ab by (auto elim!: canonical_json_sorted)
  then show ?thesis using ab(3) by (cases "a = b") auto
qed

end
