(* ===== verification/Browser_Contract.thy ===== *)
theory Browser_Contract
  imports Canonical_Json Go_Time
begin

text \<open>
  Package \<^verbatim>\<open>browsercontract\<close>, \<^verbatim>\<open>types.go\<close>, \<^verbatim>\<open>protocol.go\<close> and \<^verbatim>\<open>validate.go\<close>: the call, the
  worker, the session, the configuration of one attempt and its authority, with their
  validators and digests. \<^verbatim>\<open>profile.ParseOrigin\<close> of the browser tools is not part of the
  repository: it is the parameter \<^verbatim>\<open>po\<close>, which maps a text to its canonical origin when
  the text is one.
\<close>

subsection \<open>Types\<close>

record slot_binding =
  sb_slot :: bytes
  sb_name :: bytes

record credential_revision =
  cr_name :: bytes
  cr_revision :: bytes

record selector =
  sl_kind :: bytes
  sl_value :: bytes
  sl_key :: bytes

text \<open>
  A raw message and a slice whose nil is told from empty are optional. The other slices must
  not be empty to be accepted.
\<close>

record browser_call =
  bl_step_id :: bytes
  bl_operation_id :: bytes
  bl_invocation_id :: bytes
  bl_kind :: bytes
  bl_source_id :: bytes
  bl_source_sha256 :: bytes
  bl_profile :: bytes
  bl_selector :: selector
  bl_selected_sha256 :: bytes
  bl_outer :: bytes
  bl_inner :: bytes
  bl_origins :: "bytes list"
  bl_effects :: "bytes option"
  bl_confirmation :: bytes
  bl_slots :: "slot_binding list option"
  bl_auth_source :: bytes
  bl_session :: bytes
  bl_registration_input :: bytes
  bl_reuse :: bool
  bl_save :: bool

record worker =
  wk_profile :: bytes
  wk_binary :: bytes
  wk_closure :: bytes
  wk_runtime :: bytes

text \<open>The generation is a \<^verbatim>\<open>uint64\<close>: an integer below two to the 64 that is not negative.\<close>

record browser_session =
  ss_name :: bytes
  ss_binding :: bytes
  ss_generation :: int
  ss_created :: bytes
  ss_expires :: bytes
  ss_reuse :: bool
  ss_save :: bool

record browser_config =
  cf_version :: bytes
  cf_owner :: bytes
  cf_agent :: bytes
  cf_run_id :: bytes
  cf_package :: bytes
  cf_handoff :: bytes
  cf_inputs :: bytes
  cf_approval :: bytes
  cf_plan :: bytes
  cf_workflow :: bytes
  cf_supplement :: bytes
  cf_worker :: worker
  cf_driver :: bytes
  cf_nonce :: bytes
  cf_containment :: bytes
  cf_deadline :: bytes
  cf_origins :: "bytes list"
  cf_calls :: "browser_call list"
  cf_revisions :: "credential_revision list option"
  cf_session :: "browser_session option"
  cf_fact_refs :: "bytes list"

record browser_authority =
  ba_version :: bytes
  ba_config_sha256 :: bytes
  ba_config :: browser_config

definition config_version :: bytes where "config_version = ''openudon.browser-config.v1''"
definition browser_authority_version :: bytes where
  "browser_authority_version = ''openudon.browser-authority.v1''"

subsection \<open>Protocols\<close>

definition protocols :: "bytes \<Rightarrow> bytes \<times> bytes" where
  "protocols p =
     (if p = ''uws.browser-authentication.1.0'' then (''udon.browser-driver.v2'', [])
      else if p = ''uws.browser-authentication.1.1'' then (''udon.browser-driver.v3'', [])
      else if p \<in> {''uws.browser.1.5'', ''uws.browser.1.6'', ''uws.browser.1.7''}
        then (''udon.browser-driver.v3'', ''udon.browser-driver.v2'')
      else if p \<in> {''uws.browser.1.8'', ''uws.browser.1.9''}
        then (''udon.browser-driver.v10'', ''udon.browser-driver.v3'')
      else if p = ''uws.browser.1.10'' then (''udon.browser-driver.v11'', ''udon.browser-driver.v4'')
      else if p = ''uws.browser-registration.1.0'' then (''udon.browser-driver.v4'', [])
      else if p = ''uws.browser-registration.1.1'' then (''udon.browser-driver.v5'', [])
      else if p = ''uws.browser-registration.1.2'' then (''udon.browser-driver.v6'', [])
      else ([], []))"

definition protocol_pair_valid :: "browser_call \<Rightarrow> bool" where
  "protocol_pair_valid c =
     (case protocols (bl_profile c) of
        (outer, inner) \<Rightarrow>
          if outer = [] \<or> inner \<noteq> bl_inner c then False
          else if bl_outer c = outer then True
          else if bl_profile c = ''uws.browser-authentication.1.1''
                  \<and> (bl_outer c = ''udon.browser-driver.v10'' \<or> bl_outer c = ''udon.browser-driver.v11'')
            then True
          else bl_profile c \<in> {''uws.browser.1.5'', ''uws.browser.1.6'', ''uws.browser.1.7''}
               \<and> bl_outer c = ''udon.browser-driver.v10'')"

subsection \<open>Syntax\<close>

definition contract_rest :: "char \<Rightarrow> bool" where
  "contract_rest c = (is_alnum c \<or> c \<in> set ''_.:-'')"

definition contract_identifier :: "bytes \<Rightarrow> bool" where
  "contract_identifier s = matches_class is_alnum contract_rest 127 s"

definition symbol_rest :: "char \<Rightarrow> bool" where
  "symbol_rest c = (is_alnum c \<or> c \<in> set ''_-'')"

definition contract_symbol :: "bytes \<Rightarrow> bool" where
  "contract_symbol s = matches_class (\<lambda>c. is_lower c \<or> is_upper c) symbol_rest 127 s"

definition action_key :: "bytes \<Rightarrow> bool" where
  "action_key s = (s \<noteq> [] \<and> list_all symbol_rest s)"

definition effect_name :: "bytes \<Rightarrow> bool" where
  "effect_name s = matches_class is_lower (\<lambda>c. is_lower c \<or> is_digit c \<or> c = CHR ''_'') 63 s"

definition digest_valid :: "bytes \<Rightarrow> bool" where
  "digest_valid s = (if length s \<noteq> 64 \<or> to_lower s \<noteq> s then False else hex_decodable s)"

definition not_above :: "bytes option \<Rightarrow> bytes \<Rightarrow> bool" where
  "not_above previous x = (case previous of None \<Rightarrow> False | Some p \<Rightarrow> x \<le> p)"

fun scan_origins :: "(bytes \<Rightarrow> bytes option) \<Rightarrow> bytes option \<Rightarrow> bytes list \<Rightarrow> bool" where
  "scan_origins po previous [] = True"
| "scan_origins po previous (x # xs) =
     (if po x \<noteq> Some x \<or> 2048 < length x \<or> not_above previous x then False
      else scan_origins po (Some x) xs)"

definition origins_valid :: "(bytes \<Rightarrow> bytes option) \<Rightarrow> bytes list \<Rightarrow> bool" where
  "origins_valid po origins =
     (if origins = [] \<or> 64 < length origins then False else scan_origins po None origins)"

subsection \<open>Calls\<close>

definition slots_of :: "browser_call \<Rightarrow> slot_binding list" where
  "slots_of c = (case bl_slots c of None \<Rightarrow> [] | Some xs \<Rightarrow> xs)"

definition call_kind_valid :: "browser_call \<Rightarrow> bool" where
  "call_kind_valid c =
     (if bl_kind c = ''action'' then
        \<not> (\<not> has_prefix (bl_profile c) ''uws.browser.1.'' \<or> slots_of c \<noteq> []
           \<or> bl_registration_input c \<noteq> [] \<or> bl_save c
           \<or> bl_session c = [] \<and> (bl_auth_source c \<noteq> [] \<or> bl_reuse c)
           \<or> bl_session c \<noteq> [] \<and> (\<not> contract_identifier (bl_session c)
                                   \<or> \<not> contract_identifier (bl_auth_source c)))
      else if bl_kind c = ''authentication'' then
        (if \<not> contract_symbol (sl_key (bl_selector c)) then False
         else \<not> (\<not> has_prefix (bl_profile c) ''uws.browser-authentication.''
                 \<or> \<not> contract_identifier (bl_session c) \<or> bl_auth_source c \<noteq> []
                 \<or> bl_registration_input c \<noteq> [] \<or> bl_confirmation c \<noteq> []))
      else if bl_kind c = ''registration'' then
        (if \<not> contract_symbol (sl_key (bl_selector c)) then False
         else \<not> (\<not> has_prefix (bl_profile c) ''uws.browser-registration.'' \<or> bl_session c \<noteq> []
                 \<or> bl_auth_source c \<noteq> [] \<or> bl_reuse c \<or> bl_save c
                 \<or> bl_registration_input c \<noteq> [] \<and> \<not> contract_identifier (bl_registration_input c)))
      else False)"

text \<open>\<^verbatim>\<open>json.Unmarshal\<close> of the effects into a slice of strings.\<close>

definition effects_of :: "bytes \<Rightarrow> bytes list option" where
  "effects_of raw =
     (case parse_json raw of
        None \<Rightarrow> None
      | Some j \<Rightarrow> if fits (GSlice GString) j then Some (map str_of (elements j)) else None)"

definition effects_valid :: "bytes option \<Rightarrow> bool" where
  "effects_valid effects =
     (case effects of
        None \<Rightarrow> False
      | Some raw \<Rightarrow>
          if raw = [] \<or> 4096 < length raw then False
          else if canonical_json raw = None then False
          else case effects_of raw of
            None \<Rightarrow> False
          | Some es \<Rightarrow> if es = [] \<or> 64 < length es then False else unique_scan effect_name id [] es)"

fun scan_slots :: "bytes option \<Rightarrow> slot_binding list \<Rightarrow> bool" where
  "scan_slots previous [] = True"
| "scan_slots previous (b # bs) =
     (if \<not> contract_symbol (sb_slot b) \<or> \<not> contract_identifier (sb_name b)
         \<or> not_above previous (sb_slot b) then False
      else scan_slots (Some (sb_slot b)) bs)"

definition validate_call :: "(bytes \<Rightarrow> bytes option) \<Rightarrow> browser_call \<Rightarrow> bool" where
  "validate_call po c =
     (if \<not> contract_identifier (bl_step_id c) \<or> \<not> contract_identifier (bl_operation_id c)
         \<or> bl_invocation_id c \<noteq> bl_step_id c \<or> \<not> contract_identifier (bl_source_id c)
         \<or> \<not> digest_valid (bl_source_sha256 c) \<or> \<not> digest_valid (bl_selected_sha256 c)
         \<or> \<not> origins_valid po (bl_origins c) \<or> sl_kind (bl_selector c) \<noteq> ''id''
         \<or> sl_value (bl_selector c) \<noteq> sl_key (bl_selector c) \<or> \<not> action_key (sl_key (bl_selector c))
         \<or> 1024 < length (sl_key (bl_selector c)) \<or> \<not> protocol_pair_valid c
         \<or> bl_slots c = None \<or> 128 < length (slots_of c) then False
      else if \<not> call_kind_valid c then False
      else if bl_confirmation c \<noteq> [] \<and> \<not> digest_valid (bl_confirmation c) then False
      else if \<not> effects_valid (bl_effects c) then False
      else scan_slots None (slots_of c))"

subsection \<open>Configurations\<close>

definition config_digests :: "browser_config \<Rightarrow> bytes list" where
  "config_digests c =
     [cf_package c, cf_handoff c, cf_inputs c, cf_approval c, cf_plan c, cf_workflow c,
      cf_supplement c, wk_binary (cf_worker c), wk_closure (cf_worker c), cf_driver c]"

text \<open>The permission a call asks for must be one the session has.\<close>

definition call_session_ok :: "browser_session option \<Rightarrow> browser_call \<Rightarrow> bool" where
  "call_session_ok session call =
     (if bl_reuse call \<or> bl_save call then
        (case session of
           None \<Rightarrow> False
         | Some s \<Rightarrow>
             \<not> (ss_name s \<noteq> bl_session call \<or> bl_reuse call \<and> \<not> ss_reuse s
                \<or> bl_save call \<and> \<not> ss_save s))
      else True)"

text \<open>
  The loop over the calls: the step and operation identities seen, the origins and credential
  names collected (as lists of keys), the number of calls that save.
\<close>

fun scan_calls ::
  "(bytes \<Rightarrow> bytes option) \<Rightarrow> browser_session option \<Rightarrow> bytes list \<Rightarrow> bytes list \<Rightarrow> bytes list
     \<Rightarrow> bytes list \<Rightarrow> nat \<Rightarrow> browser_call list \<Rightarrow> (bytes list \<times> bytes list \<times> nat) option"
where
  "scan_calls po session steps ops origins credentials saves [] = Some (origins, credentials, saves)"
| "scan_calls po session steps ops origins credentials saves (c # cs) =
     (if \<not> validate_call po c \<or> bl_step_id c \<in> set steps \<or> bl_operation_id c \<in> set ops then None
      else if \<not> call_session_ok session c then None
      else scan_calls po session (bl_step_id c # steps) (bl_operation_id c # ops)
             (bl_origins c @ origins) (map sb_name (slots_of c) @ credentials)
             (if bl_save c then Suc saves else saves) cs)"

fun scan_revisions :: "bytes list \<Rightarrow> bytes option \<Rightarrow> credential_revision list \<Rightarrow> bool" where
  "scan_revisions credentials previous [] = True"
| "scan_revisions credentials previous (r # rs) =
     (if cr_name r \<notin> set credentials \<or> \<not> contract_identifier (cr_name r)
         \<or> \<not> contract_identifier (cr_revision r) \<or> not_above previous (cr_name r) then False
      else scan_revisions credentials (Some (cr_name r)) rs)"

definition max_safe_integer :: int where
  "max_safe_integer = 9007199254740991"

text \<open>Thirty days in nanoseconds.\<close>

definition session_lifetime :: int where
  "session_lifetime = 30 * 24 * 3600 * 1000000000"

definition session_times_valid :: "browser_session \<Rightarrow> int \<Rightarrow> bool" where
  "session_times_valid s deadline =
     (case (parse_instant (ss_created s), parse_instant (ss_expires s)) of
        (Some created, Some expires) \<Rightarrow>
          \<not> (\<not> has_suffix (ss_created s) ''Z'' \<or> \<not> has_suffix (ss_expires s) ''Z''
             \<or> \<not> created < expires \<or> session_lifetime < sub_duration expires created
             \<or> \<not> created < deadline)
      | _ \<Rightarrow> False)"

fun session_use :: "bytes \<Rightarrow> bool \<times> bool \<times> bool \<Rightarrow> browser_call list \<Rightarrow> bool \<times> bool \<times> bool" where
  "session_use name flags [] = flags"
| "session_use name (found, reuse, save) (c # cs) =
     (if bl_session c = name then session_use name (True, reuse \<or> bl_reuse c, save \<or> bl_save c) cs
      else session_use name (found, reuse, save) cs)"

definition session_valid :: "browser_config \<Rightarrow> int \<Rightarrow> bool" where
  "session_valid c deadline =
     (case cf_session c of
        None \<Rightarrow> True
      | Some s \<Rightarrow>
          if \<not> contract_identifier (ss_name s) \<or> \<not> digest_valid (ss_binding s)
             \<or> ss_generation s = 0 \<or> max_safe_integer < ss_generation s then False
          else if \<not> session_times_valid s deadline then False
          else
            (case session_use (ss_name s) (False, False, False) (cf_calls c) of
               (found, reuse, save) \<Rightarrow>
                 \<not> (\<not> found \<and> (ss_reuse s \<or> ss_save s) \<or> reuse \<noteq> ss_reuse s \<or> save \<noteq> ss_save s)))"

definition validate_config :: "(bytes \<Rightarrow> bytes option) \<Rightarrow> browser_config \<Rightarrow> bool" where
  "validate_config po c =
     (if cf_version c \<noteq> config_version \<or> \<not> contract_identifier (cf_owner c)
         \<or> \<not> contract_identifier (cf_agent c) \<or> \<not> contract_identifier (cf_run_id c)
         \<or> \<not> contract_identifier (wk_profile (cf_worker c)) \<or> \<not> contract_identifier (cf_nonce c)
         \<or> \<not> contract_identifier (cf_containment c) \<or> \<not> origins_valid po (cf_origins c)
         \<or> cf_calls c = [] \<or> 100 < length (cf_calls c) \<or> cf_revisions c = None
         \<or> 128 < length (the (cf_revisions c)) \<or> cf_fact_refs c = [] \<or> 128 < length (cf_fact_refs c)
        then False
      else if \<not> list_all digest_valid (config_digests c) then False
      else if length (wk_runtime (cf_worker c)) \<noteq> 40
              \<or> to_lower (wk_runtime (cf_worker c)) \<noteq> wk_runtime (cf_worker c) then False
      else if \<not> hex_decodable (wk_runtime (cf_worker c)) then False
      else case parse_instant (cf_deadline c) of
        None \<Rightarrow> False
      | Some deadline \<Rightarrow>
          (case scan_calls po (cf_session c) [] [] [] [] 0 (cf_calls c) of
             None \<Rightarrow> False
           | Some (origins, credentials, saves) \<Rightarrow>
               if 1 < saves then False
               else if join [CHR 0x00] (sorted_keys origins) \<noteq> join [CHR 0x00] (cf_origins c) then False
               else if length (the (cf_revisions c)) \<noteq> length (remdups credentials) then False
               else if \<not> scan_revisions credentials None (the (cf_revisions c)) then False
               else if \<not> unique_scan contract_identifier id [] (cf_fact_refs c) then False
               else session_valid c deadline))"

subsection \<open>What an accepted configuration is\<close>

fun ascending_from :: "bytes option \<Rightarrow> bytes list \<Rightarrow> bool" where
  "ascending_from previous [] = True"
| "ascending_from previous (x # xs) = (\<not> not_above previous x \<and> ascending_from (Some x) xs)"

lemma ascending_from_Some: "ascending_from (Some p) xs \<longleftrightarrow> ascending id (p # xs)"
  by (induction xs arbitrary: p) (auto simp: not_above_def not_le)

lemma ascending_from_None: "ascending_from None xs \<longleftrightarrow> ascending id xs"
proof (cases xs)
  case (Cons x xs)
  then show ?thesis by (cases xs) (auto simp: not_above_def ascending_from_Some)
qed simp

lemma scan_origins_iff:
  "scan_origins po p xs \<longleftrightarrow> (\<forall>x \<in> set xs. po x = Some x \<and> length x \<le> 2048) \<and> ascending_from p xs"
  by (induction xs arbitrary: p) auto

lemma origins_valid_iff:
  "origins_valid po xs \<longleftrightarrow> xs \<noteq> [] \<and> length xs \<le> 64
     \<and> (\<forall>x \<in> set xs. po x = Some x \<and> length x \<le> 2048) \<and> ascending id xs"
  by (auto simp: origins_valid_def scan_origins_iff ascending_from_None)

lemma scan_revisions_iff:
  "scan_revisions cs p rs \<longleftrightarrow>
     (\<forall>r \<in> set rs. cr_name r \<in> set cs \<and> contract_identifier (cr_name r)
        \<and> contract_identifier (cr_revision r))
     \<and> ascending_from p (map cr_name rs)"
  by (induction rs arbitrary: p) auto

lemma scan_calls_iff:
  "scan_calls po session steps ops origins credentials saves cs = Some (os, ks, n) \<longleftrightarrow>
     (\<forall>c \<in> set cs. validate_call po c \<and> call_session_ok session c)
     \<and> fresh steps (map bl_step_id cs) \<and> fresh ops (map bl_operation_id cs)
     \<and> os = concat (map bl_origins (rev cs)) @ origins
     \<and> ks = concat (map (\<lambda>c. map sb_name (slots_of c)) (rev cs)) @ credentials
     \<and> n = saves + length (filter bl_save cs)"
  by (induction cs arbitrary: steps ops origins credentials saves) (auto simp: fresh_Cons)

lemma session_use_eq:
  "session_use name (f, r, s) cs =
     (f \<or> (\<exists>c \<in> set cs. bl_session c = name), r \<or> (\<exists>c \<in> set cs. bl_session c = name \<and> bl_reuse c),
      s \<or> (\<exists>c \<in> set cs. bl_session c = name \<and> bl_save c))"
  by (induction cs arbitrary: f r s) auto

lemma digest_valid_plain: "digest_valid s \<longleftrightarrow> plain_sha256 s"
  by (auto simp: digest_valid_def plain_sha256_def to_lower_id_iff hex_decodable_def list_all_iff lower_hex_iff)

text \<open>
  The shape of an accepted configuration: the origins of the attempt are exactly those of its
  calls, the credential revisions exactly those the calls name, at most one call saves, and
  the session grants exactly the permissions its calls use.
\<close>

definition session_shape :: "browser_config \<Rightarrow> int \<Rightarrow> bool" where
  "session_shape c deadline =
     (case cf_session c of
        None \<Rightarrow> \<forall>x \<in> set (cf_calls c). \<not> bl_reuse x \<and> \<not> bl_save x
      | Some s \<Rightarrow>
          contract_identifier (ss_name s) \<and> plain_sha256 (ss_binding s)
          \<and> ss_generation s \<noteq> 0 \<and> ss_generation s \<le> max_safe_integer \<and> session_times_valid s deadline
          \<and> (\<forall>x \<in> set (cf_calls c). bl_reuse x \<or> bl_save x \<longrightarrow> bl_session x = ss_name s)
          \<and> ss_reuse s = (\<exists>x \<in> set (cf_calls c). bl_reuse x)
          \<and> ss_save s = (\<exists>x \<in> set (cf_calls c). bl_save x))"

text \<open>A protocol pair of a profile: the outer and the inner driver.\<close>

definition protocol_table :: "(bytes \<times> bytes \<times> bytes) list" where
  "protocol_table =
     [(''uws.browser-authentication.1.0'', ''udon.browser-driver.v2'', []),
      (''uws.browser-authentication.1.1'', ''udon.browser-driver.v3'', []),
      (''uws.browser-authentication.1.1'', ''udon.browser-driver.v10'', []),
      (''uws.browser-authentication.1.1'', ''udon.browser-driver.v11'', []),
      (''uws.browser.1.5'', ''udon.browser-driver.v3'', ''udon.browser-driver.v2''),
      (''uws.browser.1.5'', ''udon.browser-driver.v10'', ''udon.browser-driver.v2''),
      (''uws.browser.1.6'', ''udon.browser-driver.v3'', ''udon.browser-driver.v2''),
      (''uws.browser.1.6'', ''udon.browser-driver.v10'', ''udon.browser-driver.v2''),
      (''uws.browser.1.7'', ''udon.browser-driver.v3'', ''udon.browser-driver.v2''),
      (''uws.browser.1.7'', ''udon.browser-driver.v10'', ''udon.browser-driver.v2''),
      (''uws.browser.1.8'', ''udon.browser-driver.v10'', ''udon.browser-driver.v3''),
      (''uws.browser.1.9'', ''udon.browser-driver.v10'', ''udon.browser-driver.v3''),
      (''uws.browser.1.10'', ''udon.browser-driver.v11'', ''udon.browser-driver.v4''),
      (''uws.browser-registration.1.0'', ''udon.browser-driver.v4'', []),
      (''uws.browser-registration.1.1'', ''udon.browser-driver.v5'', []),
      (''uws.browser-registration.1.2'', ''udon.browser-driver.v6'', [])]"

definition origins_shape :: "(bytes \<Rightarrow> bytes option) \<Rightarrow> bytes list \<Rightarrow> bool" where
  "origins_shape po xs =
     (1 \<le> length xs \<and> length xs \<le> 64 \<and> sorted_wrt (<) xs
      \<and> (\<forall>x \<in> set xs. po x = Some x \<and> length x \<le> 2048))"

text \<open>What a call may be by its kind.\<close>

definition kind_shape :: "browser_call \<Rightarrow> bool" where
  "kind_shape x =
     (bl_kind x = ''action'' \<and> prefix ''uws.browser.1.'' (bl_profile x) \<and> bl_slots x = Some []
        \<and> bl_registration_input x = [] \<and> \<not> bl_save x
        \<and> (bl_session x = [] \<and> bl_auth_source x = [] \<and> \<not> bl_reuse x
           \<or> contract_identifier (bl_session x) \<and> contract_identifier (bl_auth_source x))
      \<or> bl_kind x = ''authentication'' \<and> prefix ''uws.browser-authentication.'' (bl_profile x)
        \<and> contract_symbol (sl_key (bl_selector x)) \<and> contract_identifier (bl_session x)
        \<and> bl_auth_source x = [] \<and> bl_registration_input x = [] \<and> bl_confirmation x = []
      \<or> bl_kind x = ''registration'' \<and> prefix ''uws.browser-registration.'' (bl_profile x)
        \<and> contract_symbol (sl_key (bl_selector x)) \<and> bl_session x = [] \<and> bl_auth_source x = []
        \<and> \<not> bl_reuse x \<and> \<not> bl_save x
        \<and> (bl_registration_input x = [] \<or> contract_identifier (bl_registration_input x)))"

definition call_shape :: "(bytes \<Rightarrow> bytes option) \<Rightarrow> browser_call \<Rightarrow> bool" where
  "call_shape po x =
     (contract_identifier (bl_step_id x) \<and> contract_identifier (bl_operation_id x)
      \<and> bl_invocation_id x = bl_step_id x \<and> contract_identifier (bl_source_id x)
      \<and> plain_sha256 (bl_source_sha256 x) \<and> plain_sha256 (bl_selected_sha256 x)
      \<and> (bl_confirmation x = [] \<or> plain_sha256 (bl_confirmation x))
      \<and> origins_shape po (bl_origins x)
      \<and> sl_kind (bl_selector x) = ''id'' \<and> sl_value (bl_selector x) = sl_key (bl_selector x)
      \<and> action_key (sl_key (bl_selector x)) \<and> length (sl_key (bl_selector x)) \<le> 1024
      \<and> (bl_profile x, bl_outer x, bl_inner x) \<in> set protocol_table \<and> kind_shape x
      \<and> (\<exists>bs. bl_slots x = Some bs \<and> length bs \<le> 128 \<and> sorted_wrt (<) (map sb_slot bs)
           \<and> (\<forall>b \<in> set bs. contract_symbol (sb_slot b) \<and> contract_identifier (sb_name b)))
      \<and> (\<exists>raw es. bl_effects x = Some raw \<and> length raw \<le> 4096
           \<and> (\<exists>c. canonical_json raw = Some c) \<and> effects_of raw = Some es
           \<and> 1 \<le> length es \<and> length es \<le> 64 \<and> distinct es \<and> (\<forall>e \<in> set es. effect_name e)))"

definition config_shape :: "(bytes \<Rightarrow> bytes option) \<Rightarrow> browser_config \<Rightarrow> bool" where
  "config_shape po c =
     (cf_version c = ''openudon.browser-config.v1''
      \<and> (\<forall>x \<in> {cf_owner c, cf_agent c, cf_run_id c, wk_profile (cf_worker c), cf_nonce c,
                 cf_containment c}. contract_identifier x)
      \<and> (\<forall>x \<in> {cf_package c, cf_handoff c, cf_inputs c, cf_approval c, cf_plan c, cf_workflow c,
                 cf_supplement c, wk_binary (cf_worker c), wk_closure (cf_worker c), cf_driver c}.
           plain_sha256 x)
      \<and> length (wk_runtime (cf_worker c)) = 40 \<and> list_all is_lower_hex (wk_runtime (cf_worker c))
      \<and> origins_shape po (cf_origins c)
      \<and> set (cf_origins c) = (\<Union>x \<in> set (cf_calls c). set (bl_origins x))
      \<and> 1 \<le> length (cf_calls c) \<and> length (cf_calls c) \<le> 100
      \<and> (\<forall>x \<in> set (cf_calls c). call_shape po x)
      \<and> distinct (map bl_step_id (cf_calls c)) \<and> distinct (map bl_operation_id (cf_calls c))
      \<and> length (filter bl_save (cf_calls c)) \<le> 1
      \<and> (\<exists>rs. cf_revisions c = Some rs \<and> length rs \<le> 128
           \<and> map cr_name rs
             = sorted_keys (concat (map (\<lambda>x. map sb_name (slots_of x)) (cf_calls c)))
           \<and> (\<forall>r \<in> set rs. contract_identifier (cr_name r) \<and> contract_identifier (cr_revision r)))
      \<and> 1 \<le> length (cf_fact_refs c) \<and> length (cf_fact_refs c) \<le> 128 \<and> distinct (cf_fact_refs c)
      \<and> (\<forall>x \<in> set (cf_fact_refs c). contract_identifier x)
      \<and> (\<exists>deadline. parse_instant (cf_deadline c) = Some deadline \<and> session_shape c deadline))"

lemma session_shape_iff:
  "(\<forall>x \<in> set (cf_calls c). call_session_ok (cf_session c) x) \<and> session_valid c deadline
     \<longleftrightarrow> session_shape c deadline"
proof (cases "cf_session c")
  case None
  then show ?thesis by (auto simp: session_shape_def session_valid_def call_session_ok_def)
next
  case (Some s)
  let ?cs = "cf_calls c"
  let ?base = "contract_identifier (ss_name s) \<and> plain_sha256 (ss_binding s)
      \<and> ss_generation s \<noteq> 0 \<and> ss_generation s \<le> max_safe_integer \<and> session_times_valid s deadline"
  let ?mine = "\<forall>x \<in> set ?cs. bl_reuse x \<or> bl_save x \<longrightarrow> bl_session x = ss_name s"
  let ?R = "\<exists>x \<in> set ?cs. bl_reuse x" and ?S = "\<exists>x \<in> set ?cs. bl_save x"
  have ok: "(\<forall>x \<in> set ?cs. call_session_ok (cf_session c) x) \<longleftrightarrow>
      ?mine \<and> (?R \<longrightarrow> ss_reuse s) \<and> (?S \<longrightarrow> ss_save s)"
    unfolding call_session_ok_def Some option.case by (auto split: if_splits)
  have valid: "session_valid c deadline \<longleftrightarrow> ?base
      \<and> \<not> (\<not> (\<exists>x \<in> set ?cs. bl_session x = ss_name s) \<and> (ss_reuse s \<or> ss_save s))
      \<and> (\<exists>x \<in> set ?cs. bl_session x = ss_name s \<and> bl_reuse x) = ss_reuse s
      \<and> (\<exists>x \<in> set ?cs. bl_session x = ss_name s \<and> bl_save x) = ss_save s"
    unfolding session_valid_def Some option.case session_use_eq prod.case simp_thms
    by (cases "session_times_valid s deadline") (auto simp: digest_valid_plain not_less)
  have shape: "session_shape c deadline \<longleftrightarrow> ?base \<and> ?mine \<and> ss_reuse s = ?R \<and> ss_save s = ?S"
    by (simp add: session_shape_def Some)
  have named: "(\<exists>x \<in> set ?cs. bl_session x = ss_name s \<and> bl_reuse x) = ?R"
    "(\<exists>x \<in> set ?cs. bl_session x = ss_name s \<and> bl_save x) = ?S" if ?mine
    using that by blast+
  have found: "\<exists>x \<in> set ?cs. bl_session x = ss_name s" if ?mine "?R \<or> ?S"
    using that by blast
  show ?thesis
  proof (cases ?mine)
    case True
    show ?thesis unfolding ok valid shape named [OF True] using found [OF True] True by blast
  next
    case False
    then show ?thesis unfolding ok shape by blast
  qed
qed

text \<open>The loops and conditions of a call in declarative terms.\<close>

lemma origins_shape_iff: "origins_valid po xs \<longleftrightarrow> origins_shape po xs"
  by (cases xs) (auto simp: origins_valid_iff origins_shape_def ascending_sorted_wrt)

lemma scan_slots_iff:
  "scan_slots p bs \<longleftrightarrow>
     (\<forall>b \<in> set bs. contract_symbol (sb_slot b) \<and> contract_identifier (sb_name b))
     \<and> ascending_from p (map sb_slot bs)"
  by (induction bs arbitrary: p) auto

lemma protocol_pair_iff:
  "protocol_pair_valid x \<longleftrightarrow> (bl_profile x, bl_outer x, bl_inner x) \<in> set protocol_table"
proof (cases "bl_profile x \<in> set (map fst protocol_table)")
  case True
  then consider "bl_profile x = ''uws.browser-authentication.1.0''"
    | "bl_profile x = ''uws.browser-authentication.1.1''"
    | "bl_profile x = ''uws.browser.1.5''" | "bl_profile x = ''uws.browser.1.6''"
    | "bl_profile x = ''uws.browser.1.7''" | "bl_profile x = ''uws.browser.1.8''"
    | "bl_profile x = ''uws.browser.1.9''" | "bl_profile x = ''uws.browser.1.10''"
    | "bl_profile x = ''uws.browser-registration.1.0''"
    | "bl_profile x = ''uws.browser-registration.1.1''"
    | "bl_profile x = ''uws.browser-registration.1.2''"
    unfolding protocol_table_def by (simp only: list.map list.set fst_conv insert_iff empty_iff) blast
  then show ?thesis
    by cases (auto simp: protocol_pair_valid_def protocols_def protocol_table_def)
next
  case False
  then have "protocols (bl_profile x) = ([], [])"
    unfolding protocol_table_def by (simp add: protocols_def)
  moreover have "(bl_profile x, bl_outer x, bl_inner x) \<notin> set protocol_table"
    using False by (metis fst_conv image_eqI set_map)
  ultimately show ?thesis by (simp add: protocol_pair_valid_def)
qed

lemma contract_identifier_Nil [simp]: "\<not> contract_identifier []"
  by (simp add: contract_identifier_def matches_class_def)

lemma call_kind_iff:
  "bl_slots x = Some bs \<Longrightarrow> call_kind_valid x \<longleftrightarrow> kind_shape x"
  by (auto simp: call_kind_valid_def kind_shape_def slots_of_def has_prefix_def)

lemma effects_iff:
  "effects_valid effects \<longleftrightarrow>
     (\<exists>raw es. effects = Some raw \<and> length raw \<le> 4096 \<and> (\<exists>c. canonical_json raw = Some c)
        \<and> effects_of raw = Some es \<and> 1 \<le> length es \<and> length es \<le> 64 \<and> distinct es
        \<and> (\<forall>e \<in> set es. effect_name e))"
proof -
  have "canonical_json [] = None" by code_simp
  then show ?thesis
    by (cases effects)
      (auto simp: effects_valid_def unique_scan_start not_less Suc_le_eq split: option.splits if_splits)
qed

lemma call_shape_iff: "validate_call po x \<longleftrightarrow> call_shape po x"
proof (cases "bl_slots x")
  case None
  then show ?thesis by (simp add: validate_call_def call_shape_def)
next
  case (Some bs)
  show ?thesis
    unfolding validate_call_def call_shape_def call_kind_iff [OF Some] effects_iff [symmetric]
      protocol_pair_iff [symmetric] digest_valid_plain origins_shape_iff scan_slots_iff
      ascending_from_None
    by (auto simp: Some slots_of_def ascending_sorted_wrt not_less comp_def)
qed

lemma config_digests_iff:
  "list_all digest_valid (config_digests c) \<longleftrightarrow>
     (\<forall>x \<in> {cf_package c, cf_handoff c, cf_inputs c, cf_approval c, cf_plan c, cf_workflow c,
            cf_supplement c, wk_binary (cf_worker c), wk_closure (cf_worker c), cf_driver c}.
        plain_sha256 x)"
  by (simp add: config_digests_def digest_valid_plain)

lemma runtime_iff:
  "length s = 40 \<and> to_lower s = s \<and> hex_decodable s \<longleftrightarrow> length s = 40 \<and> list_all is_lower_hex s"
  by (auto simp: to_lower_id_iff hex_decodable_def list_all_iff lower_hex_iff)

lemma ascending_names:
  assumes "ascending id xs" "set xs \<subseteq> set ys" "length xs = length (remdups ys)"
  shows "xs = sorted_keys ys"
proof -
  have "distinct xs" using ascending_distinct [OF assms(1)] by simp
  then have "card (set xs) = card (set ys)"
    using assms(3) by (simp add: distinct_card [symmetric] length_remdups_card_conv)
  then have "set xs = set ys" using assms(2) by (intro card_subset_eq) auto
  then show ?thesis
    using assms(1) by (intro ascending_unique) (simp_all add: ascending_sorted_keys)
qed

lemma joined_origins:
  assumes "\<And>x y. po x = Some y \<Longrightarrow> y \<noteq> [] \<and> CHR 0x00 \<notin> set y"
    and "\<forall>x \<in> set xs. po x = Some x" "\<forall>x \<in> set ys. po x = Some x" "ascending id ys"
  shows "join [CHR 0x00] (sorted_keys xs) = join [CHR 0x00] ys \<longleftrightarrow> set xs = set ys"
proof -
  have "join [CHR 0x00] (sorted_keys xs) = join [CHR 0x00] ys \<longleftrightarrow> sorted_keys xs = ys"
    by (rule join_inj) (use assms in auto)
  also have "\<dots> \<longleftrightarrow> set xs = set ys"
    using assms(4) by (metis set_sorted_keys ascending_unique ascending_sorted_keys)
  finally show ?thesis .
qed

lemma revisions_iff:
  "length rs = length (remdups ks) \<and> scan_revisions ks None rs \<longleftrightarrow>
     map cr_name rs = sorted_keys ks
     \<and> (\<forall>r \<in> set rs. contract_identifier (cr_name r) \<and> contract_identifier (cr_revision r))"
proof -
  have "map cr_name rs = sorted_keys ks"
    if "length rs = length (remdups ks)" "scan_revisions ks None rs"
    using that by (intro ascending_names) (auto simp: scan_revisions_iff ascending_from_None)
  moreover have "length rs = length (remdups ks) \<and> (\<forall>r \<in> set rs. cr_name r \<in> set ks)
      \<and> ascending id (map cr_name rs)" if e: "map cr_name rs = sorted_keys ks"
  proof -
    have "length rs = length (sorted_keys ks)" by (metis e length_map)
    then have "length rs = length (remdups ks)" by (simp add: sorted_keys_def)
    moreover have "\<forall>r \<in> set rs. cr_name r \<in> set ks"
      using arg_cong [OF e, of set] by (auto simp: set_sorted_keys)
    ultimately show ?thesis by (simp add: e ascending_sorted_keys)
  qed
  ultimately show ?thesis by (auto simp: scan_revisions_iff ascending_from_None)
qed

lemma validate_config_parts:
  "validate_config po c \<longleftrightarrow>
     cf_version c = config_version
     \<and> list_all contract_identifier
         [cf_owner c, cf_agent c, cf_run_id c, wk_profile (cf_worker c), cf_nonce c, cf_containment c]
     \<and> list_all digest_valid (config_digests c)
     \<and> (length (wk_runtime (cf_worker c)) = 40 \<and> to_lower (wk_runtime (cf_worker c)) = wk_runtime (cf_worker c)
        \<and> hex_decodable (wk_runtime (cf_worker c)))
     \<and> origins_valid po (cf_origins c) \<and> 1 \<le> length (cf_calls c) \<and> length (cf_calls c) \<le> 100
     \<and> 1 \<le> length (cf_fact_refs c) \<and> length (cf_fact_refs c) \<le> 128
     \<and> unique_scan contract_identifier id [] (cf_fact_refs c)
     \<and> (\<exists>rs deadline os ks n. cf_revisions c = Some rs \<and> length rs \<le> 128
          \<and> parse_instant (cf_deadline c) = Some deadline
          \<and> scan_calls po (cf_session c) [] [] [] [] 0 (cf_calls c) = Some (os, ks, n) \<and> n \<le> 1
          \<and> join [CHR 0x00] (sorted_keys os) = join [CHR 0x00] (cf_origins c)
          \<and> (length rs = length (remdups ks) \<and> scan_revisions ks None rs) \<and> session_valid c deadline)"
  unfolding validate_config_def
  by (cases "cf_revisions c"; cases "parse_instant (cf_deadline c)";
      cases "scan_calls po (cf_session c) [] [] [] [] 0 (cf_calls c)")
    (auto simp: not_less Suc_le_eq split: if_split_asm)

lemma config_shape_iff:
  assumes org: "\<And>x y. po x = Some y \<Longrightarrow> y \<noteq> [] \<and> CHR 0x00 \<notin> set y"
  shows "validate_config po c \<longleftrightarrow> config_shape po c"
proof -
  let ?cs = "cf_calls c"
  define os where "os = concat (map bl_origins (rev ?cs))"
  define ks where "ks = concat (map (\<lambda>x. map sb_name (slots_of x)) (rev ?cs))"
  have keys: "sorted_keys ks = sorted_keys (concat (map (\<lambda>x. map sb_name (slots_of x)) ?cs))"
    by (rule ascending_unique) (auto simp: ascending_sorted_keys ks_def)
  have origins: "join [CHR 0x00] (sorted_keys os) = join [CHR 0x00] (cf_origins c)
      \<longleftrightarrow> set (cf_origins c) = (\<Union>x \<in> set ?cs. set (bl_origins x))"
    if "origins_valid po (cf_origins c)" "\<forall>x \<in> set ?cs. validate_call po x"
  proof -
    have "\<forall>x \<in> set os. po x = Some x"
      using that(2) by (auto simp: os_def call_shape_iff call_shape_def origins_shape_def)
    with that(1) show ?thesis
      by (subst joined_origins [OF org]) (auto simp: origins_valid_iff os_def)
  qed
  have scan: "scan_calls po (cf_session c) [] [] [] [] 0 ?cs = Some (os', ks', n) \<longleftrightarrow>
      (\<forall>x \<in> set ?cs. validate_call po x) \<and> (\<forall>x \<in> set ?cs. call_session_ok (cf_session c) x)
      \<and> distinct (map bl_step_id ?cs) \<and> distinct (map bl_operation_id ?cs)
      \<and> os' = os \<and> ks' = ks \<and> n = length (filter bl_save ?cs)" for os' ks' n
    by (auto simp: scan_calls_iff os_def ks_def)
  show ?thesis
    unfolding validate_config_parts scan revisions_iff config_digests_iff runtime_iff config_shape_def
      keys [symmetric] call_shape_iff [symmetric] origins_shape_iff [symmetric] unique_scan_start
      session_shape_iff [symmetric]
    using origins by (auto simp: config_version_def)
qed

text \<open>
  C16. A configuration is accepted exactly when it is of the version, its six identifiers and ten
  digests are well formed and the worker revision is 40 lower-case hexadecimal digits; origins, calls,
  revisions and fact references are within their bounds, the origins strictly ascending and the
  fact references distinct identifiers; every call meets the conditions of its kind; and it is closed
  over its calls: its origins are exactly the origins of its calls, its credential revisions are
  exactly the credentials its calls name, in order and once each, steps and operations are
  distinct, at most one call saves a session, and the session grants a permission exactly when one
  of its calls uses it. The parser of origins is a parameter: what it accepts is assumed not to be
  empty and to have no zero byte, which the comparison of joined origins relies on.
\<close>

theorem config_closed:
  assumes "\<And>x y. po x = Some y \<Longrightarrow> y \<noteq> [] \<and> CHR 0x00 \<notin> set y"
  shows "validate_config po c \<longleftrightarrow> config_shape po c"
  using assms by (rule config_shape_iff)

text \<open>A parser of origins that knows one origin, and a configuration it accepts.\<close>

definition sample_origins :: "bytes \<Rightarrow> bytes option" where
  "sample_origins x = (if x = ''https://shop.example'' then Some x else None)"

definition sample_effects :: bytes where
  "sample_effects = ''['' @ [CHR 0x22] @ ''read'' @ [CHR 0x22] @ '']''"

definition sample_login :: browser_call where
  "sample_login =
     \<lparr>bl_step_id = ''login'', bl_operation_id = ''shop.login'', bl_invocation_id = ''login'',
      bl_kind = ''authentication'', bl_source_id = ''auth'',
      bl_source_sha256 = replicate 64 CHR ''1'', bl_profile = ''uws.browser-authentication.1.1'',
      bl_selector = \<lparr>sl_kind = ''id'', sl_value = ''login'', sl_key = ''login''\<rparr>,
      bl_selected_sha256 = replicate 64 CHR ''2'', bl_outer = ''udon.browser-driver.v10'',
      bl_inner = [], bl_origins = [''https://shop.example''], bl_effects = Some sample_effects,
      bl_confirmation = [], bl_slots = Some [\<lparr>sb_slot = ''password'', sb_name = ''shop_password''\<rparr>],
      bl_auth_source = [], bl_session = ''shop'', bl_registration_input = [],
      bl_reuse = False, bl_save = True\<rparr>"

definition sample_order :: browser_call where
  "sample_order =
     \<lparr>bl_step_id = ''order'', bl_operation_id = ''shop.order'', bl_invocation_id = ''order'',
      bl_kind = ''action'', bl_source_id = ''catalog'',
      bl_source_sha256 = replicate 64 CHR ''3'', bl_profile = ''uws.browser.1.8'',
      bl_selector = \<lparr>sl_kind = ''id'', sl_value = ''place'', sl_key = ''place''\<rparr>,
      bl_selected_sha256 = replicate 64 CHR ''4'', bl_outer = ''udon.browser-driver.v10'',
      bl_inner = ''udon.browser-driver.v3'', bl_origins = [''https://shop.example''],
      bl_effects = Some sample_effects, bl_confirmation = [], bl_slots = Some [],
      bl_auth_source = ''auth'', bl_session = ''shop'', bl_registration_input = [],
      bl_reuse = False, bl_save = False\<rparr>"

definition sample_session :: browser_session where
  "sample_session =
     \<lparr>ss_name = ''shop'', ss_binding = replicate 64 CHR ''5'', ss_generation = 7,
      ss_created = ''2026-01-01T00:00:00Z'', ss_expires = ''2026-01-11T00:00:00Z'',
      ss_reuse = False, ss_save = True\<rparr>"

definition sample_config :: browser_config where
  "sample_config =
     \<lparr>cf_version = config_version, cf_owner = ''owner'', cf_agent = ''agent'', cf_run_id = ''run-1'',
      cf_package = replicate 64 CHR ''a'', cf_handoff = replicate 64 CHR ''b'',
      cf_inputs = replicate 64 CHR ''c'', cf_approval = replicate 64 CHR ''d'',
      cf_plan = replicate 64 CHR ''e'', cf_workflow = replicate 64 CHR ''f'',
      cf_supplement = replicate 64 CHR ''0'',
      cf_worker =
        \<lparr>wk_profile = ''worker'', wk_binary = replicate 64 CHR ''6'', wk_closure = replicate 64 CHR ''7'',
         wk_runtime = replicate 40 CHR ''8''\<rparr>,
      cf_driver = replicate 64 CHR ''9'', cf_nonce = ''nonce'', cf_containment = ''lease-c'',
      cf_deadline = ''2026-01-01T02:00:00Z'', cf_origins = [''https://shop.example''],
      cf_calls = [sample_login, sample_order],
      cf_revisions = Some [\<lparr>cr_name = ''shop_password'', cr_revision = ''r1''\<rparr>],
      cf_session = Some sample_session, cf_fact_refs = [''fact-1'']\<rparr>"

lemma sample_config_valid: "validate_config sample_origins sample_config"
  by code_simp

lemma sample_origins_text: "sample_origins x = Some y \<Longrightarrow> y \<noteq> [] \<and> CHR 0x00 \<notin> set y"
  by (auto simp: sample_origins_def split: if_splits)

theorem config_closed_witness:
  "config_shape sample_origins sample_config
   \<and> \<not> validate_config sample_origins (sample_config\<lparr>cf_plan := ''plan''\<rparr>)"
proof -
  have "\<not> plain_sha256 ''plan''" by (simp add: plain_sha256_def)
  then have "\<not> config_shape sample_origins (sample_config\<lparr>cf_plan := ''plan''\<rparr>)"
    by (simp add: config_shape_def)
  moreover have "validate_config sample_origins c \<longleftrightarrow> config_shape sample_origins c" for c
    by (rule config_closed) (rule sample_origins_text)
  ultimately show ?thesis using sample_config_valid by blast
qed

end
