(* ===== verification/Contract_Wire.thy ===== *)
theory Contract_Wire
  imports Browser_Contract
begin

text \<open>
  Package \<^verbatim>\<open>browsercontract\<close>, the wire forms: the struct tags of \<^verbatim>\<open>types.go\<close>, encoding in field
  order, decoding into the records, the digest of a configuration and the authority over it.
\<close>

subsection \<open>Numbers and raw messages\<close>

text \<open>\<^verbatim>\<open>strconv.FormatUint(n, 10)\<close>.\<close>

function decimal :: "int \<Rightarrow> bytes" where
  "decimal n = (if n < 10 then [digit_char n] else decimal (n div 10) @ [digit_char n])"
  by pat_completeness auto
termination
  by (relation "measure nat") auto

declare decimal.simps [simp del]

text \<open>
  The encoder writes a raw message compacted: white space outside strings goes, and the
  characters the encoder escapes for HTML are escaped inside strings.
\<close>

function compact :: "bool \<Rightarrow> bytes \<Rightarrow> bytes" where
  "compact inside s =
     (case s of
        [] \<Rightarrow> []
      | c # s1 \<Rightarrow>
          if byte c = 34 then c # compact (\<not> inside) s1
          else if \<not> inside then (if is_ws c then compact inside s1 else c # compact inside s1)
          else if byte c = 92 then (case s1 of [] \<Rightarrow> [c] | e # s2 \<Rightarrow> c # e # compact inside s2)
          else if c \<in> set ''<>&''
            then CHR 0x5C # ''u00'' @ [hex_digit (byte c div 16), hex_digit (byte c mod 16)] @ compact inside s1
          else if map byte (take 3 s) \<in> {[226, 128, 168], [226, 128, 169]}
            then CHR 0x5C # ''u202'' @ [hex_digit (byte (s ! 2) mod 16)] @ compact inside (drop 3 s)
          else c # compact inside s1)"
  by pat_completeness auto
termination
  by (relation "measure (\<lambda>(b, s). length s)") auto

declare compact.simps [simp del]

text \<open>
  A raw message in an encoded tree. The printer writes a number as its text, so a number whose
  text is the compacted message prints exactly that message.
\<close>

definition raw_json :: "bytes option \<Rightarrow> json" where
  "raw_json raw = (case raw of None \<Rightarrow> JNull | Some r \<Rightarrow> JNum (compact False r))"

text \<open>Encoding fails on a raw message that is no JSON text.\<close>

definition raw_encodable :: "bytes option \<Rightarrow> bool" where
  "raw_encodable raw = (case raw of None \<Rightarrow> True | Some r \<Rightarrow> parse_json r \<noteq> None)"

definition opt_array :: "('a \<Rightarrow> json) \<Rightarrow> 'a list option \<Rightarrow> json" where
  "opt_array f xs = (case xs of None \<Rightarrow> JNull | Some ys \<Rightarrow> JArr (map f ys))"

subsection \<open>Encoding\<close>

definition selector_json :: "selector \<Rightarrow> json" where
  "selector_json s =
     JObj [(''kind'', JStr (sl_kind s)), (''value'', JStr (sl_value s)), (''key'', JStr (sl_key s))]"

definition slot_json :: "slot_binding \<Rightarrow> json" where
  "slot_json b = JObj [(''slot'', JStr (sb_slot b)), (''name'', JStr (sb_name b))]"

definition revision_json :: "credential_revision \<Rightarrow> json" where
  "revision_json r = JObj [(''name'', JStr (cr_name r)), (''revision'', JStr (cr_revision r))]"

definition call_members :: "json \<Rightarrow> browser_call \<Rightarrow> json" where
  "call_members effects c =
     JObj ([(''step_id'', JStr (bl_step_id c)), (''operation_id'', JStr (bl_operation_id c)),
            (''invocation_id'', JStr (bl_invocation_id c)), (''kind'', JStr (bl_kind c)),
            (''source_id'', JStr (bl_source_id c)), (''source_sha256'', JStr (bl_source_sha256 c)),
            (''profile_version'', JStr (bl_profile c)), (''selector'', selector_json (bl_selector c)),
            (''selected_sha256'', JStr (bl_selected_sha256 c)), (''outer_protocol'', JStr (bl_outer c))]
           @ omit_str ''inner_protocol'' (bl_inner c)
           @ [(''origins'', JArr (map JStr (bl_origins c))), (''effects'', effects)]
           @ omit_str ''confirmation_policy_sha256'' (bl_confirmation c)
           @ [(''credential_slots'', opt_array slot_json (bl_slots c))]
           @ omit_str ''authentication_source_id'' (bl_auth_source c)
           @ omit_str ''session_name'' (bl_session c)
           @ omit_str ''registration_input_binding'' (bl_registration_input c)
           @ [(''reuse_allowed'', JBool (bl_reuse c)), (''save_allowed'', JBool (bl_save c))])"

definition call_json :: "browser_call \<Rightarrow> json" where
  "call_json c = call_members (raw_json (bl_effects c)) c"

definition worker_json :: "worker \<Rightarrow> json" where
  "worker_json w =
     JObj [(''profile'', JStr (wk_profile w)), (''binary_sha256'', JStr (wk_binary w)),
           (''closure_sha256'', JStr (wk_closure w)), (''runtime_revision'', JStr (wk_runtime w))]"

definition session_json :: "browser_session \<Rightarrow> json" where
  "session_json s =
     JObj [(''name'', JStr (ss_name s)), (''binding_sha256'', JStr (ss_binding s)),
           (''generation'', JNum (decimal (ss_generation s))), (''created_at'', JStr (ss_created s)),
           (''expires_at'', JStr (ss_expires s)), (''reuse_allowed'', JBool (ss_reuse s)),
           (''save_allowed'', JBool (ss_save s))]"

definition config_members :: "json list \<Rightarrow> browser_config \<Rightarrow> json" where
  "config_members calls c =
     JObj ([(''version'', JStr (cf_version c)), (''owner_id'', JStr (cf_owner c)),
            (''agent_id'', JStr (cf_agent c)), (''run_id'', JStr (cf_run_id c)),
            (''package_sha256'', JStr (cf_package c)), (''handoff_sha256'', JStr (cf_handoff c)),
            (''inputs_sha256'', JStr (cf_inputs c)), (''approval_sha256'', JStr (cf_approval c)),
            (''plan_sha256'', JStr (cf_plan c)), (''workflow_sha256'', JStr (cf_workflow c)),
            (''supplement_sha256'', JStr (cf_supplement c)), (''worker'', worker_json (cf_worker c)),
            (''driver_closure_sha256'', JStr (cf_driver c)), (''launch_nonce'', JStr (cf_nonce c)),
            (''containment_lease_id'', JStr (cf_containment c)),
            (''admitted_deadline'', JStr (cf_deadline c)),
            (''origins'', JArr (map JStr (cf_origins c))),
            (''approved_calls'', JArr calls),
            (''credential_revisions'', opt_array revision_json (cf_revisions c))]
           @ (case cf_session c of None \<Rightarrow> [] | Some s \<Rightarrow> [(''session'', session_json s)])
           @ [(''host_fact_refs'', JArr (map JStr (cf_fact_refs c)))])"

definition config_json :: "browser_config \<Rightarrow> json" where
  "config_json c = config_members (map call_json (cf_calls c)) c"

definition calls_encodable :: "browser_call list \<Rightarrow> bool" where
  "calls_encodable cs = list_all (\<lambda>c. raw_encodable (bl_effects c)) cs"

text \<open>\<^verbatim>\<open>CanonicalDigest\<close> of a configuration and of a list of calls.\<close>

definition canonical_config_digest :: "browser_config \<Rightarrow> bytes option" where
  "canonical_config_digest c =
     (if calls_encodable (cf_calls c) then canonical_digest (config_json c) else None)"

definition canonical_calls_digest :: "browser_call list \<Rightarrow> bytes option" where
  "canonical_calls_digest cs =
     (if calls_encodable cs then canonical_digest (JArr (map call_json cs)) else None)"

definition config_digest :: "(bytes \<Rightarrow> bytes option) \<Rightarrow> browser_config \<Rightarrow> bytes option" where
  "config_digest po c = (if validate_config po c then canonical_config_digest c else None)"

definition validate_browser_authority :: "(bytes \<Rightarrow> bytes option) \<Rightarrow> browser_authority \<Rightarrow> bool" where
  "validate_browser_authority po a =
     (if ba_version a \<noteq> browser_authority_version \<or> \<not> digest_valid (ba_config_sha256 a)
         \<or> \<not> validate_config po (ba_config a) then False
      else config_digest po (ba_config a) = Some (ba_config_sha256 a))"

subsection \<open>Decoding\<close>

definition slot_fields :: gofields where
  "slot_fields = [(''slot'', False, GString), (''name'', False, GString)]"

definition revision_fields :: gofields where
  "revision_fields = [(''name'', False, GString), (''revision'', False, GString)]"

definition selector_fields :: gofields where
  "selector_fields = [(''kind'', False, GString), (''value'', False, GString), (''key'', False, GString)]"

definition call_fields :: gofields where
  "call_fields =
     [(''step_id'', False, GString), (''operation_id'', False, GString),
      (''invocation_id'', False, GString), (''kind'', False, GString), (''source_id'', False, GString),
      (''source_sha256'', False, GString), (''profile_version'', False, GString),
      (''selector'', False, GStruct selector_fields), (''selected_sha256'', False, GString),
      (''outer_protocol'', False, GString), (''inner_protocol'', True, GString),
      (''origins'', False, GSlice GString), (''effects'', False, GRaw),
      (''confirmation_policy_sha256'', True, GString),
      (''credential_slots'', False, GSlice (GStruct slot_fields)),
      (''authentication_source_id'', True, GString), (''session_name'', True, GString),
      (''registration_input_binding'', True, GString), (''reuse_allowed'', False, GBool),
      (''save_allowed'', False, GBool)]"

definition worker_fields :: gofields where
  "worker_fields =
     [(''profile'', False, GString), (''binary_sha256'', False, GString),
      (''closure_sha256'', False, GString), (''runtime_revision'', False, GString)]"

definition session_fields :: gofields where
  "session_fields =
     [(''name'', False, GString), (''binding_sha256'', False, GString), (''generation'', False, GUint),
      (''created_at'', False, GString), (''expires_at'', False, GString),
      (''reuse_allowed'', False, GBool), (''save_allowed'', False, GBool)]"

definition config_fields :: gofields where
  "config_fields =
     [(''version'', False, GString), (''owner_id'', False, GString), (''agent_id'', False, GString),
      (''run_id'', False, GString), (''package_sha256'', False, GString),
      (''handoff_sha256'', False, GString), (''inputs_sha256'', False, GString),
      (''approval_sha256'', False, GString), (''plan_sha256'', False, GString),
      (''workflow_sha256'', False, GString), (''supplement_sha256'', False, GString),
      (''worker'', False, GStruct worker_fields), (''driver_closure_sha256'', False, GString),
      (''launch_nonce'', False, GString), (''containment_lease_id'', False, GString),
      (''admitted_deadline'', False, GString), (''origins'', False, GSlice GString),
      (''approved_calls'', False, GSlice (GStruct call_fields)),
      (''credential_revisions'', False, GSlice (GStruct revision_fields)),
      (''session'', True, GPtr (GStruct session_fields)), (''host_fact_refs'', False, GSlice GString)]"

definition authority_fields :: gofields where
  "authority_fields =
     [(''version'', False, GString), (''config_sha256'', False, GString),
      (''config'', False, GStruct config_fields)]"

text \<open>
  Reading a decoded document, which is free of nulls. A raw message is the part of the
  canonical text that its value was read from, so it is that value printed.
\<close>

definition strings_of :: "json \<Rightarrow> bytes list" where
  "strings_of j = map str_of (elements j)"

definition slot_of_json :: "json \<Rightarrow> slot_binding" where
  "slot_of_json j =
     \<lparr>sb_slot = str_of (field_value slot_fields ''slot'' j),
      sb_name = str_of (field_value slot_fields ''name'' j)\<rparr>"

definition revision_of_json :: "json \<Rightarrow> credential_revision" where
  "revision_of_json j =
     \<lparr>cr_name = str_of (field_value revision_fields ''name'' j),
      cr_revision = str_of (field_value revision_fields ''revision'' j)\<rparr>"

definition selector_of_json :: "json \<Rightarrow> selector" where
  "selector_of_json j =
     \<lparr>sl_kind = str_of (field_value selector_fields ''kind'' j),
      sl_value = str_of (field_value selector_fields ''value'' j),
      sl_key = str_of (field_value selector_fields ''key'' j)\<rparr>"

definition call_of_json :: "json \<Rightarrow> browser_call" where
  "call_of_json j =
     (let v = (\<lambda>name. field_value call_fields name j); f = (\<lambda>name. str_of (v name))
      in \<lparr>bl_step_id = f ''step_id'', bl_operation_id = f ''operation_id'',
          bl_invocation_id = f ''invocation_id'', bl_kind = f ''kind'', bl_source_id = f ''source_id'',
          bl_source_sha256 = f ''source_sha256'', bl_profile = f ''profile_version'',
          bl_selector = selector_of_json (v ''selector''),
          bl_selected_sha256 = f ''selected_sha256'', bl_outer = f ''outer_protocol'',
          bl_inner = f ''inner_protocol'', bl_origins = strings_of (v ''origins''),
          bl_effects = Some (print_json False (v ''effects'')),
          bl_confirmation = f ''confirmation_policy_sha256'',
          bl_slots = Some (map slot_of_json (elements (v ''credential_slots''))),
          bl_auth_source = f ''authentication_source_id'', bl_session = f ''session_name'',
          bl_registration_input = f ''registration_input_binding'',
          bl_reuse = bool_of (v ''reuse_allowed''), bl_save = bool_of (v ''save_allowed'')\<rparr>)"

definition worker_of_json :: "json \<Rightarrow> worker" where
  "worker_of_json j =
     (let f = (\<lambda>name. str_of (field_value worker_fields name j))
      in \<lparr>wk_profile = f ''profile'', wk_binary = f ''binary_sha256'',
          wk_closure = f ''closure_sha256'', wk_runtime = f ''runtime_revision''\<rparr>)"

definition session_of_json :: "json \<Rightarrow> browser_session" where
  "session_of_json j =
     (let v = (\<lambda>name. field_value session_fields name j); f = (\<lambda>name. str_of (v name))
      in \<lparr>ss_name = f ''name'', ss_binding = f ''binding_sha256'',
          ss_generation = uint_of_json (v ''generation''), ss_created = f ''created_at'',
          ss_expires = f ''expires_at'', ss_reuse = bool_of (v ''reuse_allowed''),
          ss_save = bool_of (v ''save_allowed'')\<rparr>)"

definition config_of_json :: "json \<Rightarrow> browser_config" where
  "config_of_json j =
     (let v = (\<lambda>name. field_value config_fields name j); f = (\<lambda>name. str_of (v name))
      in \<lparr>cf_version = f ''version'', cf_owner = f ''owner_id'', cf_agent = f ''agent_id'',
          cf_run_id = f ''run_id'', cf_package = f ''package_sha256'', cf_handoff = f ''handoff_sha256'',
          cf_inputs = f ''inputs_sha256'', cf_approval = f ''approval_sha256'',
          cf_plan = f ''plan_sha256'', cf_workflow = f ''workflow_sha256'',
          cf_supplement = f ''supplement_sha256'', cf_worker = worker_of_json (v ''worker''),
          cf_driver = f ''driver_closure_sha256'', cf_nonce = f ''launch_nonce'',
          cf_containment = f ''containment_lease_id'', cf_deadline = f ''admitted_deadline'',
          cf_origins = strings_of (v ''origins''),
          cf_calls = map call_of_json (elements (v ''approved_calls'')),
          cf_revisions = Some (map revision_of_json (elements (v ''credential_revisions''))),
          cf_session =
            (if v ''session'' = JNull then None else Some (session_of_json (v ''session''))),
          cf_fact_refs = strings_of (v ''host_fact_refs'')\<rparr>)"

definition browser_authority_of_json :: "json \<Rightarrow> browser_authority" where
  "browser_authority_of_json j =
     \<lparr>ba_version = str_of (field_value authority_fields ''version'' j),
      ba_config_sha256 = str_of (field_value authority_fields ''config_sha256'' j),
      ba_config = config_of_json (field_value authority_fields ''config'' j)\<rparr>"

definition decode_config :: "(bytes \<Rightarrow> bytes option) \<Rightarrow> bytes \<Rightarrow> browser_config option" where
  "decode_config po data =
     (case decode_contract (GStruct config_fields) data of
        None \<Rightarrow> None
      | Some j \<Rightarrow> (let c = config_of_json j in if validate_config po c then Some c else None))"

definition decode_browser_authority ::
  "(bytes \<Rightarrow> bytes option) \<Rightarrow> bytes \<Rightarrow> browser_authority option" where
  "decode_browser_authority po data =
     (case decode_contract (GStruct authority_fields) data of
        None \<Rightarrow> None
      | Some j \<Rightarrow>
          (let a = browser_authority_of_json j
           in if validate_browser_authority po a then Some a else None))"

end
