(* ===== verification/Approval_Browser.thy ===== *)
theory Approval_Browser
  imports Contract_Wire
begin

text \<open>
  Package \<^verbatim>\<open>approval\<close>, \<^verbatim>\<open>browser.go\<close>: the receipt of a human review of a browser
  configuration. A receipt leaves out what only the host knows at launch; it is validated by
  rebuilding a configuration around it.
\<close>

record browser_approval =
  br_version :: bytes
  br_state :: bytes
  br_owner :: bytes
  br_agent :: bytes
  br_run_id :: bytes
  br_package :: bytes
  br_handoff :: bytes
  br_inputs :: bytes
  br_plan :: bytes
  br_workflow :: bytes
  br_supplement :: bytes
  br_worker :: worker
  br_driver :: bytes
  br_deadline :: bytes
  br_origins :: "bytes list"
  br_calls :: "browser_call list"
  br_revisions :: "credential_revision list option"
  br_session :: "browser_session option"
  br_approved_at :: bytes

definition browser_approval_version :: bytes where
  "browser_approval_version = ''openudon.browser-approval.v1''"

definition review_digest :: bytes where
  "review_digest = sha256 ''review-metadata-only''"

definition review_config :: "browser_approval \<Rightarrow> browser_config" where
  "review_config a =
     \<lparr>cf_version = config_version, cf_owner = br_owner a, cf_agent = br_agent a,
      cf_run_id = br_run_id a, cf_package = br_package a, cf_handoff = br_handoff a,
      cf_inputs = br_inputs a, cf_approval = review_digest, cf_plan = br_plan a,
      cf_workflow = br_workflow a, cf_supplement = br_supplement a, cf_worker = br_worker a,
      cf_driver = br_driver a, cf_nonce = ''review-only'', cf_containment = ''review-only'',
      cf_deadline = br_deadline a, cf_origins = br_origins a, cf_calls = br_calls a,
      cf_revisions = br_revisions a, cf_session = br_session a, cf_fact_refs = [''review-only'']\<rparr>"

definition validate_browser_approval :: "(bytes \<Rightarrow> bytes option) \<Rightarrow> browser_approval \<Rightarrow> bool" where
  "validate_browser_approval po a =
     (case (parse_instant (br_approved_at a), parse_instant (br_deadline a)) of
        (Some approved, Some deadline) \<Rightarrow>
          \<not> (br_version a \<noteq> browser_approval_version \<or> br_state a \<noteq> ''approved_for_sandbox''
             \<or> \<not> approved < deadline \<or> \<not> validate_config po (review_config a))
      | _ \<Rightarrow> False)"

definition browser_approval_json :: "browser_approval \<Rightarrow> json" where
  "browser_approval_json a =
     JObj ([(''version'', JStr (br_version a)), (''state'', JStr (br_state a)),
            (''owner_id'', JStr (br_owner a)), (''agent_id'', JStr (br_agent a)),
            (''run_id'', JStr (br_run_id a)), (''package_sha256'', JStr (br_package a)),
            (''handoff_sha256'', JStr (br_handoff a)), (''inputs_sha256'', JStr (br_inputs a)),
            (''plan_sha256'', JStr (br_plan a)), (''workflow_sha256'', JStr (br_workflow a)),
            (''supplement_sha256'', JStr (br_supplement a)), (''worker'', worker_json (br_worker a)),
            (''driver_closure_sha256'', JStr (br_driver a)),
            (''admitted_deadline'', JStr (br_deadline a)),
            (''origins'', JArr (map JStr (br_origins a))),
            (''approved_calls'', JArr (map call_json (br_calls a))),
            (''credential_revisions'', opt_array revision_json (br_revisions a))]
           @ (case br_session a of None \<Rightarrow> [] | Some s \<Rightarrow> [(''session'', session_json s)])
           @ [(''approved_at'', JStr (br_approved_at a))])"

text \<open>\<^verbatim>\<open>json.Marshal\<close> fails on a raw message that is no JSON text.\<close>

definition marshal_browser_approval :: "browser_approval \<Rightarrow> bytes option" where
  "marshal_browser_approval a =
     (if calls_encodable (br_calls a) then Some (marshal (browser_approval_json a)) else None)"

definition browser_approval_canonical :: "(bytes \<Rightarrow> bytes option) \<Rightarrow> browser_approval \<Rightarrow> bytes option" where
  "browser_approval_canonical po a =
     (if \<not> validate_browser_approval po a then None
      else Option.bind (marshal_browser_approval a) canonical_json)"

definition browser_approval_fields :: gofields where
  "browser_approval_fields =
     [(''version'', False, GString), (''state'', False, GString), (''owner_id'', False, GString),
      (''agent_id'', False, GString), (''run_id'', False, GString),
      (''package_sha256'', False, GString), (''handoff_sha256'', False, GString),
      (''inputs_sha256'', False, GString), (''plan_sha256'', False, GString),
      (''workflow_sha256'', False, GString), (''supplement_sha256'', False, GString),
      (''worker'', False, GStruct worker_fields), (''driver_closure_sha256'', False, GString),
      (''admitted_deadline'', False, GString), (''origins'', False, GSlice GString),
      (''approved_calls'', False, GSlice (GStruct call_fields)),
      (''credential_revisions'', False, GSlice (GStruct revision_fields)),
      (''session'', True, GPtr (GStruct session_fields)), (''approved_at'', False, GString)]"

definition browser_approval_of_json :: "json \<Rightarrow> browser_approval" where
  "browser_approval_of_json j =
     (let v = (\<lambda>name. field_value browser_approval_fields name j); f = (\<lambda>name. str_of (v name))
      in \<lparr>br_version = f ''version'', br_state = f ''state'', br_owner = f ''owner_id'',
          br_agent = f ''agent_id'', br_run_id = f ''run_id'', br_package = f ''package_sha256'',
          br_handoff = f ''handoff_sha256'', br_inputs = f ''inputs_sha256'',
          br_plan = f ''plan_sha256'', br_workflow = f ''workflow_sha256'',
          br_supplement = f ''supplement_sha256'', br_worker = worker_of_json (v ''worker''),
          br_driver = f ''driver_closure_sha256'', br_deadline = f ''admitted_deadline'',
          br_origins = strings_of (v ''origins''),
          br_calls = map call_of_json (elements (v ''approved_calls'')),
          br_revisions = Some (map revision_of_json (elements (v ''credential_revisions''))),
          br_session =
            (if v ''session'' = JNull then None else Some (session_of_json (v ''session''))),
          br_approved_at = f ''approved_at''\<rparr>)"

definition decode_browser_approval ::
  "(bytes \<Rightarrow> bytes option) \<Rightarrow> bytes \<Rightarrow> browser_approval option" where
  "decode_browser_approval po data =
     (case decode_contract (GStruct browser_approval_fields) data of
        None \<Rightarrow> None
      | Some j \<Rightarrow>
          (let a = browser_approval_of_json j
           in if validate_browser_approval po a then Some a else None))"

definition review_of_config :: "browser_config \<Rightarrow> bytes \<Rightarrow> browser_approval" where
  "review_of_config c approved_at =
     \<lparr>br_version = browser_approval_version, br_state = ''approved_for_sandbox'',
      br_owner = cf_owner c, br_agent = cf_agent c, br_run_id = cf_run_id c,
      br_package = cf_package c, br_handoff = cf_handoff c, br_inputs = cf_inputs c,
      br_plan = cf_plan c, br_workflow = cf_workflow c, br_supplement = cf_supplement c,
      br_worker = cf_worker c, br_driver = cf_driver c, br_deadline = cf_deadline c,
      br_origins = cf_origins c, br_calls = cf_calls c, br_revisions = cf_revisions c,
      br_session = cf_session c, br_approved_at = approved_at\<rparr>"

text \<open>\<^verbatim>\<open>ReviewBrowserConfig\<close> goes through the wire, so that what it returns was decoded.\<close>

definition review_browser_config ::
  "(bytes \<Rightarrow> bytes option) \<Rightarrow> browser_config \<Rightarrow> bytes \<Rightarrow> browser_approval option" where
  "review_browser_config po c approved_at =
     Option.bind (marshal_browser_approval (review_of_config c approved_at)) (decode_browser_approval po)"

definition check_browser_approval ::
  "(bytes \<Rightarrow> bytes option) \<Rightarrow> bytes \<Rightarrow> browser_config \<Rightarrow> bool" where
  "check_browser_approval po data c =
     (case decode_browser_approval po data of
        None \<Rightarrow> False
      | Some a \<Rightarrow>
          if \<not> validate_config po c \<or> sha256 data \<noteq> cf_approval c then False
          else review_browser_config po c (br_approved_at a) = Some a)"

end
