(* ===== verification/Browser_Trace.thy ===== *)
theory Browser_Trace
  imports Contract_Wire Udon_Report Transition_System
begin

text \<open>
  Package \<^verbatim>\<open>runevidence\<close>, \<^verbatim>\<open>browser.go\<close>, the witnesses of the host and the machine that reads
  its trace of events: one definition per event, over the state that \<^verbatim>\<open>ObserveBrowserReport\<close>
  keeps in local variables. Every refusal of that function is the same failure, so a step
  returns the next state or nothing.
\<close>

subsection \<open>Witnesses\<close>

record launch_witness =
  lw_lease :: bytes
  lw_nonce :: bytes
  lw_worker :: worker
  lw_driver :: bytes
  lw_containment :: bytes
  lw_all_traffic :: bool
  lw_sandbox :: bool
  lw_origins :: "bytes list"

record join_witness =
  jw_launch :: bytes
  jw_containment :: bytes
  jw_access :: bytes
  jw_transport :: bool
  jw_driver :: bool
  jw_chromium :: bool
  jw_callbacks :: bool

record question_witness =
  qw_id :: bytes
  qw_revision :: int
  qw_issued :: bytes

text \<open>
  The ordinal of a message is a \<^verbatim>\<open>uint64\<close>; an accepted one is at most \<^verbatim>\<open>max_messages\<close>, so
  its successor never wraps around, and a natural number stands for it.
\<close>

record trace_event =
  te_event :: bytes
  te_outcome :: bytes
  te_run_id :: bytes
  te_plan :: bytes
  te_launch :: bytes
  te_containment :: bytes
  te_access :: bytes
  te_step :: bytes
  te_operation :: bytes
  te_invocation :: bytes
  te_request :: bytes
  te_ordinal :: nat
  te_kind :: bytes
  te_outer :: bytes
  te_question :: "question_witness option"

record non_dispatch_witness =
  nw_run_id :: bytes
  nw_plan :: bytes
  nw_calls :: "browser_call list"
  nw_all_covered :: bool
  nw_none_sent :: bool
  nw_joined :: join_witness

record save_witness =
  sw_permission :: bytes
  sw_session :: bytes
  sw_binding :: bytes
  sw_generation :: int
  sw_operation :: bytes
  sw_one_use :: bool
  sw_save :: bool

record lease_witness =
  cw_slots :: "slot_binding list"
  cw_revisions :: "credential_revision list option"

record binding_witness =
  bw_owner :: bytes
  bw_agent :: bytes
  bw_name :: bytes
  bw_binding :: bytes
  bw_profile :: bytes
  bw_authentication :: bytes
  bw_revisions :: "credential_revision list option"
  bw_origins :: "bytes list"
  bw_generation :: int
  bw_created :: bytes
  bw_expires :: bytes

record access_witness =
  aw_lease :: bytes
  aw_outcome :: bytes
  aw_session :: browser_session
  aw_binding :: binding_witness

record host_witnesses =
  hw_lease :: "lease_witness option"
  hw_access :: "access_witness option"
  hw_expected :: "binding_witness option"
  hw_config :: browser_config
  hw_inventory :: inventory_v5
  hw_fact_refs :: "bytes list"
  hw_launch :: launch_witness
  hw_join :: join_witness
  hw_trace :: "trace_event list"
  hw_non_dispatch :: "non_dispatch_witness option"
  hw_save :: "save_witness option"
  hw_bindings :: int

record browser_result =
  rs_observation :: observation_v5
  rs_successor :: bool

definition browser_failure :: "inventory_v5 \<Rightarrow> browser_result" where
  "browser_failure i = \<lparr>rs_observation = unknown_v5 i ''invalid'', rs_successor = False\<rparr>"

text \<open>\<^verbatim>\<open>sameCanonical\<close>: both values have a canonical digest, and it is one.\<close>

definition same_digest :: "bytes option \<Rightarrow> bytes option \<Rightarrow> bool" where
  "same_digest a b = (case (a, b) of (Some x, Some y) \<Rightarrow> x = y | _ \<Rightarrow> False)"

definition question_json :: "question_witness option \<Rightarrow> json" where
  "question_json q =
     (case q of
        None \<Rightarrow> JNull
      | Some w \<Rightarrow>
          JObj [(''id'', JStr (qw_id w)), (''revision'', JNum (decimal (qw_revision w))),
                (''issued_sha256'', JStr (qw_issued w))])"

definition same_question :: "question_witness option \<Rightarrow> question_witness option \<Rightarrow> bool" where
  "same_question a b = same_digest (canonical_digest (question_json a)) (canonical_digest (question_json b))"

definition joined :: "join_witness \<Rightarrow> launch_witness \<Rightarrow> bool \<Rightarrow> bool" where
  "joined w launch require_access =
     (jw_launch w = lw_lease launch \<and> jw_containment w = lw_containment launch
      \<and> (contract_identifier (jw_access w) \<or> \<not> require_access \<and> jw_access w = [])
      \<and> jw_transport w \<and> jw_driver w \<and> jw_chromium w \<and> jw_callbacks w)"

definition trace_key :: "trace_event \<Rightarrow> bytes" where
  "trace_key e =
     join [CHR 0x00]
       [te_step e, te_operation e, te_invocation e, te_request e, decimal (int (te_ordinal e)), te_kind e,
        te_outer e]"

definition initial_kind :: "bytes \<Rightarrow> bytes" where
  "initial_kind kind =
     (if kind = ''authentication'' then ''authenticate''
      else if kind = ''registration'' then ''register''
      else if kind = ''action'' then ''action''
      else [])"

definition question_valid :: "question_witness option \<Rightarrow> bool" where
  "question_valid q =
     (case q of
        None \<Rightarrow> False
      | Some w \<Rightarrow>
          contract_identifier (qw_id w) \<and> 0 < qw_revision w \<and> qw_revision w \<le> max_safe_integer
          \<and> digest_valid (qw_issued w))"

text \<open>The credential names a call binds, under the key the source builds for them.\<close>

definition slot_key :: "slot_binding \<Rightarrow> bytes" where
  "slot_key b = sb_slot b @ CHR 0x00 # sb_name b"

definition credential_lease_matches :: "browser_config \<Rightarrow> lease_witness option \<Rightarrow> bool" where
  "credential_lease_matches c w =
     (case w of
        None \<Rightarrow> False
      | Some l \<Rightarrow>
          if cf_revisions c \<noteq> cw_revisions l then False
          else
            (let expected = concat (map (\<lambda>x. map slot_key (slots_of x)) (cf_calls c))
             in if length (cw_slots l) \<noteq> length (remdups expected) then False
                else unique_scan (\<lambda>s. slot_key s \<in> set expected) slot_key [] (cw_slots l)))"

subsection \<open>The binding of the session\<close>

text \<open>
  The loop over the calls of the session: the authentication source seen (its identity and
  digest), the profiles of the actions, the origins and the credential names. A second
  authentication call ends it.
\<close>

fun scan_session_calls ::
  "bytes \<Rightarrow> bytes \<times> bytes \<Rightarrow> bytes list \<Rightarrow> bytes list \<Rightarrow> bytes list \<Rightarrow> browser_call list
     \<Rightarrow> ((bytes \<times> bytes) \<times> bytes list \<times> bytes list \<times> bytes list) option"
where
  "scan_session_calls name auth profiles origins credentials [] = Some (auth, profiles, origins, credentials)"
| "scan_session_calls name auth profiles origins credentials (c # cs) =
     (if bl_session c \<noteq> name then scan_session_calls name auth profiles origins credentials cs
      else if bl_kind c = ''authentication'' \<and> fst auth \<noteq> [] then None
      else scan_session_calls name
             (if bl_kind c = ''authentication'' then (bl_source_id c, bl_source_sha256 c) else auth)
             (if bl_kind c = ''action'' then bl_source_sha256 c # profiles else profiles)
             (bl_origins c @ origins) (map sb_name (slots_of c) @ credentials) cs)"

text \<open>What the configuration leaves open, taken from the independent expectation.\<close>

definition complete_binding :: "binding_witness \<Rightarrow> binding_witness option \<Rightarrow> binding_witness option" where
  "complete_binding b independent =
     (if bw_profile b = [] \<or> bw_authentication b = [] then
        (case independent of
           None \<Rightarrow> None
         | Some w \<Rightarrow>
             Some (b\<lparr>bw_profile := (if bw_profile b = [] then bw_profile w else bw_profile b),
                     bw_authentication :=
                       (if bw_authentication b = [] then bw_authentication w else bw_authentication b)\<rparr>))
      else Some b)"

definition revisions_of :: "browser_config \<Rightarrow> credential_revision list" where
  "revisions_of c = (case cf_revisions c of None \<Rightarrow> [] | Some rs \<Rightarrow> rs)"

definition expected_session_binding ::
  "browser_config \<Rightarrow> binding_witness option \<Rightarrow> binding_witness option" where
  "expected_session_binding c independent =
     (case cf_session c of
        None \<Rightarrow> None
      | Some s \<Rightarrow>
          (case scan_session_calls (ss_name s) ([], []) [] [] [] (cf_calls c) of
             None \<Rightarrow> None
           | Some (auth, profiles, origins, credentials) \<Rightarrow>
               if list_ex (\<lambda>x. bl_kind x = ''action'' \<and> bl_session x = ss_name s
                               \<and> bl_auth_source x \<noteq> fst auth) (cf_calls c) then None
               else if 1 < length (remdups profiles) then None
               else
                 (let whole = (origins = []);
                      names = (if whole then map cr_name (revisions_of c) @ credentials
                               else credentials);
                      places = (if whole then cf_origins c else origins);
                      kept = filter (\<lambda>r. cr_name r \<in> set names) (revisions_of c);
                      b = \<lparr>bw_owner = cf_owner c, bw_agent = cf_agent c, bw_name = ss_name s,
                           bw_binding = ss_binding s,
                           bw_profile = (if profiles = [] then [] else hd profiles),
                           bw_authentication = snd auth, bw_revisions = Some kept,
                           bw_origins = sorted_keys places, bw_generation = ss_generation s,
                           bw_created = ss_created s, bw_expires = ss_expires s\<rparr>
                  in if length kept \<noteq> length (remdups names) then None
                     else case complete_binding b independent of
                       None \<Rightarrow> None
                     | Some full \<Rightarrow>
                         if \<not> digest_valid (bw_profile full) \<or> \<not> digest_valid (bw_authentication full)
                            \<or> (independent \<noteq> None \<and> independent \<noteq> Some full) then None
                         else Some full)))"

definition session_access_matches ::
  "browser_config \<Rightarrow> bytes \<Rightarrow> access_witness option \<Rightarrow> binding_witness option \<Rightarrow> bool" where
  "session_access_matches c lease observed independent =
     (case (cf_session c, observed) of
        (Some expected, Some w) \<Rightarrow>
          if \<not> contract_identifier (aw_lease w) \<or> aw_lease w \<noteq> lease
             \<or> aw_outcome w \<noteq> ''fresh'' \<and> aw_outcome w \<noteq> ''reuse'' then False
          else
            (let s = aw_session w
             in if ss_reuse s \<and> \<not> ss_reuse expected \<or> ss_save s \<and> \<not> ss_save expected
                   \<or> aw_outcome w = ''reuse'' \<and> \<not> ss_reuse s then False
                else if \<not> same_digest
                       (canonical_digest
                          (session_json (s\<lparr>ss_reuse := ss_reuse expected, ss_save := ss_save expected\<rparr>)))
                       (canonical_digest (session_json expected)) then False
                else expected_session_binding c independent = Some (aw_binding w))
      | _ \<Rightarrow> False)"

subsection \<open>The state of the trace\<close>

text \<open>
  The local variables of \<^verbatim>\<open>ObserveBrowserReport\<close> that its loop over the trace changes. The
  lists have one entry per approved call.
\<close>

record trace_state =
  ts_outcomes :: "bytes list"
  ts_terminal :: "bool list"
  ts_sent :: "bool list"
  ts_requests :: "bytes list"
  ts_messages :: "bytes list"
  ts_closed :: "bool list"
  ts_launched :: bool
  ts_joined :: bool
  ts_released :: bool
  ts_any_sent :: bool
  ts_non_dispatch :: bool
  ts_candidate :: bool
  ts_current :: bool
  ts_saved :: bool
  ts_leased :: bool
  ts_stopped :: bool
  ts_denied :: bool
  ts_last :: int
  ts_ordinal :: nat
  ts_pending :: bytes
  ts_pending_question :: bytes
  ts_question :: "question_witness option"
  ts_question_kind :: bytes
  ts_question_leaf :: int
  ts_answered :: bool
  ts_rechecked :: bool
  ts_acquired :: bytes

definition start_state :: "browser_config \<Rightarrow> nat \<Rightarrow> trace_state" where
  "start_state c n =
     \<lparr>ts_outcomes = replicate n ''not_started'', ts_terminal = replicate n False,
      ts_sent = replicate n False, ts_requests = replicate n [], ts_messages = replicate n [],
      ts_closed = replicate n False, ts_launched = False, ts_joined = False, ts_released = False,
      ts_any_sent = False, ts_non_dispatch = False, ts_candidate = False, ts_current = False,
      ts_saved = False, ts_leased = (revisions_of c = []), ts_stopped = False, ts_denied = False,
      ts_last = -1, ts_ordinal = 0, ts_pending = [], ts_pending_question = [], ts_question = None,
      ts_question_kind = [], ts_question_leaf = -1, ts_answered = False, ts_rechecked = False,
      ts_acquired = []\<rparr>"

text \<open>\<^verbatim>\<open>stopExecution\<close>: what was sent and is still open becomes terminal.\<close>

definition stop_execution :: "trace_state \<Rightarrow> trace_state" where
  "stop_execution st =
     st\<lparr>ts_stopped := True,
        ts_terminal :=
          map (\<lambda>i. ts_sent st ! i \<and> ts_outcomes st ! i = ''unknown'' \<or> ts_terminal st ! i)
            [0..<length (ts_outcomes st)]\<rparr>"

subsection \<open>Events\<close>

definition on_credential_lease ::
  "browser_config \<Rightarrow> host_witnesses \<Rightarrow> trace_event \<Rightarrow> trace_state \<Rightarrow> trace_state option" where
  "on_credential_lease c h e st =
     (if ts_launched st \<or> ts_any_sent st
         \<or> te_outcome e \<noteq> ''whole-plan-private'' \<and> te_outcome e \<noteq> ''whole-plan-private-totp-seed''
         \<or> \<not> credential_lease_matches c (hw_lease h) then None
      else Some (st\<lparr>ts_leased := True\<rparr>))"

definition missing_or_expired :: "bytes \<Rightarrow> bool" where
  "missing_or_expired s = (s = ''missing'' \<or> s = ''expired'')"

text \<open>The observed access narrows the call: its permissions, its session, its source.\<close>

definition access_fits_call :: "access_witness \<Rightarrow> browser_call \<Rightarrow> bool" where
  "access_fits_call w call =
     (\<not> (ss_reuse (aw_session w) \<and> \<not> bl_reuse call \<or> ss_save (aw_session w) \<and> \<not> bl_save call
         \<or> bl_session call \<noteq> ss_name (aw_session w)
         \<or> bl_kind call = ''authentication'' \<and> bl_source_sha256 call \<noteq> bw_authentication (aw_binding w)
         \<or> bl_kind call = ''action'' \<and> bl_source_sha256 call \<noteq> bw_profile (aw_binding w)))"

definition on_session_acquire ::
  "browser_config \<Rightarrow> host_witnesses \<Rightarrow> trace_event \<Rightarrow> browser_call \<Rightarrow> trace_state \<Rightarrow> trace_state option" where
  "on_session_acquire c h e call st =
     (let acquired = ts_acquired st; out = te_outcome e
      in if cf_session c = None \<or> ts_launched st \<or> ts_any_sent st \<or> ts_joined st
            \<or> acquired \<noteq> [] \<and> \<not> (missing_or_expired acquired \<and> out = ''fresh'') then None
         else if missing_or_expired acquired
                 \<and> (case hw_access h of
                      None \<Rightarrow> False
                    | Some w \<Rightarrow> ss_reuse (aw_session w) \<or> ss_save (aw_session w)) then None
         else if (case hw_access h of None \<Rightarrow> False | Some w \<Rightarrow> \<not> access_fits_call w call) then None
         else if out \<notin> set [''fresh'', ''missing'', ''expired'', ''reuse''] then None
         else if out = ''reuse''
                 \<and> (case cf_session c of
                      None \<Rightarrow> True
                    | Some s \<Rightarrow> \<not> ss_reuse s \<or> \<not> bl_reuse call \<or> bl_session call \<noteq> ss_name s) then None
         else if (case hw_access h of
                    None \<Rightarrow> False
                  | Some w \<Rightarrow> out \<noteq> ''missing'' \<and> out \<noteq> ''expired'' \<and> out \<noteq> aw_outcome w) then None
         else Some (st\<lparr>ts_acquired := out\<rparr>))"

definition on_launch :: "host_witnesses \<Rightarrow> trace_event \<Rightarrow> trace_state \<Rightarrow> trace_state option" where
  "on_launch h e st =
     (let acquired = ts_acquired st
      in if ts_launched st \<or> ts_joined st \<or> \<not> ts_leased st \<or> te_outcome e \<noteq> ''contained''
            \<or> acquired \<noteq> [] \<and> acquired \<noteq> ''fresh'' \<and> acquired \<noteq> ''reuse''
            \<or> (case hw_access h of None \<Rightarrow> False | Some w \<Rightarrow> acquired \<noteq> aw_outcome w) then None
         else Some (st\<lparr>ts_launched := True\<rparr>))"

text \<open>An event that names a question must name the open one.\<close>

definition other_question :: "trace_event \<Rightarrow> trace_state \<Rightarrow> bool" where
  "other_question e st = (te_question e \<noteq> None \<and> \<not> same_question (ts_question st) (te_question e))"

definition on_registration_input ::
  "trace_event \<Rightarrow> browser_call \<Rightarrow> nat \<Rightarrow> trace_state \<Rightarrow> trace_state option" where
  "on_registration_input e call i st =
     (if bl_kind call \<noteq> ''registration'' \<or> ts_joined st \<or> ts_stopped st \<or> other_question e st then None
      else if te_outcome e = ''initial-private'' then (if ts_any_sent st then None else Some st)
      else if te_outcome e = ''checkpoint-private'' then
        (if ts_question_leaf st \<noteq> int i \<or> ts_question_kind st \<noteq> ''registration_input''
            \<or> ts_question st = None then None
         else Some (st\<lparr>ts_answered := True\<rparr>))
      else None)"

definition on_question ::
  "trace_event \<Rightarrow> browser_call \<Rightarrow> nat \<Rightarrow> trace_state \<Rightarrow> trace_state option" where
  "on_question e call i st =
     (let out = te_outcome e
      in if \<not> ts_launched st \<or> ts_joined st \<or> ts_stopped st \<or> ts_terminal st ! i
            \<or> \<not> question_valid (te_question e)
            \<or> out \<noteq> ''runtime_confirmation'' \<and> (\<not> ts_sent st ! i \<or> ts_outcomes st ! i \<noteq> ''unknown'')
           then None
         else if \<not> (if out \<in> set [''mfa_push'', ''mfa_number_match''] then bl_kind call = ''authentication''
                    else if out \<in> set [''registration_input'', ''registration_checkpoint'',
                                       ''registration_submit''] then bl_kind call = ''registration''
                    else if out = ''runtime_confirmation''
                      then \<not> (bl_kind call \<noteq> ''action'' \<or> ts_sent st ! i)
                    else False) then None
         else Some (st\<lparr>ts_question := te_question e, ts_question_kind := out, ts_question_leaf := int i,
                       ts_answered := False, ts_rechecked := False\<rparr>))"

text \<open>A runtime confirmation must be named again, even where naming none is allowed otherwise.\<close>

definition confirmation_unnamed :: "trace_event \<Rightarrow> trace_state \<Rightarrow> bool" where
  "confirmation_unnamed e st =
     (ts_question_kind st = ''runtime_confirmation'' \<and> \<not> same_question (ts_question st) (te_question e))"

definition on_interact :: "trace_event \<Rightarrow> nat \<Rightarrow> trace_state \<Rightarrow> trace_state option" where
  "on_interact e i st =
     (let kind = ts_question_kind st; out = te_outcome e
      in if ts_question st = None \<or> ts_question_leaf st \<noteq> int i \<or> ts_joined st \<or> ts_stopped st
            \<or> other_question e st \<or> confirmation_unnamed e st then None
         else if \<not> (if kind \<in> set [''mfa_push'', ''mfa_number_match'', ''runtime_confirmation'']
                      then out = ''approve'' \<or> out = ''deny''
                    else if kind \<in> set [''registration_checkpoint'', ''registration_submit'']
                      then out = ''continue'' \<or> out = ''deny''
                    else False) then None
         else (let st' = st\<lparr>ts_answered := (out \<noteq> ''deny'')\<rparr>
               in Some (if out = ''deny'' then (stop_execution st')\<lparr>ts_denied := True\<rparr> else st')))"

definition on_authority_recheck :: "trace_event \<Rightarrow> nat \<Rightarrow> trace_state \<Rightarrow> trace_state option" where
  "on_authority_recheck e i st =
     (if ts_question st = None \<or> \<not> ts_answered st \<or> ts_question_leaf st \<noteq> int i
         \<or> te_outcome e \<noteq> ''current'' \<or> ts_joined st \<or> ts_stopped st
         \<or> other_question e st \<or> confirmation_unnamed e st then None
      else Some (st\<lparr>ts_rechecked := True\<rparr>))"

text \<open>The message kind that answers a question of a kind.\<close>

definition response_kind :: "bytes \<Rightarrow> bytes option" where
  "response_kind kind =
     (if kind \<in> set [''mfa_push'', ''mfa_number_match''] then Some ''challenge_response''
      else if kind = ''registration_input'' then Some ''registration_input_response''
      else if kind \<in> set [''registration_checkpoint'', ''registration_submit'']
        then Some ''registration_checkpoint_response''
      else None)"

definition earlier_done :: "browser_config \<Rightarrow> nat \<Rightarrow> trace_state \<Rightarrow> bool" where
  "earlier_done c i st =
     list_all (\<lambda>k. \<not> (ts_outcomes st ! k \<noteq> ''succeeded''
                       \<or> bl_kind (cf_calls c ! k) = ''registration'' \<and> \<not> ts_closed st ! k)) [0..<i]"

definition first_claim_ok ::
  "browser_config \<Rightarrow> trace_event \<Rightarrow> browser_call \<Rightarrow> nat \<Rightarrow> trace_state \<Rightarrow> bool" where
  "first_claim_ok c e call i st =
     (if te_kind e \<noteq> initial_kind (bl_kind call) \<or> te_outcome e \<noteq> bl_kind call
         \<or> int i \<noteq> ts_last st + 1 then False
      else if (if ts_question_kind st = ''runtime_confirmation'' then
                 ts_question_leaf st \<noteq> int i \<or> \<not> ts_answered st \<or> \<not> ts_rechecked st
                 \<or> \<not> same_question (ts_question st) (te_question e)
               else te_question e \<noteq> None) then False
      else earlier_done c i st)"

definition next_claim_ok :: "trace_event \<Rightarrow> nat \<Rightarrow> trace_state \<Rightarrow> bool" where
  "next_claim_ok e i st =
     (if ts_outcomes st ! i \<noteq> ''unknown'' \<or> ts_question_leaf st \<noteq> int i \<or> \<not> ts_answered st
         \<or> \<not> ts_rechecked st \<or> \<not> same_question (ts_question st) (te_question e)
         \<or> te_outcome e \<noteq> ts_question_kind st \<or> ts_requests st ! i \<noteq> te_request e then False
      else response_kind (ts_question_kind st) = Some (te_kind e))"

definition max_messages :: nat where
  "max_messages = 4096"

definition on_claim_dispatch ::
  "browser_config \<Rightarrow> trace_event \<Rightarrow> browser_call \<Rightarrow> nat \<Rightarrow> trace_state \<Rightarrow> trace_state option" where
  "on_claim_dispatch c e call i st =
     (if \<not> ts_launched st \<or> ts_joined st \<or> ts_stopped st then None
      else if te_outcome e = ''refused'' then Some (stop_execution st)
      else if \<not> contract_identifier (te_request e) \<or> te_ordinal e \<noteq> ts_ordinal st + 1
              \<or> max_messages < te_ordinal e \<or> te_outer e \<noteq> bl_outer call then None
      else if \<not> (if \<not> ts_sent st ! i then first_claim_ok c e call i st else next_claim_ok e i st) then None
      else Some (st\<lparr>ts_pending := trace_key e, ts_pending_question := ts_question_kind st\<rparr>))"

definition on_send ::
  "trace_event \<Rightarrow> browser_call \<Rightarrow> nat \<Rightarrow> trace_state \<Rightarrow> trace_state option" where
  "on_send e call i st =
     (if \<not> ts_launched st \<or> ts_joined st \<or> ts_stopped st \<or> ts_pending st = []
         \<or> ts_pending st \<noteq> trace_key e then None
      else if (if ts_sent st ! i then
                 \<not> same_question (ts_question st) (te_question e) \<or> te_outcome e \<noteq> ts_pending_question st
               else te_outcome e \<noteq> bl_kind call \<or> confirmation_unnamed e st) then None
      else Some (st\<lparr>ts_pending := [], ts_pending_question := [], ts_ordinal := te_ordinal e,
                    ts_any_sent := True, ts_sent := (ts_sent st)[i := True],
                    ts_requests := (ts_requests st)[i := te_request e],
                    ts_messages := (ts_messages st)[i := trace_key e],
                    ts_outcomes := (ts_outcomes st)[i := ''unknown''],
                    ts_last := max (ts_last st) (int i), ts_question := None, ts_question_kind := [],
                    ts_question_leaf := -1, ts_answered := False, ts_rechecked := False\<rparr>))"

definition on_response :: "trace_event \<Rightarrow> nat \<Rightarrow> trace_state \<Rightarrow> trace_state option" where
  "on_response e i st =
     (if \<not> ts_sent st ! i \<or> ts_joined st \<or> ts_terminal st ! i \<or> ts_messages st ! i \<noteq> trace_key e
         \<or> ts_outcomes st ! i \<noteq> ''unknown'' then None
      else
        (let st' = st\<lparr>ts_terminal := (ts_terminal st)[i := True]\<rparr>
         in if te_outcome e = ''success'' then
              Some (st'\<lparr>ts_outcomes := (ts_outcomes st)[i := ''succeeded'']\<rparr>)
            else if te_outcome e = ''definite_failure'' then
              Some (stop_execution (st'\<lparr>ts_outcomes := (ts_outcomes st)[i := ''failed'']\<rparr>))
            else if te_outcome e = ''unknown'' then Some (stop_execution st')
            else None))"

definition on_write_completed :: "trace_event \<Rightarrow> nat \<Rightarrow> trace_state \<Rightarrow> trace_state option" where
  "on_write_completed e i st =
     (if \<not> ts_sent st ! i \<or> ts_joined st \<or> ts_terminal st ! i \<or> te_outcome e \<noteq> ''proved'' then None
      else Some st)"

definition on_driver_failure :: "nat \<Rightarrow> trace_state \<Rightarrow> trace_state option" where
  "on_driver_failure i st =
     (if \<not> ts_sent st ! i \<or> ts_joined st \<or> ts_outcomes st ! i = ''succeeded''
         \<or> ts_outcomes st ! i = ''failed'' then None
      else Some (stop_execution (st\<lparr>ts_outcomes := (ts_outcomes st)[i := ''unknown''],
                                    ts_terminal := (ts_terminal st)[i := True]\<rparr>)))"

definition on_registration_close ::
  "trace_event \<Rightarrow> browser_call \<Rightarrow> nat \<Rightarrow> trace_state \<Rightarrow> trace_state option" where
  "on_registration_close e call i st =
     (if bl_kind call \<noteq> ''registration'' \<or> \<not> ts_sent st ! i \<or> te_outcome e \<noteq> ''proved''
         \<or> ts_joined st then None
      else Some (st\<lparr>ts_closed := (ts_closed st)[i := True]\<rparr>))"

definition access_saves :: "host_witnesses \<Rightarrow> bool" where
  "access_saves h = (case hw_access h of None \<Rightarrow> False | Some w \<Rightarrow> ss_save (aw_session w))"

definition on_candidate ::
  "host_witnesses \<Rightarrow> trace_event \<Rightarrow> browser_call \<Rightarrow> nat \<Rightarrow> trace_state \<Rightarrow> trace_state option" where
  "on_candidate h e call i st =
     (if ts_denied st \<or> bl_kind call \<noteq> ''authentication'' \<or> \<not> bl_save call \<or> \<not> access_saves h
         \<or> ts_outcomes st ! i \<noteq> ''succeeded'' \<or> ts_candidate st \<or> ts_joined st
         \<or> te_outcome e \<noteq> ''staged-before-close'' then None
      else Some (st\<lparr>ts_candidate := True\<rparr>))"

definition on_join :: "trace_event \<Rightarrow> trace_state \<Rightarrow> trace_state option" where
  "on_join e st =
     (if \<not> ts_launched st \<or> ts_joined st \<or> te_outcome e \<noteq> ''proved'' then None
      else Some (st\<lparr>ts_joined := True\<rparr>))"

definition on_generation_recheck ::
  "browser_config \<Rightarrow> trace_event \<Rightarrow> trace_state \<Rightarrow> trace_state option" where
  "on_generation_recheck c e st =
     (if \<not> ts_joined st
         \<or> (case cf_session c of
              None \<Rightarrow> True
            | Some s \<Rightarrow> te_outcome e \<noteq> ''current-'' @ decimal (ss_generation s)) then None
      else Some (st\<lparr>ts_current := True\<rparr>))"

definition save_permitted ::
  "browser_config \<Rightarrow> host_witnesses \<Rightarrow> browser_call \<Rightarrow> bool" where
  "save_permitted c h call =
     (case (hw_save h, cf_session c) of
        (Some p, Some s) \<Rightarrow>
          access_saves h \<and> sw_one_use p \<and> sw_save p \<and> contract_identifier (sw_permission p)
          \<and> sw_session p = ss_name s \<and> sw_binding p = ss_binding s
          \<and> sw_generation p = ss_generation s \<and> sw_operation p = bl_operation_id call \<and> bl_save call
      | _ \<Rightarrow> False)"

definition on_session_save ::
  "browser_config \<Rightarrow> host_witnesses \<Rightarrow> trace_event \<Rightarrow> browser_call \<Rightarrow> trace_state \<Rightarrow> trace_state option" where
  "on_session_save c h e call st =
     (if ts_denied st \<or> \<not> ts_joined st \<or> \<not> ts_candidate st \<or> \<not> ts_current st \<or> ts_saved st
         \<or> \<not> save_permitted c h call \<or> te_outcome e \<noteq> ''encrypted-accepted'' then None
      else Some (st\<lparr>ts_saved := True\<rparr>))"

definition on_session_release :: "trace_event \<Rightarrow> trace_state \<Rightarrow> trace_state option" where
  "on_session_release e st =
     (if \<not> ts_joined st \<or> te_outcome e \<noteq> ''proved'' then None else Some (st\<lparr>ts_released := True\<rparr>))"

definition on_non_dispatch_check :: "trace_event \<Rightarrow> trace_state \<Rightarrow> trace_state option" where
  "on_non_dispatch_check e st =
     (if ts_any_sent st \<or> te_outcome e \<noteq> ''none'' then None else Some st)"

definition non_dispatch_proved :: "browser_config \<Rightarrow> host_witnesses \<Rightarrow> bool" where
  "non_dispatch_proved c h =
     (case hw_non_dispatch h of
        None \<Rightarrow> False
      | Some p \<Rightarrow>
          nw_run_id p = cf_run_id c \<and> nw_plan p = cf_plan c \<and> nw_all_covered p \<and> nw_none_sent p
          \<and> same_digest (canonical_calls_digest (nw_calls p)) (canonical_calls_digest (cf_calls c))
          \<and> nw_joined p = hw_join h)"

definition on_non_dispatch ::
  "browser_config \<Rightarrow> host_witnesses \<Rightarrow> trace_event \<Rightarrow> trace_state \<Rightarrow> trace_state option" where
  "on_non_dispatch c h e st =
     (if ts_any_sent st \<or> \<not> ts_joined st \<or> te_outcome e \<noteq> ''complete'' \<or> \<not> non_dispatch_proved c h
      then None else Some (st\<lparr>ts_non_dispatch := True\<rparr>))"

definition on_failure :: "trace_event \<Rightarrow> nat \<Rightarrow> trace_state \<Rightarrow> trace_state option" where
  "on_failure e i st =
     (if te_outcome e \<noteq> ''checkpoint_failed'' \<or> ts_outcomes st ! i \<noteq> ''succeeded'' \<or> ts_joined st
      then None else Some (stop_execution st))"

subsection \<open>The loop\<close>

definition call_index :: "browser_config \<Rightarrow> trace_event \<Rightarrow> nat option" where
  "call_index c e =
     find_index (\<lambda>x. bl_step_id x = te_step e \<and> bl_operation_id x = te_operation e
                     \<and> bl_invocation_id x = te_invocation e) (cf_calls c)"

definition call_event ::
  "browser_config \<Rightarrow> host_witnesses \<Rightarrow> trace_event \<Rightarrow> nat \<Rightarrow> trace_state \<Rightarrow> trace_state option" where
  "call_event c h e i st =
     (let call = cf_calls c ! i; ev = te_event e
      in if ev = ''session_acquire'' then on_session_acquire c h e call st
         else if ev = ''launch'' then on_launch h e st
         else if ev = ''registration_input'' then on_registration_input e call i st
         else if ev = ''question'' then on_question e call i st
         else if ev = ''interact'' then on_interact e i st
         else if ev = ''authority_recheck'' then on_authority_recheck e i st
         else if ev = ''claim_dispatch'' then on_claim_dispatch c e call i st
         else if ev = ''send'' then on_send e call i st
         else if ev = ''response'' then on_response e i st
         else if ev = ''write_completed'' then on_write_completed e i st
         else if ev = ''extraction'' \<or> ev = ''typed_driver_error'' then on_driver_failure i st
         else if ev = ''registration_context_close'' then on_registration_close e call i st
         else if ev = ''candidate'' then on_candidate h e call i st
         else if ev = ''join'' then on_join e st
         else if ev = ''generation_recheck'' then on_generation_recheck c e st
         else if ev = ''session_save'' then on_session_save c h e call st
         else if ev = ''session_release'' then on_session_release e st
         else if ev = ''non_dispatch_check'' then on_non_dispatch_check e st
         else if ev = ''non_dispatch'' then on_non_dispatch c h e st
         else if ev = ''failure'' then on_failure e i st
         else None)"

definition trace_step ::
  "browser_config \<Rightarrow> host_witnesses \<Rightarrow> trace_event \<Rightarrow> trace_state \<Rightarrow> trace_state option" where
  "trace_step c h e st =
     (if te_run_id e \<noteq> cf_run_id c \<or> te_plan e \<noteq> cf_plan c then None
      else if te_event e = ''credential_lease'' then on_credential_lease c h e st
      else if te_launch e \<noteq> lw_lease (hw_launch h) \<or> te_containment e \<noteq> lw_containment (hw_launch h)
              \<or> te_access e \<noteq> jw_access (hw_join h) then None
      else case call_index c e of
        None \<Rightarrow> None
      | Some i \<Rightarrow>
          if ts_pending st \<noteq> [] \<and> te_event e \<noteq> ''send'' then None
          else if ts_released st then None
          else call_event c h e i st)"

definition run_trace ::
  "browser_config \<Rightarrow> host_witnesses \<Rightarrow> trace_event list \<Rightarrow> trace_state \<Rightarrow> trace_state option" where
  "run_trace c h es st = run_events (trace_step c h) es st"

end
