(* ===== verification/Browser_Evidence.thy ===== *)
theory Browser_Evidence
  imports Browser_Trace
begin

text \<open>
  Package \<^verbatim>\<open>runevidence\<close>, \<^verbatim>\<open>browser.go\<close>: the observation of a browser run against the
  expected configuration, the inventory and the witnesses of the host, and the verification of
  the evidence document. \<^verbatim>\<open>artifact.CleanRelativePath\<close> is not part of the repository: it is
  the parameter \<^verbatim>\<open>clean_path\<close>, beside the parser of origins \<^verbatim>\<open>po\<close>.
\<close>

subsection \<open>The checks before the trace\<close>

definition same_call_identities :: "step_v5 list \<Rightarrow> browser_call list \<Rightarrow> bool" where
  "same_call_identities steps calls =
     list_all2 (\<lambda>s c. step_id s = bl_step_id c \<and> operation_id s = bl_operation_id c
                      \<and> invocation_id s = bl_invocation_id c) steps calls"

definition inputs_agree ::
  "(bytes \<Rightarrow> bytes option) \<Rightarrow> browser_config \<Rightarrow> inventory_v5 \<Rightarrow> host_witnesses \<Rightarrow> bool" where
  "inputs_agree po expected inventory h =
     (\<not> (\<not> validate_config po expected \<or> validate_inventory_v5 inventory \<noteq> Inr ()
         \<or> hw_bindings h < 0 \<or> 1 < hw_bindings h
         \<or> \<not> same_digest (canonical_config_digest expected) (canonical_config_digest (hw_config h))
         \<or> inventory \<noteq> hw_inventory h \<or> cf_fact_refs expected \<noteq> hw_fact_refs h
         \<or> hw_trace h = [] \<or> 4096 < length (hw_trace h)))"

definition inventory_matches :: "browser_config \<Rightarrow> inventory_v5 \<Rightarrow> bool" where
  "inventory_matches expected inventory =
     (\<not> (inv_run_id inventory \<noteq> cf_run_id expected
         \<or> inv_workflow_digest inventory \<noteq> ''sha256:'' @ cf_workflow expected
         \<or> length (inv_steps inventory) \<noteq> length (cf_calls expected)))"

definition requires_access :: "browser_config \<Rightarrow> bool" where
  "requires_access c = (case cf_session c of None \<Rightarrow> False | Some s \<Rightarrow> ss_reuse s \<or> ss_save s)"

definition launch_matches :: "browser_config \<Rightarrow> host_witnesses \<Rightarrow> bool" where
  "launch_matches c h =
     (let l = hw_launch h
      in \<not> (\<not> lw_all_traffic l \<or> \<not> lw_sandbox l \<or> \<not> contract_identifier (lw_lease l)
            \<or> lw_nonce l \<noteq> cf_nonce c \<or> lw_worker l \<noteq> cf_worker c \<or> lw_driver l \<noteq> cf_driver c
            \<or> lw_containment l \<noteq> cf_containment c \<or> lw_origins l \<noteq> cf_origins c
            \<or> \<not> joined (hw_join h) l (requires_access c)))"

definition access_matches :: "browser_config \<Rightarrow> host_witnesses \<Rightarrow> bool" where
  "access_matches c h =
     (case hw_access h of
        None \<Rightarrow> \<not> (requires_access c \<or> jw_access (hw_join h) \<noteq> [])
      | Some _ \<Rightarrow>
          \<not> (hw_bindings h \<noteq> 1
             \<or> \<not> session_access_matches c (jw_access (hw_join h)) (hw_access h) (hw_expected h)))"

text \<open>
  A failed parse leaves the zero time, and the source ignores the error for the deadline and
  the bounds of the session: the validators have accepted those texts.
\<close>

definition zero_time :: int where
  "zero_time = 0"

definition instant_or_zero :: "bytes \<Rightarrow> int" where
  "instant_or_zero s = (case parse_instant s of None \<Rightarrow> zero_time | Some t \<Rightarrow> t)"

definition within :: "int \<Rightarrow> int \<Rightarrow> int \<Rightarrow> bool" where
  "within created expires t = (\<not> (t < created \<or> \<not> t < expires))"

text \<open>A reused session is used within its life, at the start and at every step that uses it.\<close>

definition reuse_in_time :: "browser_config \<Rightarrow> host_witnesses \<Rightarrow> observation_v5 \<Rightarrow> int \<Rightarrow> bool" where
  "reuse_in_time c h ob start =
     (case hw_access h of
        None \<Rightarrow> True
      | Some w \<Rightarrow>
          if aw_outcome w \<noteq> ''reuse'' then True
          else
            (let created = instant_or_zero (ss_created (aw_session w));
                 expires = instant_or_zero (ss_expires (aw_session w))
             in if \<not> within created expires start then False
                else list_all2
                  (\<lambda>x s. if bl_session x = ss_name (aw_session w) \<and> step_started s \<noteq> [] then
                            (case parse_instant (step_started s) of
                               None \<Rightarrow> False
                             | Some t \<Rightarrow> within created expires t)
                          else True)
                  (cf_calls c) (obs_steps ob)))"

definition steps_before_deadline :: "int \<Rightarrow> observation_v5 \<Rightarrow> bool" where
  "steps_before_deadline deadline ob =
     list_all
       (\<lambda>s. if step_started s \<noteq> [] then
               (case parse_instant (step_started s) of None \<Rightarrow> False | Some t \<Rightarrow> t < deadline)
             else True)
       (obs_steps ob)"

subsection \<open>The observation\<close>

definition trace_closed :: "trace_state \<Rightarrow> bool" where
  "trace_closed st = (\<not> (ts_pending st \<noteq> [] \<or> \<not> ts_joined st \<or> \<not> ts_released st))"

definition outcomes_reported ::
  "browser_config \<Rightarrow> trace_state \<Rightarrow> observation_v5 \<Rightarrow> bool" where
  "outcomes_reported c st ob =
     list_all
       (\<lambda>i. \<not> (outcome (obs_steps ob ! i) \<noteq> ts_outcomes st ! i
               \<or> ts_sent st ! i \<and> bl_kind (cf_calls c ! i) = ''registration'' \<and> \<not> ts_closed st ! i))
       [0..<length (obs_steps ob)]"

definition observed_run_of ::
  "(bytes \<Rightarrow> bytes option) \<Rightarrow> browser_config \<Rightarrow> inventory_v5 \<Rightarrow> bytes \<Rightarrow> host_witnesses
     \<Rightarrow> browser_result option" where
  "observed_run_of po expected inventory report h =
     (let ob = observe_v5 inventory report
      in if \<not> inputs_agree po expected inventory h then None
         else if \<not> inventory_matches expected inventory then None
         else if obs_state ob \<noteq> ''validated'' then None
         else if \<not> same_call_identities (inv_steps inventory) (cf_calls expected) then None
         else if \<not> launch_matches expected h then None
         else if \<not> access_matches expected h then None
         else
           (let deadline = instant_or_zero (cf_deadline expected)
            in case parse_instant (obs_started_at ob) of
                 None \<Rightarrow> None
               | Some start \<Rightarrow>
                   if \<not> start < deadline then None
                   else if \<not> reuse_in_time expected h ob start then None
                   else if \<not> steps_before_deadline deadline ob then None
                   else
                     (case run_trace expected h (hw_trace h)
                             (start_state expected (length (inv_steps inventory))) of
                        None \<Rightarrow> None
                      | Some st \<Rightarrow>
                          if \<not> trace_closed st then None
                          else if \<not> outcomes_reported expected st ob then None
                          else if hw_non_dispatch h \<noteq> None \<and> \<not> ts_non_dispatch st then None
                          else Some \<lparr>rs_observation = ob,
                                     rs_successor = (ts_non_dispatch st \<and> \<not> ts_any_sent st)\<rparr>)))"

text \<open>
  The function returns the failure with an error, or the result: the left and the right of a
  sum.
\<close>

definition observe_browser_report ::
  "(bytes \<Rightarrow> bytes option) \<Rightarrow> browser_config \<Rightarrow> inventory_v5 \<Rightarrow> bytes \<Rightarrow> host_witnesses
     \<Rightarrow> browser_result + browser_result" where
  "observe_browser_report po expected inventory report h =
     (case observed_run_of po expected inventory report h of
        None \<Rightarrow> Inl (browser_failure inventory)
      | Some r \<Rightarrow> Inr r)"

subsection \<open>The evidence document\<close>

record browser_executor =
  ex_invoked :: bool
  ex_mode :: bytes
  ex_report_sha256 :: bytes
  ex_report_size :: int

record browser_evidence =
  ev_version :: bytes
  ev_run_id :: bytes
  ev_created_at :: bytes
  ev_scope :: bytes
  ev_tier :: bytes
  ev_dry_run :: bool
  ev_approval_state :: bytes
  ev_browser :: browser_config
  ev_executor :: browser_executor
  ev_steps :: "observation_v5 option"

definition run_evidence_version :: bytes where
  "run_evidence_version = ''openudon.browser-run-evidence.v1''"

definition last_instant :: "observation_v5 \<Rightarrow> bytes" where
  "last_instant ob = (if obs_finished_at ob = [] then obs_started_at ob else obs_finished_at ob)"

definition not_before_last :: "int \<Rightarrow> observation_v5 \<Rightarrow> bool" where
  "not_before_last created ob =
     (case parse_instant (last_instant ob) of None \<Rightarrow> False | Some t \<Rightarrow> \<not> created < t)"

definition evidence_metadata_valid ::
  "(bytes \<Rightarrow> bytes option) \<Rightarrow> (bytes \<Rightarrow> bytes option) \<Rightarrow> browser_evidence \<Rightarrow> bool" where
  "evidence_metadata_valid po clean_path e =
     (if clean_path (ev_scope e) \<noteq> Some (ev_scope e) \<or> 2048 < length (ev_scope e)
         \<or> ev_version e \<noteq> run_evidence_version \<or> \<not> validate_config po (ev_browser e)
         \<or> ev_run_id e \<noteq> cf_run_id (ev_browser e) \<or> ev_tier e \<noteq> ''sandbox''
         \<or> ev_approval_state e \<noteq> ''approved_for_sandbox'' then False
      else case ev_steps e of
        None \<Rightarrow> False
      | Some ob \<Rightarrow>
          if validate_observation_v5 ob \<noteq> Inr () then False
          else case parse_instant (ev_created_at e) of
            None \<Rightarrow> False
          | Some created \<Rightarrow>
              if obs_run_id ob \<noteq> ev_run_id e
                 \<or> obs_workflow_digest ob \<noteq> ''sha256:'' @ cf_workflow (ev_browser e)
                 \<or> length (obs_steps ob) \<noteq> length (cf_calls (ev_browser e)) then False
              else if \<not> same_call_identities (obs_steps ob) (cf_calls (ev_browser e)) then False
              else if ev_dry_run e then
                \<not> ex_invoked (ev_executor e) \<and> ex_mode (ev_executor e) = ''dry_run''
                \<and> ex_report_sha256 (ev_executor e) = [] \<and> ex_report_size (ev_executor e) = 0
                \<and> obs_state ob = ''dry_run''
              else
                not_before_last created ob \<and> obs_state ob = ''validated''
                \<and> ex_invoked (ev_executor e) \<and> ex_mode (ev_executor e) = ''native''
                \<and> digest_valid (ex_report_sha256 (ev_executor e)) \<and> 0 < ex_report_size (ev_executor e)
                \<and> ex_report_size (ev_executor e) \<le> contract_max_bytes)"

definition executor_fields :: gofields where
  "executor_fields =
     [(''invoked'', False, GBool), (''mode'', False, GString), (''report_sha256'', True, GString),
      (''report_size'', True, GInt)]"

definition observation_fields :: gofields where
  "observation_fields =
     [(''report_version'', False, GString), (''run_id'', False, GString),
      (''workflow_id'', False, GString), (''workflow_digest'', False, GString),
      (''state'', False, GString), (''inventory_complete'', False, GBool),
      (''report_status'', True, GString), (''started_at'', True, GString),
      (''finished_at'', True, GString), (''error_code'', True, GString),
      (''steps'', False, GSlice (GStruct step_v5_fields))]"

definition evidence_fields :: gofields where
  "evidence_fields =
     [(''version'', False, GString), (''run_id'', False, GString), (''created_at'', False, GString),
      (''scope'', False, GString), (''tier'', False, GString), (''dry_run'', False, GBool),
      (''approval_state'', False, GString), (''browser'', False, GStruct config_fields),
      (''executor'', False, GStruct executor_fields),
      (''step_execution'', True, GPtr (GStruct observation_fields))]"

definition executor_of_json :: "json \<Rightarrow> browser_executor" where
  "executor_of_json j =
     \<lparr>ex_invoked = bool_of (field_value executor_fields ''invoked'' j),
      ex_mode = str_of (field_value executor_fields ''mode'' j),
      ex_report_sha256 = str_of (field_value executor_fields ''report_sha256'' j),
      ex_report_size = int_of_json (field_value executor_fields ''report_size'' j)\<rparr>"

definition observation_of_json :: "json \<Rightarrow> observation_v5" where
  "observation_of_json j =
     (let v = (\<lambda>name. field_value observation_fields name j); f = (\<lambda>name. str_of (v name))
      in \<lparr>obs_report_version = f ''report_version'', obs_run_id = f ''run_id'',
          obs_workflow_id = f ''workflow_id'', obs_workflow_digest = f ''workflow_digest'',
          obs_state = f ''state'', obs_inventory_complete = bool_of (v ''inventory_complete''),
          obs_report_status = f ''report_status'', obs_started_at = f ''started_at'',
          obs_finished_at = f ''finished_at'', obs_error_code = f ''error_code'',
          obs_steps = map step_of_json (elements (v ''steps''))\<rparr>)"

definition evidence_of_json :: "json \<Rightarrow> browser_evidence" where
  "evidence_of_json j =
     (let v = (\<lambda>name. field_value evidence_fields name j); f = (\<lambda>name. str_of (v name))
      in \<lparr>ev_version = f ''version'', ev_run_id = f ''run_id'', ev_created_at = f ''created_at'',
          ev_scope = f ''scope'', ev_tier = f ''tier'', ev_dry_run = bool_of (v ''dry_run''),
          ev_approval_state = f ''approval_state'', ev_browser = config_of_json (v ''browser''),
          ev_executor = executor_of_json (v ''executor''),
          ev_steps =
            (if v ''step_execution'' = JNull then None
             else Some (observation_of_json (v ''step_execution'')))\<rparr>)"

subsection \<open>Verification\<close>

record verify_options =
  vo_expected :: browser_config
  vo_authority :: browser_authority
  vo_inventory :: inventory_v5
  vo_scope :: bytes
  vo_dry_run :: bool
  vo_report :: bytes
  vo_host :: host_witnesses

definition evidence_bound ::
  "(bytes \<Rightarrow> bytes option) \<Rightarrow> (bytes \<Rightarrow> bytes option) \<Rightarrow> verify_options \<Rightarrow> browser_evidence \<Rightarrow> bool" where
  "evidence_bound po clean_path q e =
     (\<not> (\<not> evidence_metadata_valid po clean_path e \<or> ev_run_id e \<noteq> cf_run_id (vo_expected q)
         \<or> ev_scope e \<noteq> vo_scope q \<or> ev_dry_run e \<noteq> vo_dry_run q
         \<or> \<not> validate_browser_authority po (vo_authority q)
         \<or> \<not> same_digest (canonical_config_digest (ba_config (vo_authority q)))
                          (canonical_config_digest (vo_expected q))
         \<or> \<not> same_digest (canonical_config_digest (ev_browser e))
                          (canonical_config_digest (vo_expected q))
         \<or> \<not> validate_config po (vo_expected q)))"

definition verify_browser_evidence ::
  "(bytes \<Rightarrow> bytes option) \<Rightarrow> (bytes \<Rightarrow> bytes option) \<Rightarrow> bytes \<Rightarrow> verify_options
     \<Rightarrow> browser_result + browser_evidence \<times> browser_result" where
  "verify_browser_evidence po clean_path data q =
     (let inventory = vo_inventory q; fail = Inl (browser_failure inventory)
      in if validate_inventory_v5 inventory \<noteq> Inr () \<or> \<not> inventory_matches (vo_expected q) inventory
           then fail
         else case decode_contract (GStruct evidence_fields) data of
           None \<Rightarrow> fail
         | Some j \<Rightarrow>
             (let e = evidence_of_json j
              in if \<not> evidence_bound po clean_path q e then fail
                 else if \<not> same_call_identities (inv_steps inventory) (cf_calls (vo_expected q)) then fail
                 else case parse_instant (ev_created_at e) of
                   None \<Rightarrow> fail
                 | Some created \<Rightarrow>
                     if ev_dry_run e then
                       (let expected = unknown_v5 inventory ''dry_run''
                        in if ex_invoked (ev_executor e) \<or> ex_mode (ev_executor e) \<noteq> ''dry_run''
                              \<or> ex_report_sha256 (ev_executor e) \<noteq> []
                              \<or> ex_report_size (ev_executor e) \<noteq> 0 \<or> vo_report q \<noteq> []
                              \<or> ev_steps e \<noteq> Some expected then fail
                           else Inr (e, \<lparr>rs_observation = expected, rs_successor = False\<rparr>))
                     else if \<not> ex_invoked (ev_executor e) \<or> ex_mode (ev_executor e) \<noteq> ''native''
                             \<or> ex_report_size (ev_executor e) \<noteq> int (length (vo_report q))
                             \<or> \<not> digest_valid (ex_report_sha256 (ev_executor e))
                             \<or> ex_report_sha256 (ev_executor e) \<noteq> sha256 (vo_report q)
                             \<or> ev_steps e = None then fail
                     else
                       (case observe_browser_report po (vo_expected q) inventory (vo_report q) (vo_host q) of
                          Inl _ \<Rightarrow> fail
                        | Inr r \<Rightarrow>
                            if ev_steps e \<noteq> Some (rs_observation r) then fail
                            else if \<not> not_before_last created (rs_observation r) then fail
                            else Inr (e, r))))"

end
