(* ===== verification/Contract_Tree.thy ===== *)
theory Contract_Tree
  imports Contract_Wire
begin

text \<open>
  The tree a configuration prints, beside its encoding with raw messages, and what can be read
  back from that tree after its members were sorted: every field of the configuration.
\<close>

subsection \<open>Lists of names\<close>

definition plain :: "bytes \<Rightarrow> bool" where
  "plain s = list_all (\<lambda>c. byte c < 128 \<and> escape_byte True c = None \<and> byte c \<noteq> 34 \<and> byte c \<noteq> 92
       \<and> c \<notin> set ''<>&'' ) s"

lemma effect_name_plain: "effect_name s \<Longrightarrow> plain s"
  unfolding effect_name_def plain_def
  by (drule matches_class_chars)
    (auto simp: class_defs list_all_iff escape_byte_def dest!: bspec)

lemma escape_byte_False: "escape_byte True c = None \<Longrightarrow> escape_byte False c = None"
  by (auto simp: escape_byte_def split: if_split_asm)

lemma quote_body_plain: "plain s \<Longrightarrow> quote_body html s = s"
proof (induction s)
  case (Cons c s)
  have c: "byte c < 128" "escape_byte html c = None" "plain s"
    using Cons.prems escape_byte_False [of c] by (cases html; auto simp: plain_def)+
  show ?case unfolding quote_body_ascii [OF c(1)] using c Cons.IH by simp
qed simp

lemma compact_plain: "plain s \<Longrightarrow> compact True (s @ r) = s @ compact True r"
proof (induction s)
  case (Cons c s)
  have c: "byte c < 128" "byte c \<noteq> 34" "byte c \<noteq> 92" "c \<notin> set ''<>&''" "plain s"
    using Cons.prems by (simp_all add: plain_def)
  then have "map byte (take 3 (c # s @ r)) \<notin> {[226, 128, 168], [226, 128, 169]}"
    by (auto simp: numeral_3_eq_3)
  then show ?case using c Cons.IH by (subst append_Cons, subst compact.simps) simp
qed simp

lemma compact_quoted: "plain s \<Longrightarrow> compact False (quoted html s @ r) = quoted html s @ compact False r"
proof -
  assume s: "plain s"
  have "quoted html s = CHR 0x22 # s @ [CHR 0x22]" by (simp add: quoted_def char_of_consts quote_body_plain s)
  then show ?thesis using compact_plain [OF s]
    by (simp add: compact.simps [of _ "CHR 0x22 # _"])
qed

lemma compact_strings:
  "\<forall>s \<in> set es. plain s \<Longrightarrow>
     compact False (join '','' (map (quoted html) es) @ r) = join '','' (map (quoted html) es) @ compact False r"
proof (induction "'',''" es rule: join.induct)
  case (3 x y zs)
  then show ?case
    by (simp add: compact_quoted compact.simps [of False "CHR '','' # _"] is_ws_def)
qed (simp_all add: compact_quoted)

definition strings_json :: "bytes list \<Rightarrow> json" where
  "strings_json es = JArr (map JStr es)"

lemma print_strings: "print_json html (strings_json es) = ''['' @ join '','' (map (quoted html) es) @ '']''"
  by (simp add: strings_json_def comp_def)

lemma compact_print_strings:
  "\<forall>s \<in> set es. plain s \<Longrightarrow> compact False (print_json html (strings_json es)) = print_json html (strings_json es)"
  using compact_strings [of es html "'']''"]
  by (simp add: print_strings compact.simps [of False "_ # _"] compact.simps [of False "[]"] is_ws_def)

lemma digits_value_snoc: "digits_value a (ds @ [d]) = 10 * digits_value a ds + digit_value d"
  by (induction ds arbitrary: a) simp_all

lemma digits_value_decimal: "0 \<le> n \<Longrightarrow> digits_value 0 (decimal n) = n"
proof (induction n rule: decimal.induct)
  case (1 n)
  have d: "digit_value (digit_char n) = n mod 10"
  proof -
    have "0 \<le> n mod 10" "n mod 10 < 10" by simp_all
    then show ?thesis by (simp add: digit_value_def digit_char_def)
  qed
  show ?case
  proof (cases "n < 10")
    case True
    then show ?thesis using d 1(2) by (simp add: decimal.simps [of n])
  next
    case False
    then have "digits_value 0 (decimal (n div 10)) = n div 10" using 1 by simp
    then show ?thesis using d False by (simp add: decimal.simps [of n] digits_value_snoc)
  qed
qed

lemma decimal_inj: "0 \<le> m \<Longrightarrow> 0 \<le> n \<Longrightarrow> decimal m = decimal n \<longleftrightarrow> m = n"
  using digits_value_decimal by metis

lemma decimal_digits: "0 \<le> n \<Longrightarrow> list_all is_digit (decimal n)"
proof (induction n rule: decimal.induct)
  case (1 n)
  have "is_digit (digit_char n)"
  proof -
    have "0 \<le> n mod 10" "n mod 10 < 10" by simp_all
    then show ?thesis by (simp add: digit_char_def is_digit_def in_range_def)
  qed
  then show ?case using 1 by (simp add: decimal.simps [of n])
qed


subsection \<open>The tree of a configuration\<close>

text \<open>
  The effects written as the decoder leaves them: the canonical text of a list of names.
\<close>

definition canonical_effects :: "browser_call \<Rightarrow> bool" where
  "canonical_effects c =
     (\<exists>es. bl_effects c = Some (print_json False (strings_json es)) \<and> (\<forall>s \<in> set es. effect_name s))"

definition effects_tree :: "browser_call \<Rightarrow> json" where
  "effects_tree c =
     (case bl_effects c of
        None \<Rightarrow> JNull
      | Some raw \<Rightarrow> (case parse_json raw of None \<Rightarrow> JNull | Some j \<Rightarrow> j))"

definition call_tree :: "browser_call \<Rightarrow> json" where
  "call_tree c = call_members (effects_tree c) c"

definition config_tree :: "browser_config \<Rightarrow> json" where
  "config_tree c = config_members (map call_tree (cf_calls c)) c"

lemma plain_utf8: "plain s \<Longrightarrow> utf8_valid s"
  by (rule ascii_piece) (simp add: plain_def list_all_iff)

lemma effects_tree_strings:
  assumes "\<forall>s \<in> set es. effect_name s" "bl_effects c = Some (print_json False (strings_json es))"
  shows "effects_tree c = strings_json es"
proof -
  have "printable (strings_json es)"
    using assms(1) by (auto simp: strings_json_def intro: plain_utf8 effect_name_plain)
  then show ?thesis using assms(2) by (simp add: effects_tree_def parse_print)
qed

lemma print_raw_effects:
  assumes "canonical_effects c"
  shows "print_json html (raw_json (bl_effects c)) = print_json html (effects_tree c)"
proof -
  from assms obtain es where es: "bl_effects c = Some (print_json False (strings_json es))"
    "\<forall>s \<in> set es. effect_name s" by (auto simp: canonical_effects_def)
  then have plain: "\<forall>s \<in> set es. plain s" by (auto intro: effect_name_plain)
  then have "map (quoted html) es = map (quoted False) es"
    by (simp add: quoted_def quote_body_plain)
  then have "print_json html (strings_json es) = print_json False (strings_json es)"
    by (simp only: print_strings)
  then show ?thesis
    unfolding effects_tree_strings [OF es(2,1)] by (simp add: raw_json_def es(1) compact_print_strings plain)
qed

lemma print_members:
  "print_json html e = print_json html e' \<Longrightarrow>
     print_json html (call_members e c) = print_json html (call_members e' c)"
  by (simp add: call_members_def)

lemma print_config_members:
  "map (print_json html) xs = map (print_json html) ys \<Longrightarrow>
     print_json html (config_members xs c) = print_json html (config_members ys c)"
  by (simp add: config_members_def)

lemma marshal_config:
  assumes "\<forall>x \<in> set (cf_calls c). canonical_effects x"
  shows "marshal (config_json c) = marshal (config_tree c)"
  unfolding marshal_def config_json_def config_tree_def
  by (rule print_config_members)
    (use assms in \<open>auto simp: call_json_def call_tree_def intro!: print_members print_raw_effects\<close>)

subsection \<open>Members of sorted objects\<close>

definition lookup :: "bytes \<Rightarrow> json \<Rightarrow> json option" where
  "lookup k j = map_of (members j) k"

lemma map_of_sort: "distinct (map fst ms) \<Longrightarrow> map_of (sort_key fst ms) k = map_of ms k"
proof -
  assume d: "distinct (map fst ms)"
  have "mset (map fst (sort_key fst ms)) = mset (map fst ms)" by simp
  then have "distinct (map fst (sort_key fst ms))" using d mset_eq_imp_distinct_iff by blast
  then have "map_of (sort_key fst ms) k = Some v \<longleftrightarrow> map_of ms k = Some v" for v
    using d by simp
  then show ?thesis by (metis option.exhaust)
qed

lemma lookup_sorted:
  assumes "distinct (map fst ms)"
  shows "lookup k (sort_json (JObj ms)) = map_option sort_json (map_of ms k)"
proof -
  let ?g = "\<lambda>m. (fst m, sort_json (snd m))"
  have "distinct (map fst (map ?g ms))" using assms by (simp add: comp_def)
  then have "lookup k (sort_json (JObj ms)) = map_of (map ?g ms) k"
    by (simp add: lookup_def members_def map_of_sort del: map_map)
  also have "\<dots> = map_option sort_json (map_of ms k)" by (induction ms) auto
  finally show ?thesis .
qed

lemma same_members:
  assumes "sort_json (JObj ms) = sort_json (JObj ns)" "distinct (map fst ms)" "distinct (map fst ns)"
  shows "map_option sort_json (map_of ms k) = map_option sort_json (map_of ns k)"
  using lookup_sorted [OF assms(2), of k] lookup_sorted [OF assms(3), of k] assms(1) by simp

lemma map_of_omit: "map_of (omit_str a s @ ms) k = (if k = a \<and> s \<noteq> [] then Some (JStr s) else map_of ms k)"
  by (auto simp: omit_str_def)

lemma keys_omit: "map fst (omit_str a s) = (if s = [] then [] else [a])"
  by (simp add: omit_str_def)

lemma sort_strings [simp]: "map (sort_json \<circ> JStr) xs = map JStr xs"
  by (simp add: comp_def)

lemma omitted_member:
  "map_option sort_json (if s \<noteq> [] then Some (JStr s) else None)
     = map_option sort_json (if t \<noteq> [] then Some (JStr t) else None) \<longleftrightarrow> s = t"
  by auto

lemma map_JStr_inj [simp]: "map JStr xs = map JStr ys \<longleftrightarrow> xs = ys"
  by (rule inj_map_eq_map) (simp add: inj_def)

lemma distinct_call_members: "call_members e c = JObj ms \<Longrightarrow> distinct (map fst ms)"
  by (auto simp: call_members_def keys_omit split: if_split_asm)


text \<open>Reading the members of two equal sorted trees, one field at a time.\<close>

lemma strings_inj: "sort_json (JArr (map JStr xs)) = sort_json (JArr (map JStr ys)) \<longleftrightarrow> xs = ys"
  by simp

lemma selector_json_inj: "sort_json (selector_json s) = sort_json (selector_json t) \<Longrightarrow> s = t"
proof -
  assume a: "sort_json (selector_json s) = sort_json (selector_json t)"
  note m = same_members [OF a [unfolded selector_json_def]]
  show ?thesis using m [of "''kind''"] m [of "''value''"] m [of "''key''"] by (cases s; cases t) simp
qed

lemma slot_json_inj: "sort_json (slot_json s) = sort_json (slot_json t) \<Longrightarrow> s = t"
proof -
  assume a: "sort_json (slot_json s) = sort_json (slot_json t)"
  note m = same_members [OF a [unfolded slot_json_def]]
  show ?thesis using m [of "''slot''"] m [of "''name''"] by (cases s; cases t) simp
qed

lemma revision_json_inj: "sort_json (revision_json s) = sort_json (revision_json t) \<Longrightarrow> s = t"
proof -
  assume a: "sort_json (revision_json s) = sort_json (revision_json t)"
  note m = same_members [OF a [unfolded revision_json_def]]
  show ?thesis using m [of "''name''"] m [of "''revision''"] by (cases s; cases t) simp
qed

lemma map_inj_on_images:
  assumes "\<And>x y. x \<in> set xs \<Longrightarrow> y \<in> set ys \<Longrightarrow> f x = f y \<Longrightarrow> x = y" "map f xs = map f ys"
  shows "xs = ys"
proof -
  have "length xs = length ys" using assms(2) map_eq_imp_length_eq by blast
  then show ?thesis using assms by (induction xs ys rule: list_induct2) auto
qed

lemma opt_array_inj:
  assumes "\<And>x y. sort_json (f x) = sort_json (f y) \<Longrightarrow> x = y"
    "sort_json (opt_array f xs) = sort_json (opt_array f ys)"
  shows "xs = ys"
  using assms(2) map_inj_on_images [of _ _ "\<lambda>x. sort_json (f x)"] assms(1)
  by (auto simp: opt_array_def comp_def split: option.splits)

lemma call_members_inj:
  assumes "sort_json (call_members e c) = sort_json (call_members f d)"
  shows "c\<lparr>bl_effects := None\<rparr> = d\<lparr>bl_effects := None\<rparr> \<and> sort_json e = sort_json f"
proof -
  obtain ms ns where ms: "call_members e c = JObj ms" "call_members f d = JObj ns"
    by (simp add: call_members_def)
  note same = same_members [OF assms [unfolded ms] distinct_call_members [OF ms(1)] distinct_call_members [OF ms(2)]]
  have eqs: "ms = members (call_members e c)" "ns = members (call_members f d)"
    by (simp_all add: ms members_def)
  note m = same [unfolded eqs call_members_def members_def json.case append_assoc]
  have F_step_id: "bl_step_id c = bl_step_id d" using m [of "''step_id''"]
    by (simp add: map_of_omit omitted_member del: map_of_append cong: if_cong)
  have F_operation_id: "bl_operation_id c = bl_operation_id d" using m [of "''operation_id''"]
    by (simp add: map_of_omit omitted_member del: map_of_append cong: if_cong)
  have F_invocation_id: "bl_invocation_id c = bl_invocation_id d" using m [of "''invocation_id''"]
    by (simp add: map_of_omit omitted_member del: map_of_append cong: if_cong)
  have F_kind: "bl_kind c = bl_kind d" using m [of "''kind''"]
    by (simp add: map_of_omit omitted_member del: map_of_append cong: if_cong)
  have F_source_id: "bl_source_id c = bl_source_id d" using m [of "''source_id''"]
    by (simp add: map_of_omit omitted_member del: map_of_append cong: if_cong)
  have F_source_sha256: "bl_source_sha256 c = bl_source_sha256 d" using m [of "''source_sha256''"]
    by (simp add: map_of_omit omitted_member del: map_of_append cong: if_cong)
  have F_profile_version: "bl_profile c = bl_profile d" using m [of "''profile_version''"]
    by (simp add: map_of_omit omitted_member del: map_of_append cong: if_cong)
  have F_selected_sha256: "bl_selected_sha256 c = bl_selected_sha256 d" using m [of "''selected_sha256''"]
    by (simp add: map_of_omit omitted_member del: map_of_append cong: if_cong)
  have F_outer_protocol: "bl_outer c = bl_outer d" using m [of "''outer_protocol''"]
    by (simp add: map_of_omit omitted_member del: map_of_append cong: if_cong)
  have F_inner_protocol: "bl_inner c = bl_inner d" using m [of "''inner_protocol''"]
    by (simp add: map_of_omit omitted_member del: map_of_append cong: if_cong)
  have F_origins: "bl_origins c = bl_origins d" using m [of "''origins''"]
    by (simp add: map_of_omit omitted_member del: map_of_append cong: if_cong)
  have F_confirmation_policy_sha256: "bl_confirmation c = bl_confirmation d" using m [of "''confirmation_policy_sha256''"]
    by (simp add: map_of_omit omitted_member del: map_of_append cong: if_cong)
  have F_authentication_source_id: "bl_auth_source c = bl_auth_source d" using m [of "''authentication_source_id''"]
    by (simp add: map_of_omit omitted_member del: map_of_append cong: if_cong)
  have F_session_name: "bl_session c = bl_session d" using m [of "''session_name''"]
    by (simp add: map_of_omit omitted_member del: map_of_append cong: if_cong)
  have F_registration_input_binding: "bl_registration_input c = bl_registration_input d" using m [of "''registration_input_binding''"]
    by (simp add: map_of_omit omitted_member del: map_of_append cong: if_cong)
  have F_reuse_allowed: "bl_reuse c = bl_reuse d" using m [of "''reuse_allowed''"]
    by (simp add: map_of_omit omitted_member del: map_of_append cong: if_cong)
  have F_save_allowed: "bl_save c = bl_save d" using m [of "''save_allowed''"]
    by (simp add: map_of_omit omitted_member del: map_of_append cong: if_cong)
  have S1: "bl_selector c = bl_selector d" using m [of "''selector''"]
    by (simp add: map_of_omit del: map_of_append) (rule selector_json_inj)
  have S2: "bl_slots c = bl_slots d" using m [of "''credential_slots''"]
    by (simp add: map_of_omit del: map_of_append) (rule opt_array_inj [OF slot_json_inj])
  have S3: "sort_json e = sort_json f" using m [of "''effects''"]
    by (simp add: map_of_omit del: map_of_append)
  show ?thesis
    using S1 S2 S3 F_step_id F_operation_id F_invocation_id F_kind F_source_id F_source_sha256 F_profile_version F_selected_sha256 F_outer_protocol F_inner_protocol F_origins F_confirmation_policy_sha256 F_authentication_source_id F_session_name F_registration_input_binding F_reuse_allowed F_save_allowed by (intro conjI browser_call.equality; simp)
qed

lemma worker_json_inj: "sort_json (worker_json s) = sort_json (worker_json t) \<Longrightarrow> s = t"
proof -
  assume a: "sort_json (worker_json s) = sort_json (worker_json t)"
  note m = same_members [OF a [unfolded worker_json_def]]
  show ?thesis
    using m [of "''profile''"] m [of "''binary_sha256''"] m [of "''closure_sha256''"]
      m [of "''runtime_revision''"] by (cases s; cases t) simp
qed

lemma session_json_inj:
  assumes "sort_json (session_json s) = sort_json (session_json t)"
    "0 \<le> ss_generation s" "0 \<le> ss_generation t"
  shows "s = t"
proof -
  note m = same_members [OF assms(1) [unfolded session_json_def]]
  show ?thesis
    using m [of "''name''"] m [of "''binding_sha256''"] m [of "''generation''"] m [of "''created_at''"]
      m [of "''expires_at''"] m [of "''reuse_allowed''"] m [of "''save_allowed''"] assms(2,3)
    by (cases s; cases t) (simp add: decimal_inj)
qed

definition session_member :: "browser_session option \<Rightarrow> (bytes \<times> json) list" where
  "session_member s = (case s of None \<Rightarrow> [] | Some x \<Rightarrow> [(''session'', session_json x)])"

lemma map_of_session:
  "map_of (session_member s @ ms) k =
     (if k = ''session'' \<and> s \<noteq> None then map_option session_json s else map_of ms k)"
  by (auto simp: session_member_def split: option.splits)

lemma keys_session: "map fst (session_member s) = (if s = None then [] else [''session''])"
  by (simp add: session_member_def split: option.splits)

lemma distinct_config_members: "config_members xs c = JObj ms \<Longrightarrow> distinct (map fst ms)"
  unfolding config_members_def session_member_def [symmetric]
  by (auto simp: keys_session split: if_split_asm)

definition generation_natural :: "browser_config \<Rightarrow> bool" where
  "generation_natural c = (case cf_session c of None \<Rightarrow> True | Some s \<Rightarrow> 0 \<le> ss_generation s)"

lemma config_members_inj:
  assumes "sort_json (config_members xs c) = sort_json (config_members ys d)"
    "generation_natural c" "generation_natural d"
  shows "c\<lparr>cf_calls := []\<rparr> = d\<lparr>cf_calls := []\<rparr> \<and> map sort_json xs = map sort_json ys"
proof -
  obtain ms ns where ms: "config_members xs c = JObj ms" "config_members ys d = JObj ns"
    by (simp add: config_members_def)
  note same = same_members
    [OF assms(1) [unfolded ms] distinct_config_members [OF ms(1)] distinct_config_members [OF ms(2)]]
  have eqs: "ms = members (config_members xs c)" "ns = members (config_members ys d)"
    by (simp_all add: ms members_def)
  note m = same [unfolded eqs config_members_def session_member_def [symmetric] members_def json.case append_assoc]
  have F_version: "cf_version c = cf_version d" using m [of "''version''"]
    by (simp add: map_of_session del: map_of_append cong: if_cong)
  have F_owner_id: "cf_owner c = cf_owner d" using m [of "''owner_id''"]
    by (simp add: map_of_session del: map_of_append cong: if_cong)
  have F_agent_id: "cf_agent c = cf_agent d" using m [of "''agent_id''"]
    by (simp add: map_of_session del: map_of_append cong: if_cong)
  have F_run_id: "cf_run_id c = cf_run_id d" using m [of "''run_id''"]
    by (simp add: map_of_session del: map_of_append cong: if_cong)
  have F_package_sha256: "cf_package c = cf_package d" using m [of "''package_sha256''"]
    by (simp add: map_of_session del: map_of_append cong: if_cong)
  have F_handoff_sha256: "cf_handoff c = cf_handoff d" using m [of "''handoff_sha256''"]
    by (simp add: map_of_session del: map_of_append cong: if_cong)
  have F_inputs_sha256: "cf_inputs c = cf_inputs d" using m [of "''inputs_sha256''"]
    by (simp add: map_of_session del: map_of_append cong: if_cong)
  have F_approval_sha256: "cf_approval c = cf_approval d" using m [of "''approval_sha256''"]
    by (simp add: map_of_session del: map_of_append cong: if_cong)
  have F_plan_sha256: "cf_plan c = cf_plan d" using m [of "''plan_sha256''"]
    by (simp add: map_of_session del: map_of_append cong: if_cong)
  have F_workflow_sha256: "cf_workflow c = cf_workflow d" using m [of "''workflow_sha256''"]
    by (simp add: map_of_session del: map_of_append cong: if_cong)
  have F_supplement_sha256: "cf_supplement c = cf_supplement d" using m [of "''supplement_sha256''"]
    by (simp add: map_of_session del: map_of_append cong: if_cong)
  have F_driver_closure_sha256: "cf_driver c = cf_driver d" using m [of "''driver_closure_sha256''"]
    by (simp add: map_of_session del: map_of_append cong: if_cong)
  have F_launch_nonce: "cf_nonce c = cf_nonce d" using m [of "''launch_nonce''"]
    by (simp add: map_of_session del: map_of_append cong: if_cong)
  have F_containment_lease_id: "cf_containment c = cf_containment d" using m [of "''containment_lease_id''"]
    by (simp add: map_of_session del: map_of_append cong: if_cong)
  have F_admitted_deadline: "cf_deadline c = cf_deadline d" using m [of "''admitted_deadline''"]
    by (simp add: map_of_session del: map_of_append cong: if_cong)
  have F_origins: "cf_origins c = cf_origins d" using m [of "''origins''"]
    by (simp add: map_of_session del: map_of_append cong: if_cong)
  have F_host_fact_refs: "cf_fact_refs c = cf_fact_refs d" using m [of "''host_fact_refs''"]
    by (simp add: map_of_session del: map_of_append cong: if_cong)
  have S1: "cf_worker c = cf_worker d" using m [of "''worker''"]
    by (simp add: map_of_session del: map_of_append) (rule worker_json_inj)
  have S2: "cf_revisions c = cf_revisions d" using m [of "''credential_revisions''"]
    by (simp add: map_of_session del: map_of_append) (rule opt_array_inj [OF revision_json_inj])
  have S3: "map sort_json xs = map sort_json ys" using m [of "''approved_calls''"]
    by (simp add: map_of_session del: map_of_append)
  have S4: "cf_session c = cf_session d" using m [of "''session''"] assms(2,3) session_json_inj
    by (auto simp: map_of_session generation_natural_def simp del: map_of_append cong: if_cong
        split: option.splits if_split_asm)
  show ?thesis
    using S1 S2 S3 S4 F_version F_owner_id F_agent_id F_run_id F_package_sha256 F_handoff_sha256 F_inputs_sha256 F_approval_sha256 F_plan_sha256 F_workflow_sha256 F_supplement_sha256 F_driver_closure_sha256 F_launch_nonce F_containment_lease_id F_admitted_deadline F_origins F_host_fact_refs
    by (intro conjI browser_config.equality; simp)
qed

lemma config_tree_inj:
  assumes tree: "sort_json (config_tree c) = sort_json (config_tree d)"
    and natural: "generation_natural c" "generation_natural d"
    and effects: "\<forall>x \<in> set (cf_calls c). canonical_effects x" "\<forall>x \<in> set (cf_calls d). canonical_effects x"
  shows "c = d"
proof -
  note same = config_members_inj [OF tree [unfolded config_tree_def] natural]
  have "cf_calls c = cf_calls d"
  proof (rule map_inj_on_images [of _ _ "\<lambda>x. sort_json (call_tree x)"])
    show "map (\<lambda>x. sort_json (call_tree x)) (cf_calls c) = map (\<lambda>x. sort_json (call_tree x)) (cf_calls d)"
      using same by (simp add: comp_def)
    fix x y
    assume xy: "x \<in> set (cf_calls c)" "y \<in> set (cf_calls d)" "sort_json (call_tree x) = sort_json (call_tree y)"
    have "canonical_effects x" "canonical_effects y" using effects xy(1,2) by auto
    then obtain es fs where e: "bl_effects x = Some (print_json False (strings_json es))"
      "\<forall>s \<in> set es. effect_name s"
      "bl_effects y = Some (print_json False (strings_json fs))" "\<forall>s \<in> set fs. effect_name s"
      unfolding canonical_effects_def by blast
    note two = call_members_inj [OF xy(3) [unfolded call_tree_def]]
    have "es = fs" using two e by (simp add: effects_tree_strings strings_json_def)
    with e have "bl_effects x = bl_effects y" by simp
    moreover have "x\<lparr>bl_effects := None\<rparr>\<lparr>bl_effects := bl_effects y\<rparr> = y" using two by simp
    ultimately show "x = y" by (cases x; cases y) simp
  qed
  moreover have "c\<lparr>cf_calls := []\<rparr>\<lparr>cf_calls := cf_calls d\<rparr> = d" using same by simp
  ultimately show ?thesis by (cases c; cases d) simp
qed


lemma validated_calls: "validate_config po c \<Longrightarrow> \<forall>x \<in> set (cf_calls c). validate_call po x"
  by (auto simp: validate_config_def scan_calls_iff split: if_split_asm option.splits)

subsection \<open>Fields of sorted objects\<close>

lemma find_field_exact: "k \<in> fst ` set fs \<Longrightarrow> map_option fst (find_field fs k) = Some k"
proof -
  assume "k \<in> fst ` set fs"
  then have "find (\<lambda>f. fst f = k) fs \<noteq> None" unfolding find_None_iff by force
  then obtain f where "find (\<lambda>f. fst f = k) fs = Some f" by auto
  moreover from this have "fst f = k" by (auto simp: find_Some_iff)
  ultimately show ?thesis by (simp add: find_field_def)
qed

lemma find_map_of: "find (\<lambda>m. fst m = k) ms = map_option (Pair k) (map_of ms k)"
  by (induction ms) auto

lemma find_cong_set: "(\<And>x. x \<in> set xs \<Longrightarrow> P x = Q x) \<Longrightarrow> find P xs = find Q xs"
  by (induction xs) auto

lemma field_value_exact:
  assumes "fst ` set ms \<subseteq> fst ` set fs"
  shows "field_value fs k (JObj ms) = (case map_of ms k of None \<Rightarrow> JNull | Some v \<Rightarrow> v)"
proof -
  have "find (\<lambda>m. map_option fst (find_field fs (fst m)) = Some k) ms = find (\<lambda>m. fst m = k) ms"
  proof (rule find_cong_set)
    fix m
    assume "m \<in> set ms"
    with assms have "map_option fst (find_field fs (fst m)) = Some (fst m)" by (intro find_field_exact) auto
    then show "(map_option fst (find_field fs (fst m)) = Some k) = (fst m = k)" by (simp only: option.inject)
  qed
  then show ?thesis by (simp add: field_value_def find_map_of split: option.splits)
qed

lemma sorted_members:
  "members (sort_json (JObj ms)) = sort_key fst (map (\<lambda>m. (fst m, sort_json (snd m))) ms)"
  by (simp add: members_def)

lemma field_value_sorted:
  assumes "distinct (map fst ms)" "fst ` set ms \<subseteq> fst ` set fs"
  shows "field_value fs k (sort_json (JObj ms)) = (case map_of ms k of None \<Rightarrow> JNull | Some v \<Rightarrow> sort_json v)"
proof -
  have "fst ` set (members (sort_json (JObj ms))) \<subseteq> fst ` set fs"
    using assms(2) unfolding sorted_members by force
  then have "field_value fs k (JObj (members (sort_json (JObj ms))))
      = (case lookup k (sort_json (JObj ms)) of None \<Rightarrow> JNull | Some v \<Rightarrow> v)"
    by (subst field_value_exact) (simp_all add: lookup_def)
  moreover have "JObj (members (sort_json (JObj ms))) = sort_json (JObj ms)" by (simp add: members_def)
  ultimately have "field_value fs k (sort_json (JObj ms))
      = (case lookup k (sort_json (JObj ms)) of None \<Rightarrow> JNull | Some v \<Rightarrow> v)"
    by (simp only:)
  then show ?thesis unfolding lookup_sorted [OF assms(1)] by (simp split: option.splits)
qed

subsection \<open>The length of printed trees\<close>

text \<open>A bound on the length of printed JSON that does not need the text.\<close>

fun print_bound :: "json \<Rightarrow> int" where
  "print_bound (JNum n) = int (length n)"
| "print_bound (JStr s) = 6 * int (length s) + 2"
| "print_bound (JArr xs) = 2 + sum_list (map (\<lambda>x. print_bound x + 1) xs)"
| "print_bound (JObj ms) = 2 + sum_list (map (\<lambda>m. 6 * int (length (fst m)) + 4 + print_bound (snd m)) ms)"
| "print_bound _ = 5"

lemma escape_byte_length: "escape_byte html c = Some e \<Longrightarrow> length e \<le> 6"
  by (auto simp: escape_byte_def split: if_split_asm)

lemma length_quote_body: "length (quote_body html s) \<le> 6 * length s"
proof (induction html s rule: quote_body.induct)
  case (1 html s)
  show ?case
  proof (cases s)
    case (Cons c t)
    show ?thesis
      using 1 Cons escape_byte_length [of html c] utf8_len_le [of s]
      by (subst quote_body.simps) (auto split: option.splits)
  qed simp
qed

lemma length_quoted: "length (quoted html s) \<le> 6 * length s + 2"
  using length_quote_body [of html s] by (simp add: quoted_def)

lemma length_join: "int (length (join '','' xs)) \<le> sum_list (map (\<lambda>x. int (length x) + 1) xs)"
  by (induction "'',''" xs rule: join.induct) auto

lemma length_print: "int (length (print_json html j)) \<le> print_bound j"
proof (induction j rule: print_bound.induct)
  case (3 xs)
  have "sum_list (map (\<lambda>x. int (length (print_json html x)) + 1) xs) \<le> sum_list (map (\<lambda>x. print_bound x + 1) xs)"
    by (rule sum_list_mono) (simp add: 3)
  then show ?case using length_join [of "map (print_json html) xs"] by (simp add: comp_def)
next
  case (4 ms)
  let ?p = "\<lambda>m. quoted html (fst m) @ '':'' @ print_json html (snd m)"
  have "sum_list (map (\<lambda>m. int (length (?p m)) + 1) ms)
      \<le> sum_list (map (\<lambda>m. 6 * int (length (fst m)) + 4 + print_bound (snd m)) ms)"
  proof (rule sum_list_mono)
    fix m
    assume "m \<in> set ms"
    then have "int (length (print_json html (snd m))) \<le> print_bound (snd m)" by (rule 4)
    then show "int (length (?p m)) + 1 \<le> 6 * int (length (fst m)) + 4 + print_bound (snd m)"
      using length_quoted [of html "fst m"] by simp
  qed
  then show ?case using length_join [of "map ?p ms"] by (simp add: comp_def)
next
  case (2 s)
  then show ?case using length_quoted [of html s] by simp
qed simp_all

lemma print_bound_sort [simp]: "print_bound (sort_json j) = print_bound j"
proof (induction j rule: sort_json.induct)
  case (2 ms)
  then show ?case by (simp add: sum_list_sort_key comp_def cong: map_cong)
qed (simp_all add: comp_def cong: map_cong)

end
