(* ===== verification/Json_Conform.thy ===== *)
theory Json_Conform
  imports Contract_Tree Wire
begin

text \<open>
  Values of the shape of a Go type: what the encoder writes for a value of the type and what
  strict decoding takes back. The lemmas follow the structure of the type.
\<close>

definition conforms :: "goty \<Rightarrow> json \<Rightarrow> bool" where
  "conforms t j = (fits t j \<and> unambiguous t j)"

lemma conforms_base [simp]:
  "conforms t JNull" "conforms GString (JStr s)" "conforms GBool (JBool b)"
  "conforms (GSlice u) (JArr xs) \<longleftrightarrow> (\<forall>x \<in> set xs. conforms u x)"
  "conforms (GMap u) (JObj ms) \<longleftrightarrow> distinct (map fst ms) \<and> (\<forall>m \<in> set ms. conforms u (snd m))"
  by (auto simp: conforms_def elem_type_def member_type_def field_hits_def field_hit_def List.map_filter_def)

lemma find_field_of: "map_of fs k = Some (b, u) \<Longrightarrow> find_field fs k = Some (k, b, u)"
  by (simp add: find_field_def find_map_of)

lemma conforms_struct:
  assumes "distinct (map fst ms)"
    and "\<forall>m \<in> set ms. \<exists>b u. map_of fs (fst m) = Some (b, u) \<and> conforms u (snd m)"
  shows "conforms (GStruct fs) (JObj ms)"
proof -
  have hit: "field_hit (GStruct fs) (fst m) = Some (fst m)" "find_field fs (fst m) \<noteq> None"
    "conforms (member_type (GStruct fs) (fst m)) (snd m)" if "m \<in> set ms" for m
    using assms(2) that by (force simp: field_hit_def member_type_def dest: find_field_of)+
  have "field_hits (GStruct fs) ms = map fst ms"
    using hit(1) by (induction ms) (simp_all add: field_hits_Cons)
  then show ?thesis using assms(1) hit(2,3) by (auto simp: conforms_def)
qed

lemma conforms_fields:
  "(\<forall>m \<in> set ms. \<exists>b u. map_of fs (fst m) = Some (b, u) \<and> conforms u (snd m)) \<longleftrightarrow>
     list_all (\<lambda>m. case map_of fs (fst m) of None \<Rightarrow> False | Some (b, u) \<Rightarrow> conforms u (snd m)) ms"
  by (auto simp: list_all_iff split: option.splits)

lemma omitted_keys [simp]: "fst ` set (omit_str k s) = (if s = [] then {} else {k})"
  by (simp add: omit_str_def)

lemma decode_print:
  assumes "printable j" "conforms t j" "print_bound j \<le> max_bytes" "depth_of j \<le> max_depth"
    "node_count j \<le> max_nodes"
  shows "decode_strict t (print_json html j) = Inr j"
  using assms length_print [of html j] by (simp add: decode_strict_iff conforms_def parse_print)


lemma object_depth: "\<forall>m \<in> set ms. depth_of (snd m) \<le> b \<Longrightarrow> 0 \<le> b \<Longrightarrow> depth_of (JObj ms) \<le> b + 1"
  by (simp add: foldr_max_le)

subsection \<open>Closed shape\<close>

declare closed_shape.simps [simp del]

definition shaped :: "goty \<Rightarrow> json \<Rightarrow> bool" where
  "shaped t j = (conforms t j \<and> closed_shape t j)"

lemma dest_idem [simp]: "dest_type (dest_type t) = dest_type t"
  by (induction t) auto

lemma pointer_types [simp]:
  "member_type (GPtr t) = member_type t" "elem_type (GPtr t) = elem_type t" "field_hit (GPtr t) = field_hit t"
  by (simp_all add: fun_eq_iff member_type_def elem_type_def field_hit_def)

lemma fits_pointer: "fits (GPtr t) j = fits t j"
  by (cases j) (simp_all split: goty.split)

lemma unambiguous_pointer: "unambiguous (GPtr t) j = unambiguous t j"
  by (cases j) (simp_all add: field_hits_def)

lemma closed_pointer: "closed_shape (GPtr t) j = closed_shape t j"
  by (subst (1 2) closed_shape.simps) simp

lemma shaped_base [simp]:
  "shaped GString (JStr s)" "shaped GBool (JBool b)"
  "shaped (GPtr t) j = shaped t j"
  "shaped (GSlice u) (JArr xs) \<longleftrightarrow> (\<forall>x \<in> set xs. shaped u x)"
  by (auto simp: shaped_def conforms_def fits_pointer unambiguous_pointer closed_pointer elem_type_def closed_shape.simps)

lemma shaped_struct:
  assumes "distinct (map fst ms)"
    and "\<forall>m \<in> set ms. \<exists>b u. map_of fs (fst m) = Some (b, u) \<and> shaped u (snd m)"
    and "distinct (map fst fs)" "\<forall>f \<in> set fs. fst (snd f) \<or> fst f \<in> fst ` set ms"
  shows "shaped (GStruct fs) (JObj ms)"
proof -
  have "conforms (GStruct fs) (JObj ms)"
    by (rule conforms_struct [OF assms(1)]) (use assms(2) in \<open>force simp: shaped_def\<close>)
  moreover have rev: "map_of (rev ms) = map_of ms"
    using assms(1) by (subst map_of_inject_set) (simp_all add: rev_map [symmetric])
  have "case map_of ms (fst f) of None \<Rightarrow> fst (snd f) | Some v \<Rightarrow> closed_shape (snd (snd f)) v"
    if f: "f \<in> set fs" for f
  proof (cases "map_of ms (fst f)")
    case None
    then have "fst f \<notin> fst ` set ms" by (simp add: map_of_eq_None_iff)
    with None show ?thesis using assms(4) f by auto
  next
    case (Some v)
    then obtain b u where u: "map_of fs (fst f) = Some (b, u)" "shaped u v"
      using assms(2) by (force dest: map_of_SomeD)
    moreover have "map_of fs (fst f) = Some (snd f)" using assms(3) f by (cases f) simp
    ultimately show ?thesis using Some by (auto simp: shaped_def)
  qed
  moreover have "fst m \<in> fst ` set fs" if "m \<in> set ms" for m
    using assms(2) that by (force dest: map_of_SomeD)
  ultimately show ?thesis
    by (auto simp: shaped_def closed_shape.simps [of _ "JObj ms"] rev)
qed

end
