(* ===== verification/Go_Decode.thy ===== *)
theory Go_Decode
  imports Json_Conform
begin

text \<open>
  How \<^verbatim>\<open>encoding/json\<close> fills a destination. A member selects its field by exact name or by
  folded name, so one field can be reached twice; the second value is decoded into what the
  first one left: structs are merged field by field, the elements of a slice are decoded into
  the elements its backing array still holds, a null clears pointers and slices and leaves
  everything else alone.
\<close>

subsection \<open>Memory\<close>

text \<open>
  The contents of a destination. A slice has its backing array and its length; a number keeps
  its literal. \<^verbatim>\<open>MZero\<close> is the zero value of any type.
\<close>

datatype mem =
    MZero
  | MBool bool
  | MNum bytes
  | MStr bytes
  | MRaw json
  | MSlice "mem list" nat
  | MRec "(bytes \<times> mem) list"

definition mem_fields :: "mem \<Rightarrow> (bytes \<times> mem) list" where
  "mem_fields m = (case m of MRec ms \<Rightarrow> ms | _ \<Rightarrow> [])"

definition backing :: "mem \<Rightarrow> mem list" where
  "backing m = (case m of MSlice es n \<Rightarrow> es | _ \<Rightarrow> [])"

definition mem_at :: "bytes \<Rightarrow> (bytes \<times> mem) list \<Rightarrow> mem" where
  "mem_at k ms = (case map_of ms k of Some v \<Rightarrow> v | None \<Rightarrow> MZero)"

fun set_field :: "bytes \<Rightarrow> mem \<Rightarrow> (bytes \<times> mem) list \<Rightarrow> (bytes \<times> mem) list" where
  "set_field k v [] = [(k, v)]"
| "set_field k v (m # ms) = (if fst m = k then (k, v) # ms else m # set_field k v ms)"

text \<open>A null on a pointer, a slice, a map or an interface is nil; other values stay.\<close>

definition clear_null :: "goty \<Rightarrow> mem \<Rightarrow> mem" where
  "clear_null t m =
     (case t of GPtr _ \<Rightarrow> MZero | GSlice _ \<Rightarrow> MZero | GMap _ \<Rightarrow> MZero | GAny \<Rightarrow> MZero
      | GRaw \<Rightarrow> MRaw JNull | _ \<Rightarrow> m)"

fun fill :: "goty \<Rightarrow> mem \<Rightarrow> json \<Rightarrow> mem"
  and fill_fields :: "goty \<Rightarrow> (bytes \<times> mem) list \<Rightarrow> (bytes \<times> json) list \<Rightarrow> (bytes \<times> mem) list"
  and fill_elements :: "goty \<Rightarrow> mem list \<Rightarrow> json list \<Rightarrow> mem list"
where
  "fill t m j =
     (case dest_type t of
        GRaw \<Rightarrow> (if j = JNull then clear_null t m else MRaw j)
      | GAny \<Rightarrow> (if j = JNull then MZero else MRaw j)
      | _ \<Rightarrow>
          (case j of
             JNull \<Rightarrow> clear_null t m
           | JBool b \<Rightarrow> MBool b
           | JNum n \<Rightarrow> MNum n
           | JStr s \<Rightarrow> MStr s
           | JArr xs \<Rightarrow>
               (if xs = [] then MSlice [] 0
                else MSlice (fill_elements (elem_type t) (backing m) xs) (length xs))
           | JObj ms \<Rightarrow> MRec (fill_fields t (mem_fields m) ms)))"
| "fill_fields t ms [] = ms"
| "fill_fields t ms (x # xs) =
     (case dest_type t of
        GMap u \<Rightarrow> fill_fields t (set_field (fst x) (fill u MZero (snd x)) ms) xs
      | _ \<Rightarrow>
          (case field_hit t (fst x) of
             None \<Rightarrow> fill_fields t ms xs
           | Some f \<Rightarrow>
               fill_fields t (set_field f (fill (member_type t (fst x)) (mem_at f ms) (snd x)) ms) xs))"
| "fill_elements t es [] = es"
| "fill_elements t es (x # xs) =
     fill t (case es of e # _ \<Rightarrow> e | [] \<Rightarrow> MZero) x # fill_elements t (tl es) xs"

text \<open>What a reader of the destination sees: the elements up to the length, the fields that were set.\<close>

fun visible :: "mem \<Rightarrow> json" where
  "visible MZero = JNull"
| "visible (MBool b) = JBool b"
| "visible (MNum n) = JNum n"
| "visible (MStr s) = JStr s"
| "visible (MRaw j) = j"
| "visible (MSlice es n) = JArr (take n (map visible es))"
| "visible (MRec ms) = JObj (map (\<lambda>m. (fst m, visible (snd m))) ms)"

text \<open>The document a fresh destination shows after decoding.\<close>

definition received :: "goty \<Rightarrow> json \<Rightarrow> json" where
  "received t j = visible (fill t MZero j)"

subsection \<open>Exact documents\<close>

text \<open>A document whose members are exactly the fields, each once.\<close>

lemma set_field_new: "k \<notin> fst ` set ms \<Longrightarrow> set_field k v ms = ms @ [(k, v)]"
  by (induction ms) auto

lemma mem_at_new: "k \<notin> fst ` set ms \<Longrightarrow> mem_at k ms = MZero"
  by (simp add: mem_at_def map_of_eq_None_iff [symmetric])

declare fill.simps [simp del]

lemma fill_elements_fresh: "fill_elements t [] xs = map (fill t MZero) xs"
  by (induction xs) simp_all

definition exact_key :: "goty \<Rightarrow> bytes \<Rightarrow> bool" where
  "exact_key t k = (case dest_type t of GMap u \<Rightarrow> True | _ \<Rightarrow> field_hit t k = Some k)"

lemma member_type_map: "dest_type t = GMap u \<Longrightarrow> member_type t k = u"
  by (simp add: member_type_def)

lemma fill_fields_fresh:
  "distinct (map fst ms @ map fst xs) \<Longrightarrow> \<forall>x \<in> set xs. exact_key t (fst x) \<Longrightarrow>
     fill_fields t ms xs = ms @ map (\<lambda>x. (fst x, fill (member_type t (fst x)) MZero (snd x))) xs"
proof (induction xs arbitrary: ms)
  case (Cons x xs)
  let ?v = "fill (member_type t (fst x)) MZero (snd x)"
  have new: "fst x \<notin> fst ` set ms" using Cons.prems(1) by auto
  have "fill_fields t ms (x # xs) = fill_fields t (ms @ [(fst x, ?v)]) xs"
    using Cons.prems(2) new
    by (auto simp: exact_key_def mem_at_new set_field_new member_type_map split: goty.splits)
  also have "\<dots> = (ms @ [(fst x, ?v)]) @ map (\<lambda>x. (fst x, fill (member_type t (fst x)) MZero (snd x))) xs"
    using Cons.prems by (intro Cons.IH) auto
  finally show ?case by simp
qed simp

fun exact :: "goty \<Rightarrow> json \<Rightarrow> bool" where
  "exact t (JArr xs) = (dest_type t \<in> {GRaw, GAny} \<or> (\<forall>x \<in> set xs. exact (elem_type t) x))"
| "exact t (JObj ms) =
     (dest_type t \<in> {GRaw, GAny}
      \<or> distinct (map fst ms)
        \<and> (\<forall>m \<in> set ms. exact_key t (fst m) \<and> exact (member_type t (fst m)) (snd m)))"
| "exact t _ = True"

lemma clear_null_fresh [simp]: "visible (clear_null t MZero) = JNull"
  by (simp add: clear_null_def split: goty.split)

lemma received_null [simp]: "received t JNull = JNull"
  by (simp add: received_def fill.simps split: goty.split)

lemma received_raw: "dest_type t \<in> {GRaw, GAny} \<Longrightarrow> received t j = j"
  by (cases "j = JNull") (auto simp: received_def fill.simps)

lemma received_exact: "exact t j \<Longrightarrow> fits t j \<Longrightarrow> received t j = j"
proof (induction j arbitrary: t)
  case (JArr xs)
  show ?case
  proof (cases "dest_type t \<in> {GRaw, GAny}")
    case False
    then obtain u where u: "dest_type t = GSlice u" using JArr.prems(2) by (auto split: goty.splits)
    then have "\<forall>x \<in> set xs. visible (fill u MZero x) = x"
      using JArr False by (auto simp: received_def elem_type_def)
    then show ?thesis
      using u by (simp add: received_def fill.simps [of t] elem_type_def backing_def fill_elements_fresh map_idI)
  qed (rule received_raw)
next
  case (JObj ms)
  show ?case
  proof (cases "dest_type t \<in> {GRaw, GAny}")
    case False
    then have "\<forall>m \<in> set ms. fits (member_type t (fst m)) (snd m)"
      using JObj.prems(2) by (auto simp: member_type_map split: goty.splits)
    then have each: "\<forall>m \<in> set ms. visible (fill (member_type t (fst m)) MZero (snd m)) = snd m"
      using JObj False by (fastforce simp: received_def)
    have "received t (JObj ms) = visible (MRec (fill_fields t [] ms))"
      using False by (auto simp: received_def fill.simps [of t] mem_fields_def split: goty.split)
    also have "\<dots> = JObj ms"
      using JObj.prems(1) False each by (subst fill_fields_fresh) (auto simp: comp_def intro!: map_idI)
    finally show ?thesis .
  qed (rule received_raw)
qed (auto simp: received_def fill.simps split: goty.splits)

text \<open>The shape of a type and exact: what the encoder writes, and what any decoder takes back.\<close>

definition neat :: "goty \<Rightarrow> json \<Rightarrow> bool" where
  "neat t j = (shaped t j \<and> exact t j)"

lemma exact_key_pointer [simp]: "exact_key (GPtr t) k = exact_key t k"
  by (simp add: exact_key_def split: goty.split)

lemma exact_pointer: "exact (GPtr t) j = exact t j"
  by (cases j) simp_all

lemma neat_base [simp]:
  "neat GString (JStr s)" "neat GBool (JBool b)" "neat (GPtr t) j = neat t j"
  "neat (GSlice u) (JArr xs) \<longleftrightarrow> (\<forall>x \<in> set xs. neat u x)"
  by (auto simp: neat_def exact_pointer elem_type_def)

lemma neat_struct:
  assumes "distinct (map fst ms)"
    and "\<forall>m \<in> set ms. \<exists>b u. map_of fs (fst m) = Some (b, u) \<and> neat u (snd m)"
    and "distinct (map fst fs)" "\<forall>f \<in> set fs. fst (snd f) \<or> fst f \<in> fst ` set ms"
  shows "neat (GStruct fs) (JObj ms)"
proof -
  have "shaped (GStruct fs) (JObj ms)"
    by (rule shaped_struct [OF assms(1) _ assms(3,4)]) (use assms(2) in \<open>force simp: neat_def\<close>)
  moreover have "exact_key (GStruct fs) (fst m) \<and> exact (member_type (GStruct fs) (fst m)) (snd m)"
    if "m \<in> set ms" for m
    using assms(2) that by (force simp: exact_key_def field_hit_def member_type_def neat_def dest: find_field_of)
  ultimately show ?thesis using assms(1) by (auto simp: neat_def)
qed

lemma neat_received: "neat t j \<Longrightarrow> received t j = j"
  by (simp add: neat_def shaped_def conforms_def received_exact)

lemma neat_facts: "neat t j \<Longrightarrow> fits t j" "neat t j \<Longrightarrow> unambiguous t j" "neat t j \<Longrightarrow> closed_shape t j"
  by (simp_all add: neat_def shaped_def conforms_def)

text \<open>No struct or slice type can hide a repeated name.\<close>

lemma unambiguous_any: "unambiguous t j \<Longrightarrow> unambiguous GAny j"
proof (induction j arbitrary: t)
  case (JArr xs)
  then show ?case by (fastforce)
next
  case (JObj ms)
  then show ?case by (fastforce)
qed simp_all

subsection \<open>Sorted documents\<close>

text \<open>Sorting the members of every object keeps the shape a type asks for.\<close>

lemma fits_sorted: "fits t j \<Longrightarrow> fits t (sort_json j)"
proof (induction j arbitrary: t)
  case (JArr xs)
  then show ?case by (auto split: goty.splits)
next
  case (JObj ms)
  then show ?case by (fastforce split: goty.splits)
qed simp_all

lemma field_hits_mset: "mset (field_hits t ms) = image_mset (the \<circ> (\<lambda>m. field_hit t (fst m)))
    (filter_mset (\<lambda>m. field_hit t (fst m) \<noteq> None) (mset ms))"
  by (simp add: field_hits_def List.map_filter_def)

lemma field_hits_map: "(\<And>m. fst (g m) = fst m) \<Longrightarrow> field_hits t (map g ms) = field_hits t ms"
  by (induction ms) (simp_all add: field_hits_Cons split: option.split)

lemma sorted_hits_distinct:
  "distinct (field_hits t (sort_key fst (map (\<lambda>m. (fst m, sort_json (snd m))) ms))) \<longleftrightarrow> distinct (field_hits t ms)"
proof -
  let ?g = "map (\<lambda>m. (fst m, sort_json (snd m))) ms"
  have "mset (field_hits t (sort_key fst ?g)) = mset (field_hits t ?g)"
    by (simp only: field_hits_mset mset_sort)
  then have "distinct (field_hits t (sort_key fst ?g)) \<longleftrightarrow> distinct (field_hits t ?g)"
    by (rule mset_eq_imp_distinct_iff)
  then show ?thesis by (simp add: field_hits_map)
qed

lemma sorted_keys_distinct:
  "distinct (map fst (sort_key fst (map (\<lambda>m. (fst m, sort_json (snd m))) ms))) \<longleftrightarrow> distinct (map fst ms)"
proof -
  let ?g = "map (\<lambda>m. (fst m, sort_json (snd m))) ms"
  have "mset (map fst (sort_key fst ?g)) = mset (map fst ?g)" by (simp only: mset_map mset_sort)
  then have "distinct (map fst (sort_key fst ?g)) \<longleftrightarrow> distinct (map fst ?g)"
    by (rule mset_eq_imp_distinct_iff)
  then show ?thesis by (simp add: comp_def)
qed

lemma unambiguous_sorted: "unambiguous t j \<Longrightarrow> unambiguous t (sort_json j)"
proof (induction j arbitrary: t)
  case (JObj ms)
  then show ?case by (auto simp: sorted_hits_distinct sorted_keys_distinct)
qed auto

lemma closed_null [simp]: "closed_shape t JNull = False"
  by (simp add: closed_shape.simps)

lemma closed_sorted: "closed_shape t j \<Longrightarrow> unambiguous GAny j \<Longrightarrow> closed_shape t (sort_json j)"
proof (induction j arbitrary: t)
  case (JArr xs)
  then show ?case by (auto simp: closed_shape.simps [of t] elem_type_def split: goty.splits)
next
  case (JObj ms)
  show ?case
  proof (cases "dest_type t")
    case (GStruct fs)
    let ?s = "sort_key fst (map (\<lambda>m. (fst m, sort_json (snd m))) ms)"
    have d: "distinct (map fst ms)" using JObj.prems(2) by simp
    then have d': "distinct (map fst ?s)" by (simp only: sorted_keys_distinct)
    have rev: "map_of (rev xs) = map_of xs" if "distinct (map fst xs)" for xs :: "(bytes \<times> json) list"
      using that by (subst map_of_inject_set) (simp_all add: rev_map [symmetric])
    have at: "map_of ?s k = map_option sort_json (map_of ms k)" for k
      using lookup_sorted [OF d, of k] by (simp add: lookup_def members_def)
    from JObj.prems(1) have c: "\<forall>f \<in> set fs. case map_of ms (fst f) of None \<Rightarrow> fst (snd f) | Some v \<Rightarrow> closed_shape (snd (snd f)) v"
      "\<forall>m \<in> set ms. fst m \<in> fst ` set fs"
      using GStruct by (simp_all add: closed_shape.simps [of t] rev [OF d])
    have "closed_shape (snd (snd f)) (sort_json v)" if "f \<in> set fs" "map_of ms (fst f) = Some v" for f v
    proof -
      have m: "(fst f, v) \<in> set ms" using that(2) by (rule map_of_SomeD)
      then have "unambiguous GAny v" using JObj.prems(2) by auto
      with m c(1) that show ?thesis by (intro JObj.IH [OF m]) fastforce+
    qed
    then have "\<forall>f \<in> set fs. case map_of ?s (fst f) of None \<Rightarrow> fst (snd f) | Some v \<Rightarrow> closed_shape (snd (snd f)) v"
      using c(1) unfolding at by (auto split: option.splits)
    moreover have "\<forall>m \<in> set ?s. fst m \<in> fst ` set fs" using c(2) by auto
    ultimately show ?thesis
      using GStruct by (simp add: closed_shape.simps [of t] rev [OF d'])
  qed (use JObj.prems(1) in \<open>auto simp: closed_shape.simps [of t]\<close>)
qed auto

text \<open>A printed tree of the shape of a type is what the closed decoding returns, sorted.\<close>

lemma decode_contract_neat:
  assumes j: "printable j" "neat t j" and limits: "depth_of j \<le> max_depth" "node_count j \<le> max_nodes"
    and size: "print_bound j \<le> contract_max_bytes"
  shows "decode_contract t (print_json html j) = Some (sort_json j)"
proof -
  note facts = neat_facts [OF j(2)]
  note any = unambiguous_any [OF facts(2)]
  have len: "int (length (print_json html j)) \<le> contract_max_bytes"
    "int (length (print_json False (sort_json j))) \<le> contract_max_bytes"
    using length_print [of html j] length_print [of False "sort_json j"] size by simp_all
  have "canonical_json (print_json html j) = Some (print_json False (sort_json j))"
    using canonical_json_print [OF j(1) any limits, of html] len(1) by (simp add: contract_max_bytes_def)
  moreover have "decode_strict t (print_json False (sort_json j)) = Inr (sort_json j)"
    unfolding decode_strict_iff
    using len(2) limits j(1) fits_sorted [OF facts(1)] unambiguous_sorted [OF facts(2)]
    by (simp add: parse_print max_bytes_def contract_max_bytes_def)
  ultimately show ?thesis
    using len(1) closed_sorted [OF facts(3) any] by (simp add: decode_contract_def)
qed

end
