(* ===== verification/Contract_Digest.thy ===== *)
theory Contract_Digest
  imports Contract_Tree Go_Decode
begin

text \<open>
  What decoding leaves in a configuration, and that its canonical digest determines it.
\<close>

subsection \<open>Decoded configurations\<close>

lemma find_in: "find P xs = Some m \<Longrightarrow> m \<in> set xs"
  by (induction xs) (auto split: if_split_asm)

lemma printable_field: "printable j \<Longrightarrow> printable (field_value fs k j)"
  by (cases j) (auto simp: field_value_def split: option.splits dest!: find_in)

lemma printable_str: "printable j \<Longrightarrow> utf8_valid (str_of j)"
  by (cases j) (simp_all add: str_of_def)

lemma printable_elements: "printable j \<Longrightarrow> x \<in> set (elements j) \<Longrightarrow> printable x"
  by (auto simp: elements_def split: json.splits)

lemmas printable_reads = printable_field printable_str printable_elements

lemma printable_omit: "utf8_valid k \<Longrightarrow> utf8_valid s \<Longrightarrow> (\<forall>m \<in> set (omit_str k s). utf8_valid (fst m) \<and> printable (snd m))"
  by (simp add: omit_str_def)

lemma digit_char_zero: "0 \<le> n \<Longrightarrow> n < 10 \<Longrightarrow> digit_char n = CHR ''0'' \<longleftrightarrow> n = 0"
proof -
  assume n: "0 \<le> n" "n < 10"
  have zero: "digit_char 0 = CHR ''0''" by code_simp
  have "digit_char n = digit_char 0 \<longleftrightarrow> n = 0"
    using decimal_inj [OF n(1), of 0] n by (simp add: decimal.simps)
  then show ?thesis by (simp only: zero)
qed

lemma decimal_first: "0 < n \<Longrightarrow> decimal n \<noteq> [] \<and> hd (decimal n) \<noteq> CHR ''0''"
proof (induction n rule: decimal.induct)
  case (1 n)
  then show ?case
    by (cases "n < 10") (auto simp: decimal.simps [of n] digit_char_zero)
qed

lemma decimal_good: "0 \<le> n \<Longrightarrow> good_number (decimal n)"
proof (cases "n = 0")
  case False
  assume "0 \<le> n"
  with False have f: "decimal n \<noteq> []" "hd (decimal n) \<noteq> CHR ''0''" "list_all is_digit (decimal n)"
    using decimal_first [of n] decimal_digits [of n] by simp_all
  then have "is_digit (hd (decimal n))" by (cases "decimal n") auto
  then have "hd (decimal n) \<noteq> CHR ''-''" by (auto simp: is_digit_def in_range_def byte_def)
  moreover have "digits1 (decimal n) = Some (decimal n, [])" using f by (simp add: digits1_iff)
  ultimately show ?thesis
    using f by (simp add: good_number_def scan_number_def int_part_def frac_part_def exp_part_def)
next
  case True
  have "good_number (decimal 0)" by code_simp
  then show ?thesis using True by simp
qed

lemma uint_natural: "0 \<le> uint_of_json j"
proof -
  have "0 \<le> foldl (\<lambda>a d. 10 * a + (byte d - 48)) a n" if "0 \<le> a" "list_all is_digit n" for a n
    using that by (induction n arbitrary: a) (auto simp: is_digit_def in_range_def)
  then show ?thesis
    by (auto simp: uint_of_json_def uint_lexeme_def Let_def split: json.splits option.splits if_split_asm)
qed

lemma strings_printable: "printable j \<Longrightarrow> list_all utf8_valid (strings_of j)"
  by (auto simp: strings_of_def list_all_iff intro: printable_reads)

lemma printable_slot: "printable j \<Longrightarrow> printable (slot_json (slot_of_json j))"
  by (simp add: slot_json_def slot_of_json_def printable_reads)

lemma printable_revision: "printable j \<Longrightarrow> printable (revision_json (revision_of_json j))"
  by (simp add: revision_json_def revision_of_json_def printable_reads)

lemma printable_selector: "printable j \<Longrightarrow> printable (selector_json (selector_of_json j))"
  by (simp add: selector_json_def selector_of_json_def printable_reads)

lemma printable_worker: "printable j \<Longrightarrow> printable (worker_json (worker_of_json j))"
  by (simp add: worker_json_def worker_of_json_def printable_reads)

lemma printable_session: "printable j \<Longrightarrow> printable (session_json (session_of_json j))"
  by (simp add: session_json_def session_of_json_def printable_reads Let_def decimal_good uint_natural)

lemma printable_slots: "printable j \<Longrightarrow> printable (JArr (map (slot_json \<circ> slot_of_json) (elements j)))"
  by (auto intro: printable_slot printable_elements)

lemma printable_revisions:
  "printable j \<Longrightarrow> printable (JArr (map (revision_json \<circ> revision_of_json) (elements j)))"
  by (auto intro: printable_revision printable_elements)

definition call_texts :: "browser_call \<Rightarrow> bytes list" where
  "call_texts c =
    [bl_step_id c, bl_operation_id c, bl_invocation_id c, bl_kind c, bl_source_id c,
     bl_source_sha256 c, bl_profile c, bl_selected_sha256 c, bl_outer c, bl_inner c,
     bl_confirmation c, bl_auth_source c, bl_session c, bl_registration_input c]"

lemma printable_call_members:
  assumes "list_all utf8_valid (call_texts c)" "list_all utf8_valid (bl_origins c)" "printable e"
    "printable (selector_json (bl_selector c))" "printable (opt_array slot_json (bl_slots c))"
  shows "printable (call_members e c)"
  using assms by (simp add: call_texts_def call_members_def omit_str_def list_all_iff)

lemma printable_call:
  assumes "printable j" "printable e"
  shows "printable (call_members e (call_of_json j))"
proof (rule printable_call_members)
  show "list_all utf8_valid (call_texts (call_of_json j))"
    by (simp add: call_texts_def call_of_json_def Let_def printable_reads assms)
  show "list_all utf8_valid (bl_origins (call_of_json j))"
    by (simp add: call_of_json_def Let_def strings_printable printable_reads assms)
  show "printable (selector_json (bl_selector (call_of_json j)))"
    by (simp add: call_of_json_def Let_def printable_selector printable_reads assms)
  show "printable (opt_array slot_json (bl_slots (call_of_json j)))"
    by (simp add: call_of_json_def Let_def opt_array_def printable_slots printable_reads assms
        del: printable.simps)
qed (rule assms(2))

definition config_texts :: "browser_config \<Rightarrow> bytes list" where
  "config_texts c =
    [cf_version c, cf_owner c, cf_agent c, cf_run_id c, cf_package c, cf_handoff c,
     cf_inputs c, cf_approval c, cf_plan c, cf_workflow c, cf_supplement c, cf_driver c,
     cf_nonce c, cf_containment c, cf_deadline c]"

lemma printable_config_members:
  assumes "list_all utf8_valid (config_texts c)" "list_all utf8_valid (cf_origins c @ cf_fact_refs c)"
    "printable (worker_json (cf_worker c))" "printable (opt_array revision_json (cf_revisions c))"
    "\<forall>s. cf_session c = Some s \<longrightarrow> printable (session_json s)" "\<forall>x \<in> set xs. printable x"
  shows "printable (config_members xs c)"
  using assms by (cases "cf_session c") (simp_all add: config_texts_def config_members_def list_all_iff)

lemma printable_config:
  assumes "printable j" "\<forall>x \<in> set xs. printable x"
  shows "printable (config_members xs (config_of_json j))"
proof (rule printable_config_members)
  show "list_all utf8_valid (config_texts (config_of_json j))"
    by (simp add: config_texts_def config_of_json_def Let_def printable_reads assms)
  show "list_all utf8_valid (cf_origins (config_of_json j) @ cf_fact_refs (config_of_json j))"
    by (simp add: config_of_json_def Let_def strings_printable printable_reads assms)
  show "printable (worker_json (cf_worker (config_of_json j)))"
    by (simp add: config_of_json_def Let_def printable_worker printable_reads assms)
  show "printable (opt_array revision_json (cf_revisions (config_of_json j)))"
    by (simp add: config_of_json_def Let_def opt_array_def printable_revisions
        printable_reads assms del: printable.simps)
  show "\<forall>s. cf_session (config_of_json j) = Some s \<longrightarrow> printable (session_json s)"
    by (simp add: config_of_json_def Let_def printable_session printable_reads assms)
qed (rule assms(2))

lemma string_list:
  assumes "fits (GSlice GString) v" "\<forall>s \<in> set (map str_of (elements v)). s \<noteq> []" "map str_of (elements v) \<noteq> []"
  shows "v = strings_json (map str_of (elements v))"
proof -
  obtain xs where v: "v = JArr xs" using assms(3) by (cases v) (simp_all add: elements_def)
  have "x = JStr (str_of x)" if "x \<in> set xs" for x
    using assms(1,2) that by (cases x) (auto simp: v elements_def str_of_def)
  then show ?thesis by (simp add: v elements_def strings_json_def map_idI)
qed

lemma decoded_effects:
  assumes "effects_valid (Some (print_json False v))" "printable v"
  shows "\<exists>es. v = strings_json es \<and> (\<forall>s \<in> set es. effect_name s)"
proof -
  from assms obtain es where es: "effects_of (print_json False v) = Some es" "es \<noteq> []"
    "\<forall>s \<in> set es. effect_name s"
    by (auto simp: effects_valid_def unique_scan_start split: if_split_asm option.splits)
  then have v: "fits (GSlice GString) v" "es = map str_of (elements v)"
    using assms(2) by (auto simp: effects_of_def parse_print split: if_split_asm)
  have "\<forall>s \<in> set es. s \<noteq> []" using es(3) by (auto simp: effect_name_def matches_class_def)
  then have "v = strings_json es" using string_list [OF v(1)] v(2) es(2) by simp
  then show ?thesis using es(3) by blast
qed

lemma decode_contract_printable: "decode_contract t d = Some j \<Longrightarrow> printable j"
  by (auto simp: decode_contract_def decode_strict_iff split: if_split_asm option.splits sum.splits
      dest: parse_json_printable)

lemma decoded_config:
  assumes "decode_config po d = Some c"
  shows "(\<forall>x \<in> set (cf_calls c). canonical_effects x) \<and> generation_natural c \<and> printable (config_tree c)"
proof -
  from assms obtain j where j: "decode_contract (GStruct config_fields) d = Some j" "c = config_of_json j"
    "validate_config po c"
    by (auto simp: decode_config_def Let_def split: option.splits if_split_asm)
  note p = decode_contract_printable [OF j(1)]
  have call: "canonical_effects x \<and> printable (call_tree x)" if "x \<in> set (cf_calls c)" for x
  proof -
    from that obtain i where i: "x = call_of_json i" "printable i"
      using p by (auto simp: j(2) config_of_json_def Let_def intro: printable_reads)
    let ?v = "field_value call_fields ''effects'' i"
    have raw: "bl_effects x = Some (print_json False ?v)" by (simp add: i(1) call_of_json_def Let_def)
    have "validate_call po x" using validated_calls [OF j(3)] that by simp
    then have "effects_valid (bl_effects x)" by (simp add: validate_call_def split: if_split_asm)
    then have "effects_valid (Some (print_json False ?v))" by (simp only: raw)
    from decoded_effects [OF this] i(2) obtain es where es: "?v = strings_json es" "\<forall>s \<in> set es. effect_name s"
      by (auto simp: printable_field)
    then have "canonical_effects x" using raw by (auto simp: canonical_effects_def)
    moreover have "effects_tree x = ?v" using effects_tree_strings [OF es(2), of x] raw es(1) by simp
    then have "printable (call_tree x)"
      using printable_call [OF i(2), of ?v] i by (simp add: call_tree_def printable_field)
    ultimately show ?thesis by simp
  qed
  moreover have "generation_natural c"
    by (simp add: generation_natural_def j(2) config_of_json_def session_of_json_def Let_def uint_natural)
  moreover have "printable (config_tree c)"
    unfolding config_tree_def using printable_config [OF p, of "map call_tree (cf_calls c)"] call
    by (simp add: j(2))
  ultimately show ?thesis by blast
qed

text \<open>
  C18. The digest of a configuration determines it. Two configurations read from documents
  whose canonical digests agree are equal in every field, unless two different texts with one
  SHA-256 value are at hand.
\<close>

theorem config_digest_binds:
  assumes "decode_config po a = Some c" "decode_config po' b = Some d"
    and "canonical_config_digest c = Some x" "canonical_config_digest d = Some x"
  shows "c = d \<or> (\<exists>s t. s \<noteq> t \<and> sha256 s = sha256 t)"
proof -
  have dig: "canonical_digest (config_tree k) = Some x"
    if "decode_config q z = Some k" "canonical_config_digest k = Some x" for q z k
    using that decoded_config [OF that(1)] marshal_config [of k]
    by (auto simp: canonical_config_digest_def canonical_digest_def split: if_split_asm)
  note c = decoded_config [OF assms(1)] and d = decoded_config [OF assms(2)]
  show ?thesis
    using canonical_digest_binds [OF dig [OF assms(1,3)] dig [OF assms(2,4)]] c d
      config_tree_inj [of c d] by blast
qed


text \<open>A document that the sample configuration is read from.\<close>

definition sample_tree :: json where
  "sample_tree =
     config_members
       [call_members (strings_json [''read'']) sample_login,
        call_members (strings_json [''read'']) sample_order] sample_config"

lemma sample_config_tree: "config_tree sample_config = sample_tree"
proof -
  have "effects_tree sample_login = strings_json [''read'']" by code_simp
  moreover have "effects_tree sample_order = effects_tree sample_login"
    by (simp add: effects_tree_def sample_login_def sample_order_def)
  moreover have "cf_calls sample_config = [sample_login, sample_order]" by (simp add: sample_config_def)
  ultimately show ?thesis by (simp add: config_tree_def sample_tree_def call_tree_def)
qed

lemmas sample_tree_defs =
  sample_tree_def config_members_def call_members_def sample_config_def sample_login_def sample_order_def
  sample_session_def omit_str_def selector_json_def slot_json_def revision_json_def worker_json_def
  session_json_def opt_array_def strings_json_def

lemma sample_tree_printable: "printable sample_tree"
  by code_simp

lemma sample_tree_bound: "print_bound sample_tree \<le> 65536"
  by (simp add: sample_tree_defs config_version_def decimal.simps [of 7])

lemma sample_tree_length:
  "int (length (print_json html sample_tree)) \<le> contract_max_bytes"
  "int (length (print_json html (sort_json sample_tree))) \<le> contract_max_bytes"
  using length_print [of html sample_tree] length_print [of html "sort_json sample_tree"] sample_tree_bound
  by (simp_all add: contract_max_bytes_def)

lemma strings_neat: "neat (GSlice GString) (JArr (map JStr xs))"
  by auto

lemma slot_neat: "neat (GStruct slot_fields) (slot_json s)"
  unfolding slot_json_def by (rule neat_struct) (auto simp: slot_fields_def)

lemma revision_neat: "neat (GStruct revision_fields) (revision_json r)"
  unfolding revision_json_def by (rule neat_struct) (auto simp: revision_fields_def)

lemma selector_neat: "neat (GStruct selector_fields) (selector_json s)"
  unfolding selector_json_def by (rule neat_struct) (auto simp: selector_fields_def)

lemma worker_neat: "neat (GStruct worker_fields) (worker_json w)"
  unfolding worker_json_def by (rule neat_struct) (auto simp: worker_fields_def)

lemma call_neat:
  assumes "neat GRaw effects" "bl_slots c \<noteq> None"
  shows "neat (GStruct call_fields) (call_members effects c)"
  unfolding call_members_def
  by (rule neat_struct) (use assms in \<open>auto simp: call_fields_def omit_str_def opt_array_def strings_neat slot_neat selector_neat\<close>)

lemma sample_session_neat: "neat (GStruct session_fields) (session_json sample_session)"
proof -
  have "neat GUint (JNum (decimal 7))" by code_simp
  then show ?thesis
    unfolding session_json_def
    by (intro neat_struct) (auto simp: session_fields_def sample_session_def)
qed

lemma sample_tree_neat: "neat (GStruct config_fields) sample_tree"
proof -
  have "neat GRaw (strings_json [''read''])" by code_simp
  then have "neat (GStruct call_fields) (call_members (strings_json [''read'']) sample_login)"
    "neat (GStruct call_fields) (call_members (strings_json [''read'']) sample_order)"
    by (simp_all add: call_neat sample_login_def sample_order_def)
  then show ?thesis
    unfolding sample_tree_def config_members_def
    by (intro neat_struct)
      (auto simp: config_fields_def opt_array_def sample_session_neat sample_config_def strings_neat revision_neat
        worker_neat)
qed

lemma sample_tree_counts: "node_count sample_tree = 87" "depth_of sample_tree = 5"
  by (simp_all add: sample_tree_defs)

lemma sample_tree_limits:
  "unambiguous GAny sample_tree" "depth_of sample_tree \<le> max_depth" "node_count sample_tree \<le> max_nodes"
  using unambiguous_any [OF neat_facts(2) [OF sample_tree_neat]]
  by (simp_all add: sample_tree_counts max_depth_def max_nodes_def)

lemma sample_tree_canonical:
  "canonical_json (marshal sample_tree) = Some (print_json False (sort_json sample_tree))"
  unfolding marshal_def
  by (rule canonical_json_print [OF sample_tree_printable sample_tree_limits])
    (use sample_tree_length [of True] in \<open>simp add: contract_max_bytes_def\<close>)

lemmas sample_tree_shape =
  fits_sorted [OF neat_facts(1) [OF sample_tree_neat]]
  unambiguous_sorted [OF neat_facts(2) [OF sample_tree_neat]]
  closed_sorted [OF neat_facts(3) [OF sample_tree_neat] sample_tree_limits(1)]


lemma omit_lookup: "map_of (omit_str k v) n = (if n = k \<and> v \<noteq> [] then Some (JStr v) else None)"
  by (simp add: omit_str_def)

lemma strings_read: "strings_of (sort_json (JArr (map JStr xs))) = xs"
  by (simp add: strings_of_def elements_def str_of_def comp_def)

lemma slot_read: "slot_of_json (sort_json (slot_json s)) = s"
  by (simp add: slot_of_json_def slot_json_def field_value_sorted slot_fields_def str_of_def del: sort_json.simps(2))

lemma revision_read: "revision_of_json (sort_json (revision_json r)) = r"
  by (simp add: revision_of_json_def revision_json_def field_value_sorted revision_fields_def str_of_def del: sort_json.simps(2))

lemma selector_read: "selector_of_json (sort_json (selector_json s)) = s"
  by (simp add: selector_of_json_def selector_json_def field_value_sorted selector_fields_def str_of_def del: sort_json.simps(2))

lemma worker_read: "worker_of_json (sort_json (worker_json w)) = w"
  by (simp add: worker_of_json_def Let_def worker_json_def field_value_sorted worker_fields_def str_of_def del: sort_json.simps(2))

lemma call_value:
  "field_value call_fields k (sort_json (call_members e c))
     = (case map_of (members (call_members e c)) k of None \<Rightarrow> JNull | Some v \<Rightarrow> sort_json v)"
  unfolding call_members_def members_def json.case
  by (rule field_value_sorted) (auto simp: omit_str_def call_fields_def)

lemma call_map:
  "map_of (members (call_members e c)) ''step_id'' = Some (JStr (bl_step_id c))"
  "map_of (members (call_members e c)) ''operation_id'' = Some (JStr (bl_operation_id c))"
  "map_of (members (call_members e c)) ''invocation_id'' = Some (JStr (bl_invocation_id c))"
  "map_of (members (call_members e c)) ''kind'' = Some (JStr (bl_kind c))"
  "map_of (members (call_members e c)) ''source_id'' = Some (JStr (bl_source_id c))"
  "map_of (members (call_members e c)) ''source_sha256'' = Some (JStr (bl_source_sha256 c))"
  "map_of (members (call_members e c)) ''profile_version'' = Some (JStr (bl_profile c))"
  "map_of (members (call_members e c)) ''selected_sha256'' = Some (JStr (bl_selected_sha256 c))"
  "map_of (members (call_members e c)) ''outer_protocol'' = Some (JStr (bl_outer c))"
  "map_of (members (call_members e c)) ''inner_protocol'' = (if bl_inner c = [] then None else Some (JStr (bl_inner c)))"
  "map_of (members (call_members e c)) ''confirmation_policy_sha256'' = (if bl_confirmation c = [] then None else Some (JStr (bl_confirmation c)))"
  "map_of (members (call_members e c)) ''authentication_source_id'' = (if bl_auth_source c = [] then None else Some (JStr (bl_auth_source c)))"
  "map_of (members (call_members e c)) ''session_name'' = (if bl_session c = [] then None else Some (JStr (bl_session c)))"
  "map_of (members (call_members e c)) ''registration_input_binding'' = (if bl_registration_input c = [] then None else Some (JStr (bl_registration_input c)))"
  "map_of (members (call_members e c)) ''selector'' = Some (selector_json (bl_selector c))"
  "map_of (members (call_members e c)) ''origins'' = Some (JArr (map JStr (bl_origins c)))"
  "map_of (members (call_members e c)) ''effects'' = Some e"
  "map_of (members (call_members e c)) ''credential_slots'' = Some (opt_array slot_json (bl_slots c))"
  "map_of (members (call_members e c)) ''reuse_allowed'' = Some (JBool (bl_reuse c))"
  "map_of (members (call_members e c)) ''save_allowed'' = Some (JBool (bl_save c))"
  by (simp_all add: call_members_def members_def map_add_def omit_lookup)

lemma call_read:
  assumes "bl_slots c = Some bs"
  shows "call_of_json (sort_json (call_members e c)) = c\<lparr>bl_effects := Some (print_json False (sort_json e))\<rparr>"
proof -
  have slots: "elements (sort_json (opt_array slot_json (bl_slots c))) = map (\<lambda>b. sort_json (slot_json b)) bs"
    by (simp add: assms opt_array_def elements_def)
  have str: "str_of (case (if x = [] then None else Some (JStr x)) of None \<Rightarrow> JNull | Some v \<Rightarrow> sort_json v) = x" for x
    by (simp add: str_of_def)
  have one: "str_of (sort_json (JStr x)) = x" "bool_of (sort_json (JBool b)) = b" for x b
    by (simp_all add: str_of_def bool_of_def)
  have bs: "map slot_of_json (map (\<lambda>b. sort_json (slot_json b)) bs) = bs"
    by (simp add: comp_def slot_read)
  show ?thesis
    unfolding call_of_json_def Let_def call_value call_map option.case slots str one bs selector_read strings_read
    by (simp add: assms)
qed

lemma config_value:
  "field_value config_fields k (sort_json (config_members ts c))
     = (case map_of (members (config_members ts c)) k of None \<Rightarrow> JNull | Some v \<Rightarrow> sort_json v)"
  unfolding config_members_def members_def json.case
  by (rule field_value_sorted) (auto simp: config_fields_def split: option.splits)

lemma config_map:
  "map_of (members (config_members ts c)) ''version'' = Some (JStr (cf_version c))"
  "map_of (members (config_members ts c)) ''owner_id'' = Some (JStr (cf_owner c))"
  "map_of (members (config_members ts c)) ''agent_id'' = Some (JStr (cf_agent c))"
  "map_of (members (config_members ts c)) ''run_id'' = Some (JStr (cf_run_id c))"
  "map_of (members (config_members ts c)) ''package_sha256'' = Some (JStr (cf_package c))"
  "map_of (members (config_members ts c)) ''handoff_sha256'' = Some (JStr (cf_handoff c))"
  "map_of (members (config_members ts c)) ''inputs_sha256'' = Some (JStr (cf_inputs c))"
  "map_of (members (config_members ts c)) ''approval_sha256'' = Some (JStr (cf_approval c))"
  "map_of (members (config_members ts c)) ''plan_sha256'' = Some (JStr (cf_plan c))"
  "map_of (members (config_members ts c)) ''workflow_sha256'' = Some (JStr (cf_workflow c))"
  "map_of (members (config_members ts c)) ''supplement_sha256'' = Some (JStr (cf_supplement c))"
  "map_of (members (config_members ts c)) ''driver_closure_sha256'' = Some (JStr (cf_driver c))"
  "map_of (members (config_members ts c)) ''launch_nonce'' = Some (JStr (cf_nonce c))"
  "map_of (members (config_members ts c)) ''containment_lease_id'' = Some (JStr (cf_containment c))"
  "map_of (members (config_members ts c)) ''admitted_deadline'' = Some (JStr (cf_deadline c))"
  "map_of (members (config_members ts c)) ''worker'' = Some (worker_json (cf_worker c))"
  "map_of (members (config_members ts c)) ''origins'' = Some (JArr (map JStr (cf_origins c)))"
  "map_of (members (config_members ts c)) ''approved_calls'' = Some (JArr ts)"
  "map_of (members (config_members ts c)) ''credential_revisions'' = Some (opt_array revision_json (cf_revisions c))"
  "map_of (members (config_members ts c)) ''session'' = map_option session_json (cf_session c)"
  "map_of (members (config_members ts c)) ''host_fact_refs'' = Some (JArr (map JStr (cf_fact_refs c)))"
  by (cases "cf_session c"; simp add: config_members_def members_def map_add_def)+

lemma session_read:
  assumes "uint_of_json (JNum (decimal (ss_generation s))) = ss_generation s"
  shows "session_of_json (sort_json (session_json s)) = s"
  using assms
  by (simp add: session_of_json_def Let_def session_json_def field_value_sorted session_fields_def str_of_def
      bool_of_def del: sort_json.simps(2))

lemma config_read:
  assumes "cf_revisions c = Some rs" "map (\<lambda>t. call_of_json (sort_json t)) ts = cf_calls c"
    and "\<And>s. cf_session c = Some s \<Longrightarrow> session_of_json (sort_json (session_json s)) = s"
  shows "config_of_json (sort_json (config_members ts c)) = c"
proof -
  have revisions: "elements (sort_json (opt_array revision_json (cf_revisions c)))
      = map (\<lambda>r. sort_json (revision_json r)) rs"
    by (simp add: assms(1) opt_array_def elements_def)
  have calls: "map call_of_json (elements (sort_json (JArr ts))) = cf_calls c"
    by (simp add: elements_def comp_def assms(2))
  have one: "str_of (sort_json (JStr x)) = x" for x
    by (simp add: str_of_def)
  have rs: "map revision_of_json (map (\<lambda>r. sort_json (revision_json r)) rs) = rs"
    by (simp add: comp_def revision_read)
  have session: "(if (case map_option session_json (cf_session c) of None \<Rightarrow> JNull | Some v \<Rightarrow> sort_json v) = JNull
        then None else Some (session_of_json
          (case map_option session_json (cf_session c) of None \<Rightarrow> JNull | Some v \<Rightarrow> sort_json v))) = cf_session c"
    using assms(3) by (cases "cf_session c") (simp_all add: session_json_def)
  show ?thesis
    unfolding config_of_json_def Let_def config_value config_map option.case session revisions calls one rs
      worker_read strings_read
    by (simp add: assms(1))
qed

lemma sample_tree_config: "config_of_json (sort_json sample_tree) = sample_config"
  unfolding sample_tree_def
proof (rule config_read)
  have "print_json False (sort_json (strings_json [''read''])) = sample_effects" by code_simp
  then show "map (\<lambda>t. call_of_json (sort_json t))
      [call_members (strings_json [''read'']) sample_login, call_members (strings_json [''read'']) sample_order]
      = cf_calls sample_config"
    using call_read [of sample_login] call_read [of sample_order]
    by (simp add: sample_config_def) (simp add: sample_login_def sample_order_def)
  have seven: "uint_of_json (JNum (decimal 7)) = 7" by code_simp
  show "session_of_json (sort_json (session_json s)) = s" if "cf_session sample_config = Some s" for s
    by (rule session_read) (use that seven in \<open>auto simp: sample_config_def sample_session_def\<close>)
qed (simp add: sample_config_def)

lemma sample_config_decoded: "decode_config sample_origins (marshal sample_tree) = Some sample_config"
proof -
  have short: "int (length (print_json False (sort_json sample_tree))) \<le> 8388608"
    using sample_tree_length(2) [of False] by (simp add: contract_max_bytes_def)
  have "decode_strict (GStruct config_fields) (print_json False (sort_json sample_tree))
      = Inr (sort_json sample_tree)"
    unfolding decode_strict_iff using sample_tree_shape sample_tree_limits short
    by (simp add: parse_print sample_tree_printable max_bytes_def)
  then show ?thesis
    using sample_tree_canonical sample_tree_shape(3) sample_tree_length [of True] sample_config_valid
    by (simp add: decode_config_def decode_contract_def sample_tree_config marshal_def)
qed

lemma sample_config_digest: "\<exists>x. canonical_config_digest sample_config = Some x"
proof -
  have "calls_encodable (cf_calls sample_config)" by code_simp
  moreover have "\<forall>x \<in> set (cf_calls sample_config). canonical_effects x"
    using decoded_config [OF sample_config_decoded] by simp
  then have "marshal (config_json sample_config) = marshal sample_tree"
    by (simp add: marshal_config sample_config_tree)
  ultimately show ?thesis
    by (simp add: canonical_config_digest_def canonical_digest_def sample_tree_canonical)
qed

theorem config_digest_binds_witness:
  "\<exists>c. decode_config sample_origins (marshal sample_tree) = Some c
     \<and> (c = sample_config \<or> (\<exists>s t. s \<noteq> t \<and> sha256 s = sha256 t))"
proof -
  obtain x where "canonical_config_digest sample_config = Some x" using sample_config_digest by blast
  from config_digest_binds [OF sample_config_decoded sample_config_decoded this this]
  show ?thesis using sample_config_decoded by blast
qed

end
