(* ===== verification/Browser_Sample.thy ===== *)
theory Browser_Sample
  imports Browser_Evidence Contract_Digest
begin

text \<open>
  Two runs over the sample configuration that are observed: one that logs in, acts and saves
  its session, and one that was refused before any message and is proved not to have sent one.
  They show that the hypotheses about accepted runs can hold.
\<close>

subsection \<open>A run\<close>

text \<open>JSON text with the quotes written as back quotes.\<close>

definition quotes :: "bytes \<Rightarrow> bytes" where
  "quotes s = map (\<lambda>c. if c = CHR 0x60 then CHR 0x22 else c) s"

definition sample_step :: "browser_call \<Rightarrow> step_v5" where
  "sample_step c =
     \<lparr>step_id = bl_step_id c, operation_id = bl_operation_id c, invocation_id = bl_invocation_id c,
      outcome = ''not_started'', step_started = [], step_finished = [], step_error = []\<rparr>"

definition run_inventory :: inventory_v5 where
  "run_inventory =
     \<lparr>inv_run_id = ''run-1'', inv_workflow_id = ''orders'',
      inv_workflow_digest = ''sha256:'' @ replicate 64 CHR ''f'',
      inv_steps = map sample_step [sample_login, sample_order]\<rparr>"

definition run_report :: "bytes \<Rightarrow> bytes \<Rightarrow> bytes" where
  "run_report status rest =
     quotes (''{`version`:`udon.execution-report.v5`,`run_id`:`run-1`,`workflow_id`:`orders`,`workflow_digest`:`sha256:''
       @ replicate 64 CHR ''f'' @ ''`,`inventory_complete`:true,`status`:`'' @ status
       @ ''`,`started_at`:`2026-01-01T00:10:00Z`,`finished_at`:`2026-01-01T00:20:00Z`,'' @ rest)"

definition done_report :: bytes where
  "done_report =
     run_report ''success''
       (''`steps`:[{`step_id`:`login`,`operation_id`:`shop.login`,`invocation_id`:`login`,`outcome`:`succeeded`,''
        @ ''`started_at`:`2026-01-01T00:11:00Z`,`finished_at`:`2026-01-01T00:12:00Z`},''
        @ ''{`step_id`:`order`,`operation_id`:`shop.order`,`invocation_id`:`order`,`outcome`:`succeeded`,''
        @ ''`started_at`:`2026-01-01T00:13:00Z`,`finished_at`:`2026-01-01T00:14:00Z`}]}'')"

definition unsent_report :: bytes where
  "unsent_report =
     run_report ''error''
       (''`error_code`:`cancelled`,`steps`:[''
        @ ''{`step_id`:`login`,`operation_id`:`shop.login`,`invocation_id`:`login`,`outcome`:`not_started`},''
        @ ''{`step_id`:`order`,`operation_id`:`shop.order`,`invocation_id`:`order`,`outcome`:`not_started`}]}'')"

definition sample_event :: "browser_call \<Rightarrow> bytes \<Rightarrow> bytes \<Rightarrow> nat \<Rightarrow> bytes \<Rightarrow> bytes \<Rightarrow> trace_event" where
  "sample_event c ev out n kind request =
     \<lparr>te_event = ev, te_outcome = out, te_run_id = ''run-1'', te_plan = replicate 64 CHR ''e'',
      te_launch = ''launch-1'', te_containment = ''lease-c'', te_access = ''access-1'',
      te_step = bl_step_id c, te_operation = bl_operation_id c, te_invocation = bl_invocation_id c,
      te_request = request, te_ordinal = n, te_kind = kind, te_outer = bl_outer c, te_question = None\<rparr>"

definition note_event :: "browser_call \<Rightarrow> bytes \<Rightarrow> bytes \<Rightarrow> trace_event" where
  "note_event c ev out = sample_event c ev out 0 [] []"

definition done_trace :: "trace_event list" where
  "done_trace =
     [note_event sample_login ''credential_lease'' ''whole-plan-private'',
      note_event sample_login ''session_acquire'' ''fresh'',
      note_event sample_login ''launch'' ''contained'',
      sample_event sample_login ''claim_dispatch'' ''authentication'' 1 ''authenticate'' ''request-1'',
      sample_event sample_login ''send'' ''authentication'' 1 ''authenticate'' ''request-1'',
      sample_event sample_login ''response'' ''success'' 1 ''authenticate'' ''request-1'',
      note_event sample_login ''candidate'' ''staged-before-close'',
      sample_event sample_order ''claim_dispatch'' ''action'' 2 ''action'' ''request-2'',
      sample_event sample_order ''send'' ''action'' 2 ''action'' ''request-2'',
      sample_event sample_order ''response'' ''success'' 2 ''action'' ''request-2'',
      note_event sample_login ''join'' ''proved'',
      note_event sample_login ''generation_recheck'' ''current-7'',
      note_event sample_login ''session_save'' ''encrypted-accepted'',
      note_event sample_login ''session_release'' ''proved'']"

definition unsent_trace :: "trace_event list" where
  "unsent_trace =
     [note_event sample_login ''credential_lease'' ''whole-plan-private'',
      note_event sample_login ''session_acquire'' ''fresh'',
      note_event sample_login ''launch'' ''contained'',
      note_event sample_login ''claim_dispatch'' ''refused'',
      note_event sample_login ''join'' ''proved'',
      note_event sample_login ''non_dispatch'' ''complete'',
      note_event sample_login ''session_release'' ''proved'']"

definition sample_launch :: launch_witness where
  "sample_launch =
     \<lparr>lw_lease = ''launch-1'', lw_nonce = ''nonce'', lw_worker = cf_worker sample_config,
      lw_driver = replicate 64 CHR ''9'', lw_containment = ''lease-c'', lw_all_traffic = True,
      lw_sandbox = True, lw_origins = [''https://shop.example'']\<rparr>"

definition sample_join :: join_witness where
  "sample_join =
     \<lparr>jw_launch = ''launch-1'', jw_containment = ''lease-c'', jw_access = ''access-1'',
      jw_transport = True, jw_driver = True, jw_chromium = True, jw_callbacks = True\<rparr>"

definition sample_binding :: binding_witness where
  "sample_binding =
     \<lparr>bw_owner = ''owner'', bw_agent = ''agent'', bw_name = ''shop'',
      bw_binding = replicate 64 CHR ''5'', bw_profile = replicate 64 CHR ''3'',
      bw_authentication = replicate 64 CHR ''1'',
      bw_revisions = Some [\<lparr>cr_name = ''shop_password'', cr_revision = ''r1''\<rparr>],
      bw_origins = [''https://shop.example''], bw_generation = 7,
      bw_created = ''2026-01-01T00:00:00Z'', bw_expires = ''2026-01-11T00:00:00Z''\<rparr>"

definition sample_access :: access_witness where
  "sample_access =
     \<lparr>aw_lease = ''access-1'', aw_outcome = ''fresh'', aw_session = sample_session,
      aw_binding = sample_binding\<rparr>"

definition sample_host :: "trace_event list \<Rightarrow> non_dispatch_witness option \<Rightarrow> host_witnesses" where
  "sample_host trace proof =
     \<lparr>hw_lease =
        Some \<lparr>cw_slots = [\<lparr>sb_slot = ''password'', sb_name = ''shop_password''\<rparr>],
              cw_revisions = cf_revisions sample_config\<rparr>,
      hw_access = Some sample_access, hw_expected = None, hw_config = sample_config,
      hw_inventory = run_inventory, hw_fact_refs = [''fact-1''], hw_launch = sample_launch,
      hw_join = sample_join, hw_trace = trace, hw_non_dispatch = proof,
      hw_save =
        Some \<lparr>sw_permission = ''permit-1'', sw_session = ''shop'', sw_binding = replicate 64 CHR ''5'',
              sw_generation = 7, sw_operation = ''shop.login'', sw_one_use = True, sw_save = True\<rparr>,
      hw_bindings = 1\<rparr>"

definition done_host :: host_witnesses where
  "done_host = sample_host done_trace None"

definition unsent_host :: host_witnesses where
  "unsent_host =
     sample_host unsent_trace
       (Some \<lparr>nw_run_id = ''run-1'', nw_plan = replicate 64 CHR ''e'', nw_calls = cf_calls sample_config,
              nw_all_covered = True, nw_none_sent = True, nw_joined = sample_join\<rparr>)"

lemma same_digest_refl: "same_digest d d \<longleftrightarrow> d \<noteq> None"
  by (cases d) (simp_all add: same_digest_def)

lemma canonical_digest_Some: "canonical_digest j \<noteq> None \<longleftrightarrow> canonical_json (marshal j) \<noteq> None"
  by (simp add: canonical_digest_def)
lemma sample_session_canonical: "canonical_digest (session_json sample_session) \<noteq> None"
proof -
  have "printable (session_json sample_session)" "unambiguous GAny (session_json sample_session)"
    "depth_of (session_json sample_session) \<le> max_depth" "node_count (session_json sample_session) \<le> max_nodes"
    by code_simp+
  moreover have "print_bound (session_json sample_session) \<le> 65536"
    by (simp add: session_json_def sample_session_def decimal.simps [of 7])
  ultimately show ?thesis
    using length_print [of True "session_json sample_session"]
    unfolding canonical_digest_Some marshal_def
    by (subst canonical_json_print) simp_all
qed

definition done_observation :: observation_v5 where
  "done_observation =
     \<lparr>obs_report_version = version_v5, obs_run_id = ''run-1'', obs_workflow_id = ''orders'',
      obs_workflow_digest = ''sha256:'' @ replicate 64 CHR ''f'', obs_state = ''validated'',
      obs_inventory_complete = True, obs_report_status = ''success'',
      obs_started_at = ''2026-01-01T00:10:00Z'', obs_finished_at = ''2026-01-01T00:20:00Z'',
      obs_error_code = [],
      obs_steps =
        [(sample_step sample_login)\<lparr>outcome := ''succeeded'', step_started := ''2026-01-01T00:11:00Z'',
            step_finished := ''2026-01-01T00:12:00Z''\<rparr>,
         (sample_step sample_order)\<lparr>outcome := ''succeeded'', step_started := ''2026-01-01T00:13:00Z'',
            step_finished := ''2026-01-01T00:14:00Z''\<rparr>]\<rparr>"

definition unsent_observation :: observation_v5 where
  "unsent_observation =
     \<lparr>obs_report_version = version_v5, obs_run_id = ''run-1'', obs_workflow_id = ''orders'',
      obs_workflow_digest = ''sha256:'' @ replicate 64 CHR ''f'', obs_state = ''validated'',
      obs_inventory_complete = True, obs_report_status = ''error'',
      obs_started_at = ''2026-01-01T00:10:00Z'', obs_finished_at = ''2026-01-01T00:20:00Z'',
      obs_error_code = ''cancelled'', obs_steps = map sample_step [sample_login, sample_order]\<rparr>"

lemma run_inventory_valid: "validate_inventory_v5 run_inventory = Inr ()"
  by code_simp

lemma done_observed: "observe_v5 run_inventory done_report = done_observation"
  by code_simp

lemma unsent_observed: "observe_v5 run_inventory unsent_report = unsent_observation"
  by code_simp

lemma done_run:
  "case run_trace sample_config done_host done_trace (start_state sample_config 2) of
     None \<Rightarrow> False
   | Some st \<Rightarrow>
       trace_closed st \<and> outcomes_reported sample_config st done_observation \<and> ts_any_sent st"
  by code_simp

lemma sample_access_binding: "expected_session_binding sample_config None = Some sample_binding"
  by code_simp


lemmas sample_host_defs = sample_host_def sample_access_def sample_launch_def sample_join_def

lemma sample_inputs_agree:
  "trace \<noteq> [] \<Longrightarrow> length trace \<le> 4096 \<Longrightarrow>
     inputs_agree sample_origins sample_config run_inventory (sample_host trace proof)"
  using sample_config_digest
  by (auto simp: inputs_agree_def sample_host_defs same_digest_refl sample_config_valid run_inventory_valid)
    (auto simp: sample_config_def)

lemma sample_inventory_matches:
  "inventory_matches sample_config run_inventory"
  "same_call_identities (inv_steps run_inventory) (cf_calls sample_config)"
  by code_simp+

lemma sample_launch_matches: "launch_matches sample_config (sample_host trace proof)"
proof -
  have "contract_identifier ''launch-1''" "contract_identifier ''access-1''" by code_simp+
  then show ?thesis
    by (simp add: launch_matches_def joined_def sample_host_defs sample_config_def)
qed

lemma sample_access_matches: "access_matches sample_config (sample_host trace proof)"
proof -
  have "contract_identifier ''access-1''" by code_simp
  moreover have "cf_session sample_config = Some sample_session" by (simp add: sample_config_def)
  moreover have "sample_session\<lparr>ss_reuse := ss_reuse sample_session, ss_save := ss_save sample_session\<rparr>
      = sample_session" by simp
  ultimately show ?thesis
    using sample_session_canonical sample_access_binding
    by (simp add: access_matches_def session_access_matches_def sample_host_defs same_digest_refl Let_def)
qed

lemma sample_deadline: "instant_or_zero (cf_deadline sample_config) = 63902829600000000000"
  by code_simp

lemma sample_start: "parse_instant ''2026-01-01T00:10:00Z'' = Some 63902823000000000000"
  by code_simp

lemma sample_reuse: "reuse_in_time sample_config (sample_host trace proof) ob start"
  by (simp add: reuse_in_time_def sample_host_defs)

text \<open>Which runs over the sample configuration are observed.\<close>

lemma sample_observed:
  assumes ob: "observe_v5 run_inventory report = ob" "obs_state ob = ''validated''"
    "obs_started_at ob = ''2026-01-01T00:10:00Z''" "steps_before_deadline 63902829600000000000 ob"
    and trace: "trace \<noteq> []" "length trace \<le> 4096"
    and run: "run_trace sample_config (sample_host trace proof) trace (start_state sample_config 2) = Some st"
    "trace_closed st" "outcomes_reported sample_config st ob" "proof = None \<or> ts_non_dispatch st"
  shows "observe_browser_report sample_origins sample_config run_inventory report (sample_host trace proof)
    = Inr \<lparr>rs_observation = ob, rs_successor = (ts_non_dispatch st \<and> \<not> ts_any_sent st)\<rparr>"
proof -
  have "length (inv_steps run_inventory) = 2" by (simp add: run_inventory_def)
  moreover have "hw_trace (sample_host trace proof) = trace" "hw_non_dispatch (sample_host trace proof) = proof"
    by (simp_all add: sample_host_def)
  ultimately show ?thesis
    using assms sample_inputs_agree [OF trace] sample_inventory_matches sample_launch_matches
      sample_access_matches sample_reuse
    by (simp add: observe_browser_report_def observed_run_of_def sample_deadline sample_start)
qed

lemma observation_times:
  "steps_before_deadline 63902829600000000000 done_observation"
  "steps_before_deadline 63902829600000000000 unsent_observation"
  by code_simp+

lemma done_accepted:
  "observe_browser_report sample_origins sample_config run_inventory done_report done_host
     = Inr \<lparr>rs_observation = done_observation, rs_successor = False\<rparr>"
proof -
  obtain st where st: "run_trace sample_config done_host done_trace (start_state sample_config 2) = Some st"
    "trace_closed st" "outcomes_reported sample_config st done_observation" "ts_any_sent st"
    using done_run by (auto split: option.splits)
  moreover have "done_trace \<noteq> []" "length done_trace \<le> 4096" by (simp_all add: done_trace_def)
  moreover have "obs_state done_observation = ''validated''"
    "obs_started_at done_observation = ''2026-01-01T00:10:00Z''" by (simp_all add: done_observation_def)
  ultimately show ?thesis
    using sample_observed [OF done_observed, of done_trace None st] observation_times
    by (simp add: done_host_def)
qed

text \<open>The run without a message, up to the host's proof that nothing was sent.\<close>

definition unsent_state :: trace_state where
  "unsent_state =
     (start_state sample_config 2)
       \<lparr>ts_leased := True, ts_acquired := ''fresh'', ts_launched := True, ts_stopped := True, ts_joined := True\<rparr>"

lemma unsent_prefix:
  "run_trace sample_config unsent_host (take 5 unsent_trace) (start_state sample_config 2) = Some unsent_state"
  by code_simp


lemma marshal_calls:
  "\<forall>x \<in> set xs. canonical_effects x \<Longrightarrow> marshal (JArr (map call_json xs)) = marshal (JArr (map call_tree xs))"
proof -
  assume "\<forall>x \<in> set xs. canonical_effects x"
  then have "map (print_json True \<circ> call_json) xs = map (print_json True \<circ> call_tree) xs"
    by (auto simp: call_json_def call_tree_def intro!: print_members print_raw_effects)
  then show ?thesis unfolding marshal_def print_json.simps map_map by (simp only:)
qed

lemma sample_calls_digest: "canonical_calls_digest (cf_calls sample_config) \<noteq> None"
proof -
  let ?t = "JArr (map call_tree (cf_calls sample_config))"
  have calls: "cf_calls sample_config = [sample_login, sample_order]" by (simp add: sample_config_def)
  have "effects_tree sample_login = strings_json [''read'']" by code_simp
  moreover have "effects_tree sample_order = effects_tree sample_login"
    by (simp add: effects_tree_def sample_login_def sample_order_def)
  ultimately have t: "?t = JArr [call_members (strings_json [''read'']) sample_login,
      call_members (strings_json [''read'']) sample_order]"
    by (simp add: calls call_tree_def)
  have member: "(''approved_calls'', ?t) \<in> set (members sample_tree)"
    unfolding t by (simp add: sample_tree_def config_members_def members_def)
  have tree: "sample_tree = JObj (members sample_tree)"
    by (simp add: sample_tree_def config_members_def members_def)
  have "printable ?t" using sample_tree_printable member by (subst (asm) tree) auto
  moreover have "unambiguous GAny ?t" using sample_tree_limits(1) member by (subst (asm) tree) auto
  moreover have "depth_of (snd (''approved_calls'', ?t)) \<le> max_depth - 1"
    using sample_tree_limits(2) [unfolded tree [symmetric]] member
    unfolding depth_of_le_iff(2) [of "members sample_tree", unfolded tree [symmetric]] by blast
  moreover from this have "depth_of ?t \<le> max_depth" by simp
  moreover have "node_count ?t \<le> max_nodes" unfolding t by (simp add: sample_tree_defs max_nodes_def)
  ultimately have limits:
    "printable ?t" "unambiguous GAny ?t" "depth_of ?t \<le> max_depth" "node_count ?t \<le> max_nodes"
    by blast+
  have "print_bound ?t \<le> 65536" unfolding t by (simp add: sample_tree_defs)
  then have "canonical_json (print_json True ?t) \<noteq> None"
    using length_print [of True ?t] by (subst canonical_json_print [OF limits]) simp_all
  moreover have "marshal (JArr (map call_json (cf_calls sample_config))) = marshal ?t"
    by (rule marshal_calls) (use decoded_config [OF sample_config_decoded] in simp)
  moreover have "calls_encodable (cf_calls sample_config)" by code_simp
  ultimately show ?thesis by (simp add: canonical_calls_digest_def canonical_digest_def marshal_def)
qed

lemma unsent_run:
  "run_trace sample_config unsent_host unsent_trace (start_state sample_config 2)
     = Some (unsent_state\<lparr>ts_non_dispatch := True, ts_released := True\<rparr>)"
proof -
  have split: "unsent_trace = take 5 unsent_trace
      @ [note_event sample_login ''non_dispatch'' ''complete'', note_event sample_login ''session_release'' ''proved'']"
    by (simp add: unsent_trace_def)
  have proved: "non_dispatch_proved sample_config unsent_host"
    using sample_calls_digest
    by (simp add: non_dispatch_proved_def unsent_host_def sample_host_defs same_digest_refl) (simp add: sample_config_def)
  have index: "call_index sample_config (note_event sample_login ev out) = Some 0" for ev out
    by (simp add: call_index_def note_event_def sample_event_def sample_config_def sample_login_def)
  have guards: "te_run_id (note_event sample_login ev out) = cf_run_id sample_config"
    "te_plan (note_event sample_login ev out) = cf_plan sample_config"
    "te_launch (note_event sample_login ev out) = lw_lease (hw_launch unsent_host)"
    "te_containment (note_event sample_login ev out) = lw_containment (hw_launch unsent_host)"
    "te_access (note_event sample_login ev out) = jw_access (hw_join unsent_host)"
    "te_event (note_event sample_login ev out) = ev" "te_outcome (note_event sample_login ev out) = out" for ev out
    by (simp_all add: note_event_def sample_event_def sample_config_def unsent_host_def sample_host_defs)
  have "run_events (trace_step sample_config unsent_host)
      [note_event sample_login ''non_dispatch'' ''complete'', note_event sample_login ''session_release'' ''proved'']
      unsent_state = Some (unsent_state\<lparr>ts_non_dispatch := True, ts_released := True\<rparr>)"
    by (simp add: trace_step_def guards index call_event_def on_non_dispatch_def on_session_release_def proved
        unsent_state_def start_state_def)
  then show ?thesis
    by (subst split) (simp only: run_trace_def run_events_append unsent_prefix [unfolded run_trace_def] bind.bind_lunit)
qed

definition unsent_result :: browser_result where
  "unsent_result = \<lparr>rs_observation = unsent_observation, rs_successor = True\<rparr>"

lemma unsent_accepted:
  "observe_browser_report sample_origins sample_config run_inventory unsent_report unsent_host
     = Inr unsent_result"
proof -
  let ?st = "unsent_state\<lparr>ts_non_dispatch := True, ts_released := True\<rparr>"
  have "unsent_trace \<noteq> []" "length unsent_trace \<le> 4096" by (simp_all add: unsent_trace_def)
  moreover have "obs_state unsent_observation = ''validated''"
    "obs_started_at unsent_observation = ''2026-01-01T00:10:00Z''" by (simp_all add: unsent_observation_def)
  moreover have "trace_closed ?st \<and> outcomes_reported sample_config ?st unsent_observation \<and> \<not> ts_any_sent ?st"
    by code_simp
  ultimately show ?thesis
    using sample_observed [OF unsent_observed, of unsent_trace "hw_non_dispatch unsent_host" ?st]
      unsent_run observation_times
    by (simp add: unsent_host_def unsent_result_def sample_host_def)
qed

end
