(* ===== verification/Browser_Discipline.thy ===== *)
theory Browser_Discipline
  imports Browser_Sample
begin

text \<open>
  What an accepted trace shows. \<^verbatim>\<open>flags_follow\<close> and \<^verbatim>\<open>entries_follow\<close> say what one event
  changes, \<^verbatim>\<open>trace_invariant\<close> explains the state by the events read so far, and the locale of
  event machines carries it over whole traces. The theorems are about the observation and the
  evidence that rest on such a trace.
\<close>

subsection \<open>One event\<close>

definition stopping :: "trace_event \<Rightarrow> bool" where
  "stopping e =
     (te_event e = ''claim_dispatch'' \<and> te_outcome e = ''refused''
      \<or> te_event e = ''interact'' \<and> te_outcome e = ''deny''
      \<or> te_event e = ''response'' \<and> te_outcome e \<noteq> ''success''
      \<or> te_event e = ''extraction'' \<or> te_event e = ''typed_driver_error'' \<or> te_event e = ''failure'')"

lemmas event_defs =
  on_session_acquire_def on_launch_def on_registration_input_def on_question_def
  on_interact_def on_authority_recheck_def on_claim_dispatch_def on_send_def on_response_def
  on_write_completed_def on_driver_failure_def on_registration_close_def on_candidate_def on_join_def
  on_generation_recheck_def on_session_save_def on_session_release_def on_non_dispatch_check_def
  on_non_dispatch_def on_failure_def Let_def

lemma trace_step_cases:
  assumes "trace_step c h e st = Some st'"
  obtains (lease) "te_event e = ''credential_lease''" "on_credential_lease c h e st = Some st'"
  | (call) i where "te_event e \<noteq> ''credential_lease''" "call_index c e = Some i" "call_event c h e i st = Some st'"
      "ts_pending st = [] \<or> te_event e = ''send''" "\<not> ts_released st"
  using assms by (auto simp: trace_step_def split: if_splits option.splits)

lemma stop_execution_simps [simp]:
  "ts_stopped (stop_execution st)" "ts_outcomes (stop_execution st) = ts_outcomes st"
  "ts_sent (stop_execution st) = ts_sent st" "ts_joined (stop_execution st) = ts_joined st"
  "ts_launched (stop_execution st) = ts_launched st" "ts_released (stop_execution st) = ts_released st"
  "ts_any_sent (stop_execution st) = ts_any_sent st" "ts_candidate (stop_execution st) = ts_candidate st"
  "ts_current (stop_execution st) = ts_current st" "ts_saved (stop_execution st) = ts_saved st"
  "ts_denied (stop_execution st) = ts_denied st" "ts_non_dispatch (stop_execution st) = ts_non_dispatch st"
  "ts_ordinal (stop_execution st) = ts_ordinal st" "ts_pending (stop_execution st) = ts_pending st"
  "ts_last (stop_execution st) = ts_last st" "ts_closed (stop_execution st) = ts_closed st"
  by (simp_all add: stop_execution_def)

text \<open>What an event does to the flags, whatever call it is about.\<close>

definition flags_follow :: "trace_event \<Rightarrow> trace_state \<Rightarrow> trace_state \<Rightarrow> bool" where
  "flags_follow e st st' =
     ((ts_launched st' \<longleftrightarrow> ts_launched st \<or> te_event e = ''launch'')
      \<and> (ts_joined st' \<longleftrightarrow> ts_joined st \<or> te_event e = ''join'')
      \<and> (ts_released st' \<longleftrightarrow> ts_released st \<or> te_event e = ''session_release'')
      \<and> (ts_any_sent st' \<longleftrightarrow> ts_any_sent st \<or> te_event e = ''send'')
      \<and> (ts_stopped st' \<longleftrightarrow> ts_stopped st \<or> stopping e)
      \<and> (ts_denied st' \<longleftrightarrow> ts_denied st \<or> te_event e = ''interact'' \<and> te_outcome e = ''deny'')
      \<and> (ts_candidate st' \<longleftrightarrow> ts_candidate st \<or> te_event e = ''candidate'')
      \<and> (ts_current st' \<longleftrightarrow> ts_current st \<or> te_event e = ''generation_recheck'')
      \<and> (ts_saved st' \<longleftrightarrow> ts_saved st \<or> te_event e = ''session_save'')
      \<and> (ts_non_dispatch st' \<longleftrightarrow> ts_non_dispatch st \<or> te_event e = ''non_dispatch''))"

lemma call_event_flags: "call_event c h e i st = Some st' \<Longrightarrow> flags_follow e st st'"
  unfolding call_event_def Let_def flags_follow_def stopping_def
  by (simp only: split: if_split_asm; (elim disjE)?; clarsimp simp: event_defs split: if_split_asm)

lemma trace_step_flags: "trace_step c h e st = Some st' \<Longrightarrow> flags_follow e st st'"
  by (erule trace_step_cases)
    (auto simp: call_event_flags, auto simp: on_credential_lease_def flags_follow_def stopping_def split: if_splits)

text \<open>What an event about call \<^verbatim>\<open>i\<close> does to the entries of that call and to the counters.\<close>

definition entries_follow :: "trace_event \<Rightarrow> nat \<Rightarrow> trace_state \<Rightarrow> trace_state \<Rightarrow> bool" where
  "entries_follow e i st st' =
     ((if te_event e = ''send'' then
         ts_sent st' = (ts_sent st)[i := True] \<and> ts_outcomes st' = (ts_outcomes st)[i := ''unknown'']
         \<and> ts_last st' = max (ts_last st) (int i) \<and> ts_ordinal st' = te_ordinal e
         \<and> ts_pending st' = [] \<and> ts_pending st = trace_key e \<and> ts_pending st \<noteq> []
         \<and> ts_launched st \<and> \<not> ts_joined st \<and> \<not> ts_stopped st
       else
         ts_sent st' = ts_sent st \<and> ts_last st' = ts_last st \<and> ts_ordinal st' = ts_ordinal st
         \<and> (te_event e \<noteq> ''claim_dispatch'' \<longrightarrow> ts_pending st' = ts_pending st)
         \<and> (if te_event e = ''response'' then
              ts_sent st ! i \<and> ts_outcomes st ! i = ''unknown''
              \<and> ts_outcomes st' = (ts_outcomes st)
                  [i := (if te_outcome e = ''success'' then ''succeeded''
                         else if te_outcome e = ''definite_failure'' then ''failed'' else ''unknown'')]
            else if te_event e = ''extraction'' \<or> te_event e = ''typed_driver_error'' then
              ts_sent st ! i \<and> ts_outcomes st ! i \<notin> {''succeeded'', ''failed''}
              \<and> ts_outcomes st' = (ts_outcomes st)[i := ''unknown'']
            else ts_outcomes st' = ts_outcomes st))
      \<and> ts_closed st'
          = (if te_event e = ''registration_context_close'' then (ts_closed st)[i := True] else ts_closed st))"

lemma update_same: "xs ! i = x \<Longrightarrow> (xs = xs[i := x]) = True"
  using list_update_id [of xs i] by auto

lemma call_event_entries: "call_event c h e i st = Some st' \<Longrightarrow> entries_follow e i st st'"
  unfolding call_event_def Let_def entries_follow_def
  by (simp only: split: if_split_asm; (elim disjE)?; clarsimp simp: event_defs update_same split: if_split_asm)

subsection \<open>Keys of messages\<close>

lemma join_single_inj:
  assumes "length xs = length ys" "\<forall>x \<in> set xs. sep \<notin> set x" "join [sep] xs = join [sep] ys"
  shows "xs = ys"
proof -
  have count: "xs \<noteq> [] \<Longrightarrow> count_list (join [sep] xs) sep
      = length xs - 1 + sum_list (map (\<lambda>x. count_list x sep) xs)" for xs
    by (induction "[sep]" xs rule: join.induct) auto
  show ?thesis
  proof (cases "xs = []")
    case False
    with assms(1) have ne: "ys \<noteq> []" by auto
    have zero: "count_list x sep = 0" if "x \<in> set xs" for x
      using assms(2) that by (simp add: count_list_0_iff)
    then have "sum_list (map (\<lambda>x. count_list x sep) xs) = 0" by (simp cong: map_cong)
    then have "sum_list (map (\<lambda>x. count_list x sep) ys) = 0"
      using count [OF False] count [OF ne] assms(1,3) by simp
    then have clean: "\<forall>y \<in> set ys. sep \<notin> set y" by (simp add: count_list_0_iff)
    show ?thesis using assms(1,2,3) clean
    proof (induction xs ys rule: list_induct2)
      case (Cons x xs y ys)
      show ?case
      proof (cases xs)
        case Nil
        then show ?thesis using Cons by simp
      next
        case xs: (Cons a as)
        with Cons.hyps obtain b bs where ys: "ys = b # bs" by (cases ys) auto
        have "x @ sep # join [sep] xs = y @ sep # join [sep] ys" using Cons.prems(2) by (simp add: xs ys)
        then show ?thesis using Cons append_sep_inj [of sep x y] by auto
      qed
    qed simp
  qed (use assms in simp)
qed

lemma identifier_clean: "contract_identifier s \<Longrightarrow> CHR 0x00 \<notin> set s"
  unfolding contract_identifier_def
  by (drule matches_class_chars)
    (auto simp: contract_rest_def class_defs list_all_iff dest!: bspec)

definition key_parts :: "trace_event \<Rightarrow> bytes list" where
  "key_parts e =
     [te_step e, te_operation e, te_invocation e, te_request e, decimal (int (te_ordinal e)), te_kind e,
      te_outer e]"

definition clean_key :: "trace_event \<Rightarrow> bool" where
  "clean_key e = (\<forall>p \<in> set (key_parts e). CHR 0x00 \<notin> set p)"

lemma trace_key_inj:
  assumes "clean_key e" "trace_key e = trace_key d"
  shows "te_step e = te_step d" "te_operation e = te_operation d" "te_invocation e = te_invocation d"
    "te_request e = te_request d" "te_ordinal e = te_ordinal d" "te_kind e = te_kind d"
    "te_outer e = te_outer d"
proof -
  have "key_parts e = key_parts d"
    by (rule join_single_inj) (use assms in \<open>simp_all add: clean_key_def key_parts_def trace_key_def\<close>)
  then show "te_step e = te_step d" "te_operation e = te_operation d" "te_invocation e = te_invocation d"
    "te_request e = te_request d" "te_ordinal e = te_ordinal d" "te_kind e = te_kind d"
    "te_outer e = te_outer d"
    by (simp_all add: key_parts_def decimal_inj)
qed

lemma outer_clean: "protocol_pair_valid c \<Longrightarrow> CHR 0x00 \<notin> set (bl_outer c)"
  unfolding protocol_pair_valid_def protocols_def
  by (auto split: if_split_asm)

subsection \<open>Claims\<close>

lemma call_index_Some:
  "call_index c e = Some i \<Longrightarrow> i < length (cf_calls c) \<and> bl_step_id (cf_calls c ! i) = te_step e
     \<and> bl_operation_id (cf_calls c ! i) = te_operation e
     \<and> bl_invocation_id (cf_calls c ! i) = te_invocation e"
  unfolding call_index_def by (drule find_index_Some) auto

lemma call_index_cong:
  "te_step e = te_step d \<Longrightarrow> te_operation e = te_operation d \<Longrightarrow> te_invocation e = te_invocation d \<Longrightarrow>
     call_index c e = call_index c d"
  by (simp add: call_index_def)

text \<open>What the claim of a message fixes for the send that must follow.\<close>

definition claim_ready :: "browser_config \<Rightarrow> trace_event \<Rightarrow> nat \<Rightarrow> trace_state \<Rightarrow> bool" where
  "claim_ready c e i st =
     (te_ordinal e = Suc (ts_ordinal st) \<and> clean_key e
      \<and> (if ts_sent st ! i then ts_outcomes st ! i = ''unknown''
         else int i = ts_last st + 1 \<and> earlier_done c i st))"

lemma initial_kind_clean: "CHR 0x00 \<notin> set (initial_kind k)"
  by (simp add: initial_kind_def)

lemma response_kind_clean: "response_kind k = Some s \<Longrightarrow> CHR 0x00 \<notin> set s"
  by (simp only: response_kind_def split: if_split_asm; clarsimp)

lemmas kinds_clean = initial_kind_clean response_kind_clean

lemma claim_event:
  assumes ok: "\<forall>x \<in> set (cf_calls c). validate_call po x"
    and e: "te_event e = ''claim_dispatch''" "call_index c e = Some i" "call_event c h e i st = Some st'"
  shows "te_outcome e = ''refused'' \<and> ts_pending st' = ts_pending st
      \<or> te_outcome e \<noteq> ''refused'' \<and> ts_pending st' = trace_key e \<and> claim_ready c e i st"
proof (cases "te_outcome e = ''refused''")
  case True
  then show ?thesis using e(1,3)
    by (auto simp: call_event_def on_claim_dispatch_def Let_def split: if_split_asm)
next
  case False
  let ?call = "cf_calls c ! i"
  from e(1,3) False have a: "contract_identifier (te_request e)" "te_ordinal e = Suc (ts_ordinal st)"
    "te_outer e = bl_outer ?call" "ts_pending st' = trace_key e"
    "if \<not> ts_sent st ! i then first_claim_ok c e ?call i st else next_claim_ok e i st"
    by (simp_all add: call_event_def on_claim_dispatch_def Let_def split: if_split_asm) auto
  note i = call_index_Some [OF e(2)]
  then have "validate_call po ?call" using ok by simp
  then have v: "contract_identifier (bl_step_id ?call)" "contract_identifier (bl_operation_id ?call)"
    "bl_invocation_id ?call = bl_step_id ?call" "protocol_pair_valid ?call"
    by (auto simp: validate_call_def split: if_split_asm)
  have "CHR 0x00 \<notin> set (te_kind e)"
    using a(5) kinds_clean by (auto simp: first_claim_ok_def next_claim_ok_def split: if_split_asm)
  moreover have "CHR 0x00 \<notin> set (decimal (int (te_ordinal e)))"
    using decimal_digits [of "int (te_ordinal e)"] by (auto simp: list_all_iff is_digit_def in_range_def)
  moreover have "CHR 0x00 \<notin> set (te_step e)" "CHR 0x00 \<notin> set (te_operation e)"
    "CHR 0x00 \<notin> set (te_invocation e)" "CHR 0x00 \<notin> set (te_request e)" "CHR 0x00 \<notin> set (te_outer e)"
    using identifier_clean [OF v(1)] identifier_clean [OF v(2)] identifier_clean [OF a(1)]
      outer_clean [OF v(4)] v(3) i a(3) by simp_all
  ultimately have "clean_key e" unfolding clean_key_def key_parts_def by simp
  then show ?thesis
    using False a by (auto simp: claim_ready_def first_claim_ok_def next_claim_ok_def split: if_split_asm)
qed

subsection \<open>The invariant of the trace\<close>

abbreviation is_event :: "bytes \<Rightarrow> trace_event \<Rightarrow> bool" where
  "is_event name e \<equiv> te_event e = name"

definition sends :: "trace_event list \<Rightarrow> trace_event list" where
  "sends es = filter (is_event ''send'') es"

definition flags_explained :: "trace_event list \<Rightarrow> trace_state \<Rightarrow> bool" where
  "flags_explained es st =
     ((ts_launched st \<longleftrightarrow> (\<exists>e \<in> set es. is_event ''launch'' e))
      \<and> (ts_joined st \<longleftrightarrow> (\<exists>e \<in> set es. is_event ''join'' e))
      \<and> (ts_released st \<longleftrightarrow> (\<exists>e \<in> set es. is_event ''session_release'' e))
      \<and> (ts_any_sent st \<longleftrightarrow> (\<exists>e \<in> set es. is_event ''send'' e))
      \<and> (ts_stopped st \<longleftrightarrow> (\<exists>e \<in> set es. stopping e))
      \<and> (ts_denied st \<longleftrightarrow> (\<exists>e \<in> set es. is_event ''interact'' e \<and> te_outcome e = ''deny''))
      \<and> (ts_candidate st \<longleftrightarrow> (\<exists>e \<in> set es. is_event ''candidate'' e))
      \<and> (ts_current st \<longleftrightarrow> (\<exists>e \<in> set es. is_event ''generation_recheck'' e))
      \<and> (ts_saved st \<longleftrightarrow> (\<exists>e \<in> set es. is_event ''session_save'' e))
      \<and> (ts_non_dispatch st \<longleftrightarrow> (\<exists>e \<in> set es. is_event ''non_dispatch'' e)))"

lemma flags_explained_step:
  "flags_explained es st \<Longrightarrow> flags_follow e st st' \<Longrightarrow> flags_explained (es @ [e]) st'"
  unfolding flags_explained_def flags_follow_def by (simp add: disj_commute)

text \<open>What the events read so far say about call \<^verbatim>\<open>i\<close>.\<close>

definition answered_with :: "bytes \<Rightarrow> browser_config \<Rightarrow> nat \<Rightarrow> trace_event list \<Rightarrow> bool" where
  "answered_with w c i es =
     (\<exists>e \<in> set es. is_event ''response'' e \<and> te_outcome e = w \<and> call_index c e = Some i)"

definition sent_to :: "browser_config \<Rightarrow> nat \<Rightarrow> trace_event list \<Rightarrow> bool" where
  "sent_to c i es = (\<exists>e \<in> set es. is_event ''send'' e \<and> call_index c e = Some i)"

definition entry_explained :: "browser_config \<Rightarrow> trace_event list \<Rightarrow> trace_state \<Rightarrow> nat \<Rightarrow> bool" where
  "entry_explained c es st i =
     ((ts_sent st ! i \<longleftrightarrow> int i \<le> ts_last st)
      \<and> (ts_sent st ! i \<longleftrightarrow> ts_outcomes st ! i \<noteq> ''not_started'')
      \<and> (ts_sent st ! i \<longleftrightarrow> sent_to c i es)
      \<and> ts_outcomes st ! i \<in> {''not_started'', ''unknown'', ''succeeded'', ''failed''}
      \<and> (ts_outcomes st ! i = ''succeeded'' \<longrightarrow> answered_with ''success'' c i es)
      \<and> (ts_outcomes st ! i = ''failed'' \<longrightarrow> answered_with ''definite_failure'' c i es)
      \<and> (ts_sent st ! i \<longrightarrow> earlier_done c i st))"

definition entries_explained :: "browser_config \<Rightarrow> trace_event list \<Rightarrow> trace_state \<Rightarrow> bool" where
  "entries_explained c es st =
     (length (ts_outcomes st) = length (cf_calls c) \<and> length (ts_sent st) = length (cf_calls c)
      \<and> length (ts_closed st) = length (cf_calls c) \<and> - 1 \<le> ts_last st
      \<and> (\<forall>i < length (cf_calls c). entry_explained c es st i))"

lemma explained_snoc:
  "answered_with w c i (es @ [e]) \<longleftrightarrow> answered_with w c i es
     \<or> is_event ''response'' e \<and> te_outcome e = w \<and> call_index c e = Some i"
  "sent_to c i (es @ [e]) \<longleftrightarrow> sent_to c i es \<or> is_event ''send'' e \<and> call_index c e = Some i"
  by (auto simp: answered_with_def sent_to_def)

definition pending_explained :: "browser_config \<Rightarrow> trace_event list \<Rightarrow> trace_state \<Rightarrow> bool" where
  "pending_explained c es st =
     (ts_pending st \<noteq> [] \<longrightarrow>
        ts_launched st \<and> es \<noteq> [] \<and> is_event ''claim_dispatch'' (last es)
        \<and> ts_pending st = trace_key (last es)
        \<and> (\<exists>i. call_index c (last es) = Some i \<and> claim_ready c (last es) i st))"

definition ordinals_explained :: "trace_event list \<Rightarrow> trace_state \<Rightarrow> bool" where
  "ordinals_explained es st =
     (map te_ordinal (sends es) = [1..<Suc (length (sends es))] \<and> ts_ordinal st = length (sends es))"

definition trace_invariant :: "browser_config \<Rightarrow> trace_event list \<Rightarrow> trace_state \<Rightarrow> bool" where
  "trace_invariant c es st =
     (flags_explained es st \<and> entries_explained c es st \<and> pending_explained c es st
      \<and> ordinals_explained es st)"

lemma trace_invariant_start: "trace_invariant c [] (start_state c (length (cf_calls c)))"
  by (simp add: trace_invariant_def flags_explained_def entries_explained_def entry_explained_def
      sent_to_def pending_explained_def ordinals_explained_def sends_def start_state_def)

text \<open>A send is read only right after the claim of the same message.\<close>

lemma send_after_claim:
  assumes "trace_invariant c es st" "is_event ''send'' e" "call_index c e = Some i"
    and "call_event c h e i st = Some st'"
  shows "es \<noteq> [] \<and> is_event ''claim_dispatch'' (last es) \<and> trace_key (last es) = trace_key e
    \<and> te_ordinal e = Suc (ts_ordinal st)
    \<and> (if ts_sent st ! i then ts_outcomes st ! i = ''unknown''
       else int i = ts_last st + 1 \<and> earlier_done c i st)"
proof -
  have p: "ts_pending st = trace_key e" "ts_pending st \<noteq> []"
    using call_event_entries [OF assms(4)] assms(2) unfolding entries_follow_def by (simp, metis)
  with assms(1) obtain j where j: "es \<noteq> []" "is_event ''claim_dispatch'' (last es)"
    "trace_key (last es) = trace_key e" "call_index c (last es) = Some j" "claim_ready c (last es) j st"
    by (auto simp: trace_invariant_def pending_explained_def)
  have "clean_key (last es)" using j(5) by (simp add: claim_ready_def)
  note same = trace_key_inj [OF this j(3)]
  have "j = i" using call_index_cong [of "last es" e c] same j(4) assms(3) by simp
  with j same show ?thesis by (simp add: claim_ready_def)
qed

lemma earlier_done_iff:
  "earlier_done c i st \<longleftrightarrow> (\<forall>k < i. ts_outcomes st ! k = ''succeeded''
     \<and> (bl_kind (cf_calls c ! k) = ''registration'' \<longrightarrow> ts_closed st ! k))"
  by (auto simp: earlier_done_def list_all_iff)

lemma earlier_done_mono:
  assumes "earlier_done c i st"
    and "\<And>k. k < i \<Longrightarrow> ts_outcomes st' ! k = ts_outcomes st ! k"
    and "\<And>k. k < i \<Longrightarrow> ts_closed st ! k \<Longrightarrow> ts_closed st' ! k"
  shows "earlier_done c i st'"
  using assms by (auto simp: earlier_done_iff)

lemma update_True: "xs ! k \<Longrightarrow> xs[j := True] ! k"
  by (cases "k = j"; cases "j < length xs") (simp_all add: list_update_beyond)

lemma closed_grows:
  "entries_follow e j st st' \<Longrightarrow> ts_closed st ! k \<Longrightarrow> ts_closed st' ! k"
  unfolding entries_follow_def by (simp add: update_True split: if_split_asm)

text \<open>Which entries an event that is no send can change, and how.\<close>

lemma quiet_event:
  assumes "entries_follow e j st st'" "\<not> is_event ''send'' e" "j < length (ts_outcomes st)"
  shows "ts_sent st' = ts_sent st" "ts_last st' = ts_last st"
    "ts_outcomes st' ! i = ts_outcomes st ! i
     \<or> i = j \<and> ts_sent st ! j \<and> ts_outcomes st ! j \<notin> {''succeeded'', ''failed''}
       \<and> (ts_outcomes st' ! j = ''unknown''
          \<or> ts_outcomes st' ! j = ''succeeded'' \<and> is_event ''response'' e \<and> te_outcome e = ''success''
          \<or> ts_outcomes st' ! j = ''failed'' \<and> is_event ''response'' e \<and> te_outcome e = ''definite_failure'')"
  using assms unfolding entries_follow_def
  by (auto simp: nth_list_update split: if_split_asm)

lemma entries_lengths:
  assumes "entries_explained c es st" "entries_follow e j st st'"
  shows "length (ts_outcomes st') = length (cf_calls c) \<and> length (ts_sent st') = length (cf_calls c)
    \<and> length (ts_closed st') = length (cf_calls c)"
  using assms by (auto simp: entries_explained_def entries_follow_def split: if_split_asm)

lemma entries_quiet_step:
  assumes inv: "entries_explained c es st" and e: "entries_follow e j st st'" "\<not> is_event ''send'' e"
    and j: "call_index c e = Some j"
  shows "entries_explained c (es @ [e]) st'"
proof -
  have jn: "j < length (ts_outcomes st)"
    using call_index_Some [OF j] inv by (simp add: entries_explained_def)
  note q = quiet_event [OF e jn]
  have earlier: "earlier_done c i st'" if "earlier_done c i st" for i
  proof (rule earlier_done_mono [OF that])
    fix k
    assume "k < i"
    then show "ts_outcomes st' ! k = ts_outcomes st ! k"
      using that q(3) [of k] by (auto simp: earlier_done_iff)
  qed (rule closed_grows [OF e(1)])
  have "entry_explained c (es @ [e]) st' i" if "i < length (cf_calls c)" for i
  proof -
    have old: "entry_explained c es st i" using inv that by (simp add: entries_explained_def)
    from q(3) [of i] show ?thesis
      unfolding entry_explained_def q(1,2) explained_snoc
      by (elim disjE conjE) (use old e(2) j earlier in \<open>auto simp: entry_explained_def\<close>)
  qed
  with entries_lengths [OF inv e(1)] q(2) inv show ?thesis by (simp add: entries_explained_def)
qed

lemma entries_send_step:
  assumes inv: "entries_explained c es st" and e: "entries_follow e j st st'" "is_event ''send'' e"
    and j: "call_index c e = Some j"
    and ready: "if ts_sent st ! j then ts_outcomes st ! j = ''unknown''
                else int j = ts_last st + 1 \<and> earlier_done c j st"
  shows "entries_explained c (es @ [e]) st'"
proof -
  have jn: "j < length (cf_calls c)" using call_index_Some [OF j] by simp
  have len: "length (ts_outcomes st) = length (cf_calls c)" "length (ts_sent st) = length (cf_calls c)"
    using inv by (simp_all add: entries_explained_def)
  from e have st': "ts_sent st' = (ts_sent st)[j := True]"
    "ts_outcomes st' = (ts_outcomes st)[j := ''unknown'']" "ts_last st' = max (ts_last st) (int j)"
    by (simp_all add: entries_follow_def)
  have old: "entry_explained c es st i" if "i < length (cf_calls c)" for i
    using inv that by (simp add: entries_explained_def)
  have sent_last: "ts_sent st ! j \<longleftrightarrow> int j \<le> ts_last st" using old [OF jn] by (simp add: entry_explained_def)
  have last: "ts_last st' = (if ts_sent st ! j then ts_last st else ts_last st + 1)"
    using ready sent_last by (auto simp: st'(3) split: if_split_asm)
  have earlier: "earlier_done c i st'" if "earlier_done c i st" "i \<le> j \<or> ts_sent st ! j" for i
  proof (rule earlier_done_mono [OF that(1)])
    fix k
    assume k: "k < i"
    then have "k \<noteq> j" using that ready by (auto simp: earlier_done_iff)
    then show "ts_outcomes st' ! k = ts_outcomes st ! k" by (simp add: st'(2))
  qed (rule closed_grows [OF e(1)])
  have "entry_explained c (es @ [e]) st' i" if i: "i < length (cf_calls c)" for i
  proof (cases "i = j")
    case True
    have "earlier_done c j st'"
      using ready old [OF jn] earlier [of j] by (auto simp: entry_explained_def split: if_split_asm)
    moreover have "int j \<le> ts_last st'" by (simp add: st'(3))
    ultimately show ?thesis
      using True jn len e(2) j by (simp add: entry_explained_def explained_snoc st'(1,2))
  next
    case False
    have range: "int i \<le> ts_last st' \<longleftrightarrow> int i \<le> ts_last st"
      using ready False by (auto simp: last split: if_split_asm)
    have "i \<le> j \<or> ts_sent st ! j" if "ts_sent st ! i"
      using that old [OF i] ready by (auto simp: entry_explained_def split: if_split_asm)
    with earlier [of i] old [OF i] False j range show ?thesis
      by (auto simp: entry_explained_def explained_snoc st'(1,2))
  qed
  with entries_lengths [OF inv e(1)] inv show ?thesis by (auto simp: entries_explained_def st'(3))
qed

lemma ordinals_step:
  assumes "ordinals_explained es st" "entries_follow e j st st'"
    and "is_event ''send'' e \<Longrightarrow> te_ordinal e = Suc (ts_ordinal st)"
  shows "ordinals_explained (es @ [e]) st'"
  using assms by (auto simp: ordinals_explained_def entries_follow_def sends_def split: if_split_asm)

lemma pending_step:
  assumes ok: "\<forall>x \<in> set (cf_calls c). validate_call po x"
    and free: "ts_pending st = [] \<or> is_event ''send'' e"
    and e: "call_index c e = Some j" "call_event c h e j st = Some st'"
  shows "pending_explained c (es @ [e]) st'"
proof (cases "is_event ''claim_dispatch'' e")
  case True
  have pend: "ts_pending st = []" using free True by simp
  have same: "ts_sent st' = ts_sent st" "ts_last st' = ts_last st" "ts_ordinal st' = ts_ordinal st"
    "ts_outcomes st' = ts_outcomes st" "ts_closed st' = ts_closed st"
    using call_event_entries [OF e(2)] True by (simp_all add: entries_follow_def)
  have launched: "ts_launched st'"
    using e(2) True by (auto simp: call_event_def on_claim_dispatch_def Let_def split: if_split_asm)
  have "claim_ready c e j st' = claim_ready c e j st"
    by (simp add: claim_ready_def earlier_done_iff same)
  with claim_event [OF ok True e] launched pend True e(1) show ?thesis
    by (auto simp: pending_explained_def)
next
  case False
  then have "ts_pending st' = []"
    using call_event_entries [OF e(2)] free by (auto simp: entries_follow_def split: if_split_asm)
  then show ?thesis by (simp add: pending_explained_def)
qed

lemma lease_step:
  assumes inv: "trace_invariant c es st" and e: "is_event ''credential_lease'' e"
    "on_credential_lease c h e st = Some st'"
  shows "trace_invariant c (es @ [e]) st'"
proof -
  have st': "st' = st\<lparr>ts_leased := True\<rparr>" "\<not> ts_launched st"
    using e(2) by (auto simp: on_credential_lease_def split: if_split_asm)
  have "\<not> stopping e" using e(1) by (simp add: stopping_def)
  then have "flags_explained (es @ [e]) st'"
    using inv e(1) by (auto simp: trace_invariant_def flags_explained_def st'(1))
  moreover have "entry_explained c (es @ [e]) st' i = entry_explained c es st i" for i
    using e(1) by (simp add: entry_explained_def explained_snoc st'(1) earlier_done_iff)
  then have "entries_explained c (es @ [e]) st'"
    using inv by (simp add: trace_invariant_def entries_explained_def st'(1))
  moreover have "pending_explained c (es @ [e]) st'"
    using inv st' by (auto simp: trace_invariant_def pending_explained_def)
  moreover have "ordinals_explained (es @ [e]) st'"
    using inv e(1) by (simp add: trace_invariant_def ordinals_explained_def sends_def st'(1))
  ultimately show ?thesis by (simp add: trace_invariant_def)
qed

lemma trace_invariant_step:
  assumes ok: "\<forall>x \<in> set (cf_calls c). validate_call po x"
    and inv: "trace_invariant c es st" and step: "trace_step c h e st = Some st'"
  shows "trace_invariant c (es @ [e]) st'"
  using step
proof (cases rule: trace_step_cases)
  case lease
  then show ?thesis using lease_step [OF inv] by blast
next
  case (call i)
  note entries = call_event_entries [OF call(3)]
  have send: "te_ordinal e = Suc (ts_ordinal st)"
    "if ts_sent st ! i then ts_outcomes st ! i = ''unknown'' else int i = ts_last st + 1 \<and> earlier_done c i st"
    if "is_event ''send'' e"
    using send_after_claim [OF inv that call(2,3)] by auto
  have "flags_explained (es @ [e]) st'"
    using inv flags_explained_step [OF _ call_event_flags [OF call(3)]] by (simp add: trace_invariant_def)
  moreover have "entries_explained c (es @ [e]) st'"
  proof (cases "is_event ''send'' e")
    case True
    show ?thesis
      by (rule entries_send_step [OF _ entries True call(2) send(2) [OF True]])
        (use inv in \<open>simp add: trace_invariant_def\<close>)
  next
    case False
    show ?thesis
      by (rule entries_quiet_step [OF _ entries False call(2)])
        (use inv in \<open>simp add: trace_invariant_def\<close>)
  qed
  moreover have "pending_explained c (es @ [e]) st'" by (rule pending_step [OF ok call(4,2,3)])
  moreover have "ordinals_explained (es @ [e]) st'"
    by (rule ordinals_step [OF _ entries send(1)]) (use inv in \<open>simp add: trace_invariant_def\<close>)
  ultimately show ?thesis by (simp add: trace_invariant_def)
qed

text \<open>The machine of the trace, over a configuration whose calls were validated.\<close>

definition checked_invariant ::
  "(bytes \<Rightarrow> bytes option) \<Rightarrow> browser_config \<Rightarrow> trace_event list \<Rightarrow> trace_state \<Rightarrow> bool" where
  "checked_invariant po c es st =
     ((\<forall>x \<in> set (cf_calls c). validate_call po x) \<and> trace_invariant c es st)"

interpretation tr: event_machine "trace_step c h" "checked_invariant po c" for po c h
  by unfold_locales (auto simp: checked_invariant_def intro: trace_invariant_step)

lemma checked_start:
  "validate_config po c \<Longrightarrow> checked_invariant po c [] (start_state c (length (cf_calls c)))"
  by (simp add: checked_invariant_def trace_invariant_start validated_calls)

text \<open>What an observation that was returned rests on.\<close>

lemma observation_facts:
  assumes "observe_browser_report po c inventory report h = Inr r"
  obtains st where "validate_config po c" "rs_observation r = observe_v5 inventory report"
    "obs_state (rs_observation r) = ''validated''"
    "run_events (trace_step c h) (hw_trace h) (start_state c (length (cf_calls c))) = Some st"
    "trace_invariant c (hw_trace h) st" "trace_closed st" "outcomes_reported c st (rs_observation r)"
    "hw_non_dispatch h \<noteq> None \<longrightarrow> ts_non_dispatch st"
    "rs_successor r = (ts_non_dispatch st \<and> \<not> ts_any_sent st)"
    "length (inv_steps inventory) = length (cf_calls c)" "inputs_agree po c inventory h"
proof -
  from assms have r: "observed_run_of po c inventory report h = Some r"
    by (simp add: observe_browser_report_def split: option.splits)
  from r obtain st where a: "inputs_agree po c inventory h" "inventory_matches c inventory"
    "obs_state (observe_v5 inventory report) = ''validated''"
    "run_trace c h (hw_trace h) (start_state c (length (inv_steps inventory))) = Some st"
    "trace_closed st" "outcomes_reported c st (observe_v5 inventory report)"
    "hw_non_dispatch h \<noteq> None \<longrightarrow> ts_non_dispatch st"
    "r = \<lparr>rs_observation = observe_v5 inventory report, rs_successor = (ts_non_dispatch st \<and> \<not> ts_any_sent st)\<rparr>"
    by (auto simp: observed_run_of_def Let_def split: if_split_asm option.splits)
  have v: "validate_config po c" using a(1) by (simp add: inputs_agree_def)
  have n: "length (inv_steps inventory) = length (cf_calls c)" using a(2) by (simp add: inventory_matches_def)
  have run: "run_events (trace_step c h) (hw_trace h) (start_state c (length (cf_calls c))) = Some st"
    using a(4) by (simp add: run_trace_def n)
  have "trace_invariant c (hw_trace h) st"
    using tr.run_inv [OF checked_start [OF v] run] by (simp add: checked_invariant_def)
  then show ?thesis using that [OF v _ _ run] a n by simp
qed

subsection \<open>What the observation shows\<close>

lemma validated_length:
  "obs_state (observe_v5 i data) = ''validated'' \<Longrightarrow> length (obs_steps (observe_v5 i data)) = length (inv_steps i)"
  by (auto simp: observe_v5_eq observed_run_def unknown_v5_def same_run_def
      split: sum.splits if_split_asm dest: map_eq_imp_length_eq)

lemma reported_outcome:
  assumes "outcomes_reported c st ob" "i < length (obs_steps ob)"
  shows "outcome (obs_steps ob ! i) = ts_outcomes st ! i"
  using assms by (auto simp: outcomes_reported_def list_all_iff)

text \<open>
  C19. An observed outcome is justified by the trace. A step is reported as not started exactly
  when no message of its call was sent, as succeeded only with a successful response to its
  call, as failed only with a definite failure, and a step that was started at all comes after
  steps that all succeeded.
\<close>

theorem outcomes_justified:
  assumes "observe_browser_report po c inventory report h = Inr r" "i < length (cf_calls c)"
  shows "(outcome (obs_steps (rs_observation r) ! i) = ''not_started'' \<longleftrightarrow> \<not> sent_to c i (hw_trace h))
    \<and> (outcome (obs_steps (rs_observation r) ! i) = ''succeeded'' \<longrightarrow>
         answered_with ''success'' c i (hw_trace h))
    \<and> (outcome (obs_steps (rs_observation r) ! i) = ''failed'' \<longrightarrow>
         answered_with ''definite_failure'' c i (hw_trace h))
    \<and> (\<forall>k < i. outcome (obs_steps (rs_observation r) ! i) \<noteq> ''not_started'' \<longrightarrow>
         outcome (obs_steps (rs_observation r) ! k) = ''succeeded'')"
  using assms(1)
proof (rule observation_facts)
  fix st
  assume a: "rs_observation r = observe_v5 inventory report" "obs_state (rs_observation r) = ''validated''"
    "outcomes_reported c st (rs_observation r)" "trace_invariant c (hw_trace h) st"
    "length (inv_steps inventory) = length (cf_calls c)"
  have len: "length (obs_steps (rs_observation r)) = length (cf_calls c)"
    using validated_length [of inventory report] a(1,2,5) by simp
  have out: "outcome (obs_steps (rs_observation r) ! k) = ts_outcomes st ! k" if "k \<le> i" for k
    using reported_outcome [OF a(3)] that assms(2) by (simp add: len)
  have "entry_explained c (hw_trace h) st i"
    using a(4) assms(2) by (simp add: trace_invariant_def entries_explained_def)
  then show ?thesis
    using out by (auto simp: entry_explained_def earlier_done_iff)
qed

theorem outcomes_justified_witness:
  "answered_with ''success'' sample_config 1 done_trace
   \<and> outcome (obs_steps done_observation ! 0) = ''succeeded''"
proof -
  have "1 < length (cf_calls sample_config)" by (simp add: sample_config_def)
  from outcomes_justified [OF done_accepted this] show ?thesis
    by (simp add: done_observation_def done_host_def sample_host_def)
qed

text \<open>
  C20. Messages are sent under discipline. In a trace that is accepted the sent messages are
  numbered from one without a gap, every send directly follows the claim of the very same
  message, and nothing is sent after the join or after the first event that stops the run: a
  refusal, a denial, a failure or a response that is no success.
\<close>

theorem dispatch_discipline:
  assumes "observe_browser_report po c inventory report h = Inr r"
  shows "map te_ordinal (sends (hw_trace h)) = [1..<Suc (length (sends (hw_trace h)))]
    \<and> (\<forall>as e bs. hw_trace h = as @ e # bs \<longrightarrow> is_event ''send'' e \<longrightarrow>
         as \<noteq> [] \<and> is_event ''claim_dispatch'' (last as) \<and> trace_key (last as) = trace_key e
         \<and> (\<forall>d \<in> set as. \<not> is_event ''join'' d \<and> \<not> stopping d))"
  using assms
proof (rule observation_facts)
  fix st
  assume v: "validate_config po c" and inv: "trace_invariant c (hw_trace h) st"
    and run: "run_events (trace_step c h) (hw_trace h) (start_state c (length (cf_calls c))) = Some st"
  have "as \<noteq> [] \<and> is_event ''claim_dispatch'' (last as) \<and> trace_key (last as) = trace_key e
      \<and> (\<forall>d \<in> set as. \<not> is_event ''join'' d \<and> \<not> stopping d)"
    if split: "hw_trace h = as @ e # bs" and e: "is_event ''send'' e" for as e bs
    using checked_start [OF v] run [unfolded split]
  proof (rule tr.run_split)
    fix u w
    assume "checked_invariant po c as u" "trace_step c h e u = Some w"
    then have u: "trace_invariant c as u" "trace_step c h e u = Some w"
      by (simp_all add: checked_invariant_def)
    from u(2) obtain i where i: "call_index c e = Some i" "call_event c h e i u = Some w"
      by (rule trace_step_cases) (use e in auto)
    have "\<not> ts_joined u" "\<not> ts_stopped u"
      using call_event_entries [OF i(2)] e by (simp_all add: entries_follow_def)
    then show ?thesis
      using send_after_claim [OF u(1) e i] u(1)
      by (auto simp: trace_invariant_def flags_explained_def)
  qed
  then show ?thesis using inv by (simp add: trace_invariant_def ordinals_explained_def)
qed

theorem dispatch_discipline_witness:
  "map te_ordinal (sends done_trace) = [1..<Suc (length (sends done_trace))] \<and> length (sends done_trace) = 2"
  using dispatch_discipline [OF done_accepted]
  by (simp add: done_host_def sample_host_def) (simp add: done_trace_def sends_def note_event_def sample_event_def)

text \<open>
  C21. A successor is offered only on proof that nothing was sent: no send is in the trace, the
  host's witness of non-dispatch covers the run, the plan, the calls and the join, and the
  report says of every step that it was not started.
\<close>

theorem successor_unsent:
  assumes "observe_browser_report po c inventory report h = Inr r" "rs_successor r"
  shows "sends (hw_trace h) = [] \<and> non_dispatch_proved c h
    \<and> (\<forall>i < length (cf_calls c). outcome (obs_steps (rs_observation r) ! i) = ''not_started'')"
  using assms(1)
proof (rule observation_facts)
  fix st
  assume a: "rs_observation r = observe_v5 inventory report" "obs_state (rs_observation r) = ''validated''"
    "outcomes_reported c st (rs_observation r)" "trace_invariant c (hw_trace h) st"
    "length (inv_steps inventory) = length (cf_calls c)" "validate_config po c"
    "run_events (trace_step c h) (hw_trace h) (start_state c (length (cf_calls c))) = Some st"
    "rs_successor r = (ts_non_dispatch st \<and> \<not> ts_any_sent st)"
  have flags: "flags_explained (hw_trace h) st" using a(4) by (simp add: trace_invariant_def)
  then have none: "\<forall>e \<in> set (hw_trace h). \<not> is_event ''send'' e"
    and "\<exists>e \<in> set (hw_trace h). is_event ''non_dispatch'' e"
    using assms(2) a(8) by (auto simp: flags_explained_def)
  then obtain as e bs where e: "hw_trace h = as @ e # bs" "is_event ''non_dispatch'' e"
    by (auto simp: in_set_conv_decomp)
  have proved: "non_dispatch_proved c h"
    using checked_start [OF a(6)] a(7) [unfolded e(1)]
  proof (rule tr.run_split)
    fix u w
    assume "trace_step c h e u = Some w"
    then obtain i where "call_event c h e i u = Some w" by (rule trace_step_cases) (use e(2) in auto)
    then show ?thesis
      using e(2) by (auto simp: call_event_def on_non_dispatch_def Let_def split: if_split_asm)
  qed
  have "outcome (obs_steps (rs_observation r) ! i) = ''not_started''" if i: "i < length (cf_calls c)" for i
  proof -
    have "entry_explained c (hw_trace h) st i"
      using a(4) i by (simp add: trace_invariant_def entries_explained_def)
    moreover have "\<not> sent_to c i (hw_trace h)" using none by (simp add: sent_to_def)
    moreover have "length (obs_steps (rs_observation r)) = length (cf_calls c)"
      using validated_length [of inventory report] a(1,2,5) by simp
    ultimately show ?thesis
      using reported_outcome [OF a(3), of i] i unfolding entry_explained_def by (cases "ts_sent st ! i") auto
  qed
  moreover have "sends (hw_trace h) = []" using none by (simp add: sends_def filter_empty_conv)
  ultimately show ?thesis using proved by blast
qed

theorem successor_unsent_witness:
  "sends unsent_trace = [] \<and> non_dispatch_proved sample_config unsent_host"
proof -
  have "rs_successor unsent_result" by (simp add: unsent_result_def)
  from successor_unsent [OF unsent_accepted this] show ?thesis by (simp add: unsent_host_def sample_host_def)
qed

text \<open>
  C22. A session is saved at most once, by permission, and only after the run has ended well:
  after the join, after the candidate was staged and the generation was found current, and
  with no denial before it.
\<close>

theorem save_discipline:
  assumes "observe_browser_report po c inventory report h = Inr r"
    and "hw_trace h = as @ e # bs" "is_event ''session_save'' e"
  shows "(\<forall>d \<in> set as. \<not> is_event ''session_save'' d
            \<and> \<not> (is_event ''interact'' d \<and> te_outcome d = ''deny''))
    \<and> (\<exists>d \<in> set as. is_event ''join'' d) \<and> (\<exists>d \<in> set as. is_event ''candidate'' d)
    \<and> (\<exists>d \<in> set as. is_event ''generation_recheck'' d)
    \<and> (\<exists>i. call_index c e = Some i \<and> save_permitted c h (cf_calls c ! i))"
  using assms(1)
proof (rule observation_facts)
  fix st
  assume v: "validate_config po c"
    and run: "run_events (trace_step c h) (hw_trace h) (start_state c (length (cf_calls c))) = Some st"
  show ?thesis using checked_start [OF v] run [unfolded assms(2)]
  proof (rule tr.run_split)
    fix u w
    assume "checked_invariant po c as u" "trace_step c h e u = Some w"
    then have u: "flags_explained as u" "trace_step c h e u = Some w"
      by (simp_all add: checked_invariant_def trace_invariant_def)
    from u(2) obtain i where i: "call_index c e = Some i" "call_event c h e i u = Some w"
      by (rule trace_step_cases) (use assms(3) in auto)
    then have "\<not> ts_denied u" "ts_joined u" "ts_candidate u" "ts_current u" "\<not> ts_saved u"
      "save_permitted c h (cf_calls c ! i)"
      using assms(3) by (auto simp: call_event_def on_session_save_def Let_def split: if_split_asm)
    with u(1) i(1) show ?thesis by (auto simp: flags_explained_def)
  qed
qed

theorem save_discipline_witness:
  "(\<exists>d \<in> set (take 12 done_trace). is_event ''join'' d)
   \<and> (\<exists>d \<in> set (take 12 done_trace). is_event ''candidate'' d)
   \<and> save_permitted sample_config done_host sample_login"
proof -
  let ?e = "note_event sample_login ''session_save'' ''encrypted-accepted''"
  have split: "hw_trace done_host = take 12 done_trace @ ?e # drop 13 done_trace"
    by (simp add: done_host_def sample_host_def done_trace_def)
  have e: "is_event ''session_save'' ?e" by (simp add: note_event_def sample_event_def)
  have "call_index sample_config ?e = Some 0"
    by (simp add: call_index_def note_event_def sample_event_def sample_config_def sample_login_def)
  then show ?thesis
    using save_discipline [OF done_accepted split e] by (simp add: sample_config_def)
qed

end
