(* ===== verification/Evidence_Binding.thy ===== *)
theory Evidence_Binding
  imports Browser_Sample
begin

text \<open>
  What a verified evidence document is bound to, and a dry run that is verified.
\<close>

subsection \<open>A dry run\<close>

definition dry_observation :: observation_v5 where
  "dry_observation = unknown_v5 run_inventory ''dry_run''"

definition step_tree :: "step_v5 \<Rightarrow> json" where
  "step_tree s =
     JObj [(''step_id'', JStr (step_id s)), (''operation_id'', JStr (operation_id s)),
           (''invocation_id'', JStr (invocation_id s)), (''outcome'', JStr (outcome s))]"

definition dry_steps_tree :: json where
  "dry_steps_tree =
     JObj [(''report_version'', JStr version_v5), (''run_id'', JStr ''run-1''),
           (''workflow_id'', JStr ''orders''),
           (''workflow_digest'', JStr (''sha256:'' @ replicate 64 CHR ''f'')),
           (''state'', JStr ''dry_run''), (''inventory_complete'', JBool False),
           (''steps'', JArr (map step_tree (obs_steps dry_observation)))]"

definition dry_tree :: json where
  "dry_tree =
     JObj [(''version'', JStr run_evidence_version), (''run_id'', JStr ''run-1''),
           (''created_at'', JStr ''2026-01-01T00:30:00Z''), (''scope'', JStr ''orders''),
           (''tier'', JStr ''sandbox''), (''dry_run'', JBool True),
           (''approval_state'', JStr ''approved_for_sandbox''), (''browser'', sample_tree),
           (''executor'', JObj [(''invoked'', JBool False), (''mode'', JStr ''dry_run'')]),
           (''step_execution'', dry_steps_tree)]"

lemma step_tree_neat: "neat (GStruct step_v5_fields) (step_tree s)"
  unfolding step_tree_def by (rule neat_struct) (auto simp: step_v5_fields_def)

lemma dry_tree_neat: "neat (GStruct evidence_fields) dry_tree"
proof -
  have "neat (GStruct executor_fields) (JObj [(''invoked'', JBool False), (''mode'', JStr ''dry_run'')])"
    by (rule neat_struct) (auto simp: executor_fields_def)
  moreover have "neat (GStruct observation_fields) dry_steps_tree"
    unfolding dry_steps_tree_def by (rule neat_struct) (auto simp: observation_fields_def step_tree_neat)
  ultimately show ?thesis
    unfolding dry_tree_def by (intro neat_struct) (auto simp: evidence_fields_def sample_tree_neat)
qed

lemma dry_counts: "node_count dry_steps_tree \<le> 100" "depth_of dry_steps_tree \<le> 5"
  by (simp_all add: dry_steps_tree_def dry_observation_def unknown_v5_def run_inventory_def step_tree_def)

lemma dry_limits:
  "unambiguous GAny dry_tree" "depth_of dry_tree \<le> max_depth" "node_count dry_tree \<le> max_nodes"
  using unambiguous_any [OF neat_facts(2) [OF dry_tree_neat]] dry_counts
  by (simp_all add: dry_tree_def sample_tree_counts max_depth_def max_nodes_def)

lemma dry_printable: "printable dry_tree"
proof -
  have "printable dry_steps_tree" by code_simp
  then show ?thesis using sample_tree_printable by (simp add: dry_tree_def) code_simp
qed

lemmas dry_shape =
  fits_sorted [OF neat_facts(1) [OF dry_tree_neat]]
  unambiguous_sorted [OF neat_facts(2) [OF dry_tree_neat]]
  closed_sorted [OF neat_facts(3) [OF dry_tree_neat] dry_limits(1)]

definition dry_evidence :: browser_evidence where
  "dry_evidence =
     \<lparr>ev_version = run_evidence_version, ev_run_id = ''run-1'', ev_created_at = ''2026-01-01T00:30:00Z'',
      ev_scope = ''orders'', ev_tier = ''sandbox'', ev_dry_run = True,
      ev_approval_state = ''approved_for_sandbox'', ev_browser = sample_config,
      ev_executor = \<lparr>ex_invoked = False, ex_mode = ''dry_run'', ex_report_sha256 = [], ex_report_size = 0\<rparr>,
      ev_steps = Some dry_observation\<rparr>"

lemma dry_steps_read: "observation_of_json (sort_json dry_steps_tree) = dry_observation"
  by code_simp

lemma dry_fields:
  "field_value evidence_fields k (sort_json dry_tree)
     = (case map_of (members dry_tree) k of None \<Rightarrow> JNull | Some v \<Rightarrow> sort_json v)"
proof -
  have "distinct (map fst (members dry_tree))" by (simp add: dry_tree_def members_def)
  moreover have "fst ` set (members dry_tree) \<subseteq> fst ` set evidence_fields"
    by (simp add: dry_tree_def members_def evidence_fields_def)
  moreover have "dry_tree = JObj (members dry_tree)" by (simp add: dry_tree_def members_def)
  ultimately show ?thesis using field_value_sorted [of "members dry_tree" evidence_fields k] by simp
qed

lemma dry_executor_read:
  "executor_of_json (sort_json (JObj [(''invoked'', JBool False), (''mode'', JStr ''dry_run'')]))
     = ev_executor dry_evidence"
  by code_simp

lemma dry_members:
  "map_of (members dry_tree) ''version'' = Some (JStr run_evidence_version)"
  "map_of (members dry_tree) ''run_id'' = Some (JStr ''run-1'')"
  "map_of (members dry_tree) ''created_at'' = Some (JStr ''2026-01-01T00:30:00Z'')"
  "map_of (members dry_tree) ''scope'' = Some (JStr ''orders'')"
  "map_of (members dry_tree) ''tier'' = Some (JStr ''sandbox'')"
  "map_of (members dry_tree) ''dry_run'' = Some (JBool True)"
  "map_of (members dry_tree) ''approval_state'' = Some (JStr ''approved_for_sandbox'')"
  "map_of (members dry_tree) ''browser'' = Some sample_tree"
  "map_of (members dry_tree) ''executor''
     = Some (JObj [(''invoked'', JBool False), (''mode'', JStr ''dry_run'')])"
  "map_of (members dry_tree) ''step_execution'' = Some dry_steps_tree"
  by (simp_all add: dry_tree_def members_def)

lemma dry_evidence_read: "evidence_of_json (sort_json dry_tree) = dry_evidence"
proof -
  have "sort_json dry_steps_tree \<noteq> JNull" by (simp add: dry_steps_tree_def)
  then show ?thesis
    unfolding evidence_of_json_def Let_def dry_fields dry_members option.case dry_executor_read
      sample_tree_config dry_steps_read
    by (simp add: dry_evidence_def str_of_def bool_of_def)
qed

lemma dry_observation_valid: "validate_observation_v5 dry_observation = Inr ()"
  by code_simp

lemma dry_document:
  "decode_contract (GStruct evidence_fields) (marshal dry_tree) = Some (sort_json dry_tree)"
proof -
  have "print_bound dry_tree \<le> 200000"
    by (simp add: dry_tree_def dry_steps_tree_def dry_observation_def unknown_v5_def run_inventory_def step_tree_def sample_step_def
        run_evidence_version_def version_v5_def sample_tree_defs config_version_def decimal.simps [of 7])
  then have len: "int (length (print_json html dry_tree)) \<le> contract_max_bytes"
    "int (length (print_json html (sort_json dry_tree))) \<le> contract_max_bytes" for html
    using length_print [of html dry_tree] length_print [of html "sort_json dry_tree"]
    by (simp_all add: contract_max_bytes_def)
  have "canonical_json (marshal dry_tree) = Some (print_json False (sort_json dry_tree))"
    unfolding marshal_def by (rule canonical_json_print [OF dry_printable dry_limits])
      (use len(1) [of True] in \<open>simp add: contract_max_bytes_def\<close>)
  moreover have "decode_strict (GStruct evidence_fields) (print_json False (sort_json dry_tree))
      = Inr (sort_json dry_tree)"
    unfolding decode_strict_iff using dry_shape(1,2) dry_limits dry_printable len(2) [of False]
    by (simp add: parse_print max_bytes_def contract_max_bytes_def)
  ultimately show ?thesis
    using dry_shape(3) len(1) [of True] by (simp add: decode_contract_def marshal_def)
qed

definition sample_authority_of :: "bytes \<Rightarrow> browser_authority" where
  "sample_authority_of digest =
     \<lparr>ba_version = browser_authority_version, ba_config_sha256 = digest, ba_config = sample_config\<rparr>"

definition dry_options :: "bytes \<Rightarrow> verify_options" where
  "dry_options digest =
     \<lparr>vo_expected = sample_config, vo_authority = sample_authority_of digest, vo_inventory = run_inventory,
      vo_scope = ''orders'', vo_dry_run = True, vo_report = [], vo_host = done_host\<rparr>"

lemma dry_metadata: "evidence_metadata_valid sample_origins Some dry_evidence"
proof -
  have facts: "cf_run_id sample_config = ''run-1''" "cf_workflow sample_config = replicate 64 CHR ''f''"
    "length (cf_calls sample_config) = 2"
    by (simp_all add: sample_config_def)
  have ob: "obs_run_id dry_observation = ''run-1''" "length (obs_steps dry_observation) = 2"
    "obs_workflow_digest dry_observation = ''sha256:'' @ replicate 64 CHR ''f''"
    "obs_state dry_observation = ''dry_run''"
    by (simp_all add: dry_observation_def unknown_v5_def run_inventory_def)
  have same: "same_call_identities (obs_steps dry_observation) (cf_calls sample_config)"
    by (simp add: same_call_identities_def dry_observation_def unknown_v5_def run_inventory_def sample_step_def
        sample_config_def)
  obtain t where "parse_instant ''2026-01-01T00:30:00Z'' = Some t"
  proof -
    have "parse_instant ''2026-01-01T00:30:00Z'' \<noteq> None" by code_simp
    then show ?thesis using that by auto
  qed
  then show ?thesis
    using facts ob same
    by (simp add: evidence_metadata_valid_def dry_evidence_def sample_config_valid dry_observation_valid)
qed

lemma dry_verified:
  assumes "canonical_config_digest sample_config = Some d"
  shows "verify_browser_evidence sample_origins Some (marshal dry_tree) (dry_options d)
    = Inr (dry_evidence, \<lparr>rs_observation = dry_observation, rs_successor = False\<rparr>)"
proof -
  have "digest_valid d"
    using assms by (auto simp: canonical_config_digest_def canonical_digest_def digest_valid_plain sha256_plain
        split: if_split_asm)
  then have "validate_browser_authority sample_origins (sample_authority_of d)"
    by (simp add: validate_browser_authority_def sample_authority_of_def sample_config_valid
        config_digest_def assms)
  moreover have "cf_run_id sample_config = ''run-1''" by (simp add: sample_config_def)
  ultimately have bound: "evidence_bound sample_origins Some (dry_options d) dry_evidence"
    by (simp add: evidence_bound_def dry_metadata dry_options_def same_digest_refl assms sample_config_valid
        sample_authority_of_def) (simp add: dry_evidence_def same_digest_refl assms)
  have opts: "vo_inventory (dry_options d) = run_inventory" "vo_expected (dry_options d) = sample_config"
    "vo_report (dry_options d) = []" by (simp_all add: dry_options_def)
  have "parse_instant ''2026-01-01T00:30:00Z'' \<noteq> None" by code_simp
  then show ?thesis
    using bound sample_inventory_matches
    by (auto simp: verify_browser_evidence_def Let_def opts run_inventory_valid dry_document dry_evidence_read
        dry_evidence_def dry_observation_def)
qed

text \<open>
  C23. Verified evidence is bound to what was expected: its configuration, the one of the
  authority and the expected one have one canonical digest, which is the digest the authority
  carries; run and scope are the requested ones; and unless it is a dry run, the report has the
  recorded digest and the recorded steps are exactly what the report and the trace show.
\<close>

theorem evidence_binds:
  assumes "verify_browser_evidence po clean_path data q = Inr (e, r)"
  shows "canonical_config_digest (ev_browser e) = Some (ba_config_sha256 (vo_authority q))
    \<and> canonical_config_digest (vo_expected q) = Some (ba_config_sha256 (vo_authority q))
    \<and> ev_run_id e = cf_run_id (vo_expected q) \<and> ev_scope e = vo_scope q \<and> ev_dry_run e = vo_dry_run q
    \<and> ev_steps e = Some (rs_observation r)
    \<and> (if ev_dry_run e
       then rs_observation r = unknown_v5 (vo_inventory q) ''dry_run'' \<and> \<not> rs_successor r
       else ex_report_sha256 (ev_executor e) = sha256 (vo_report q)
         \<and> observe_browser_report po (vo_expected q) (vo_inventory q) (vo_report q) (vo_host q) = Inr r)"
proof -
  from assms have b: "evidence_bound po clean_path q e"
    by (auto simp: verify_browser_evidence_def Let_def split: if_split_asm option.splits sum.splits)
  have "config_digest po (ba_config (vo_authority q)) = Some (ba_config_sha256 (vo_authority q))"
    using b by (auto simp: evidence_bound_def validate_browser_authority_def split: if_split_asm)
  then have "canonical_config_digest (ba_config (vo_authority q)) = Some (ba_config_sha256 (vo_authority q))"
    by (auto simp: config_digest_def split: if_split_asm)
  then have "canonical_config_digest (ev_browser e) = Some (ba_config_sha256 (vo_authority q))"
    "canonical_config_digest (vo_expected q) = Some (ba_config_sha256 (vo_authority q))"
    using b by (auto simp: evidence_bound_def same_digest_def split: option.splits)
  moreover have "ev_steps e = Some (rs_observation r)"
    "if ev_dry_run e
       then rs_observation r = unknown_v5 (vo_inventory q) ''dry_run'' \<and> \<not> rs_successor r
       else ex_report_sha256 (ev_executor e) = sha256 (vo_report q)
         \<and> observe_browser_report po (vo_expected q) (vo_inventory q) (vo_report q) (vo_host q) = Inr r"
    using assms by (auto simp: verify_browser_evidence_def Let_def split: if_split_asm option.splits sum.splits)
  ultimately show ?thesis using b by (simp add: evidence_bound_def)
qed


theorem evidence_binds_witness:
  "\<exists>d. canonical_config_digest sample_config = Some d
     \<and> verify_browser_evidence sample_origins Some (marshal dry_tree) (dry_options d)
         = Inr (dry_evidence, \<lparr>rs_observation = dry_observation, rs_successor = False\<rparr>)
     \<and> canonical_config_digest (ev_browser dry_evidence) = Some d
     \<and> ev_steps dry_evidence = Some dry_observation"
proof -
  obtain d where d: "canonical_config_digest sample_config = Some d" using sample_config_digest by blast
  from evidence_binds [OF dry_verified [OF d]] dry_verified [OF d] d show ?thesis
    by (simp add: dry_options_def sample_authority_of_def)
qed

end
