(* ===== verification/Handoff.thy ===== *)
theory Handoff
  imports Go_Json Digest
begin

text \<open>
  Package \<^verbatim>\<open>handoff\<close>, \<^verbatim>\<open>handoff.go\<close>: the review manifest, its defaults, its validator with one
  diagnostic per issue, and the digest of the manifest over itself. The cleaning of relative
  paths (\<^verbatim>\<open>artifact.CleanRelativePath\<close>) is not part of the repository: it is the parameter
  \<^verbatim>\<open>clean\<close>.
\<close>

subsection \<open>Types\<close>

record handoff_input =
  hi_path :: bytes
  hi_purpose :: bytes
  hi_required :: bool
  hi_sha256 :: bytes

record approval_state =
  as_name :: bytes
  as_meaning :: bytes
  as_next :: "bytes list"

text \<open>
  An owner split is a map from names to responsibilities: a list of entries with different
  names, in the order a range over the map visits them.
\<close>

type_synonym owner_split = "(bytes \<times> bytes list) list"

record execution_policy =
  ep_side_effectful :: bool
  ep_required_next :: bytes
  ep_sandbox_state :: bytes
  ep_production_state :: bytes
  ep_direct :: bool

record handoff_credentials =
  hc_declared :: "bytes list"
  hc_expected :: "bytes list"
  hc_values_allowed :: bool

record trusted_runner =
  tr_command :: bytes
  tr_sandbox_only :: bool

record review_handoff =
  rh_version :: bytes
  rh_generated :: bytes
  rh_inputs :: "handoff_input list"
  rh_states :: "approval_state list"
  rh_owners :: owner_split
  rh_policy :: execution_policy
  rh_credentials :: handoff_credentials
  rh_runner :: trusted_runner

text \<open>
  The message of a diagnostic by its format string, with the values put into it. Quoting those
  values for display is left to the reader of a diagnostic.
\<close>

datatype handoff_message =
    VersionNotAllowed bytes
  | NotGenerated
  | NoInput
  | UnsafePath bytes
  | DuplicatePath bytes
  | NeedsDigest bytes
  | NoOwner
  | BlankOwner
  | DuplicateOwner bytes
  | NoResponsibility bytes
  | BlankResponsibility bytes
  | BlankState
  | DuplicateState bytes
  | UndeclaredNext bytes bytes
  | MissingStates
  | ValuesAllowed
  | DirectProduction
  | PolicyField bytes bytes

record diagnostic =
  dg_severity :: bytes
  dg_code :: bytes
  dg_message :: handoff_message

definition issue :: "bytes \<Rightarrow> handoff_message \<Rightarrow> diagnostic" where
  "issue code message = \<lparr>dg_severity = ''error'', dg_code = ''review_handoff.'' @ code, dg_message = message\<rparr>"

subsection \<open>Defaults\<close>

definition review_handoff_version :: bytes where
  "review_handoff_version = ''apitools.review-handoff.v2''"

definition default_review_state_machine :: "approval_state list" where
  "default_review_state_machine =
     [\<lparr>as_name = ''generated'', as_meaning = ''Artifacts were emitted; no approval is implied.'',
       as_next = [''validated'', ''rejected'']\<rparr>,
      \<lparr>as_name = ''validated'',
       as_meaning = ''Required validators and quality gates passed, or known warnings are attached.'',
       as_next = [''review_required'', ''rejected'']\<rparr>,
      \<lparr>as_name = ''review_required'',
       as_meaning = ''Human review is required before side-effectful execution.'',
       as_next = [''approved_for_sandbox'', ''approved_for_production'', ''rejected'']\<rparr>,
      \<lparr>as_name = ''approved_for_sandbox'',
       as_meaning = ''A reviewer approved sandbox or test-endpoint execution only.'',
       as_next = [''review_required'', ''approved_for_production'', ''rejected'']\<rparr>,
      \<lparr>as_name = ''approved_for_production'',
       as_meaning =
         ''A reviewer approved production execution through a trusted runner and approved credentials.'',
       as_next = [''rejected'']\<rparr>,
      \<lparr>as_name = ''rejected'', as_meaning = ''A reviewer rejected the artifact or requested regeneration.'',
       as_next = [''generated'']\<rparr>]"

definition default_review_execution_policy :: "bool \<Rightarrow> execution_policy" where
  "default_review_execution_policy side_effectful =
     (if \<not> side_effectful then
        \<lparr>ep_side_effectful = False, ep_required_next = [], ep_sandbox_state = [],
         ep_production_state = [], ep_direct = False\<rparr>
      else
        \<lparr>ep_side_effectful = True, ep_required_next = ''review_required'',
         ep_sandbox_state = ''approved_for_sandbox'', ep_production_state = ''approved_for_production'',
         ep_direct = False\<rparr>)"

definition review_state_names :: "bytes list" where
  "review_state_names =
     [''generated'', ''validated'', ''review_required'', ''approved_for_sandbox'',
      ''approved_for_production'', ''rejected'']"

definition has_required_states :: "approval_state list \<Rightarrow> bool" where
  "has_required_states states =
     (let found = map (\<lambda>s. trim_space (as_name s)) states
      in list_all (\<lambda>n. n \<in> set found) review_state_names)"

text \<open>
  Copies: the inputs in the stable order of their paths, the credential names sorted. The
  option record has the fields of the manifest, so one type stands for both.
\<close>

definition clone_inputs :: "handoff_input list \<Rightarrow> handoff_input list" where
  "clone_inputs inputs = sort_key hi_path inputs"

definition clone_credentials :: "handoff_credentials \<Rightarrow> handoff_credentials" where
  "clone_credentials b = b\<lparr>hc_declared := sort (hc_declared b), hc_expected := sort (hc_expected b)\<rparr>"

definition new_review_handoff :: "review_handoff \<Rightarrow> review_handoff" where
  "new_review_handoff options =
     (let version = trim_space (rh_version options);
          generated = trim_space (rh_generated options)
      in \<lparr>rh_version = (if version = [] then review_handoff_version else version),
          rh_generated = (if generated = [] then ''generated'' else generated),
          rh_inputs = clone_inputs (rh_inputs options),
          rh_states =
            (if rh_states options = [] then default_review_state_machine else rh_states options),
          rh_owners = rh_owners options, rh_policy = rh_policy options,
          rh_credentials = clone_credentials (rh_credentials options),
          rh_runner = rh_runner options\<rparr>)"

subsection \<open>Validation\<close>

definition valid_review_sha256 :: "bytes \<Rightarrow> bool" where
  "valid_review_sha256 value = (let v = trim_space value in if length v \<noteq> 64 then False else hex_decodable v)"

text \<open>The loops carry the set of names seen.\<close>

fun input_issues :: "(bytes \<Rightarrow> bytes option) \<Rightarrow> bytes list \<Rightarrow> handoff_input list \<Rightarrow> diagnostic list" where
  "input_issues clean seen [] = []"
| "input_issues clean seen (i # rest) =
     (case clean (hi_path i) of
        None \<Rightarrow> issue ''input_path'' (UnsafePath (hi_path i)) # input_issues clean seen rest
      | Some p \<Rightarrow>
          if p \<in> set seen then issue ''input_path'' (DuplicatePath p) # input_issues clean seen rest
          else (if \<not> valid_review_sha256 (hi_sha256 i) then [issue ''input_sha256'' (NeedsDigest p)] else [])
               @ input_issues clean (p # seen) rest)"

definition validate_inputs :: "(bytes \<Rightarrow> bytes option) \<Rightarrow> handoff_input list \<Rightarrow> diagnostic list" where
  "validate_inputs clean inputs =
     (if inputs = [] then [issue ''inputs'' NoInput] else input_issues clean [] inputs)"

fun owner_issues :: "bytes list \<Rightarrow> owner_split \<Rightarrow> diagnostic list" where
  "owner_issues seen [] = []"
| "owner_issues seen ((name, duties) # rest) =
     (let owner = trim_space name
      in if owner = [] then issue ''owner_split'' BlankOwner # owner_issues seen rest
         else (if owner \<in> set seen then [issue ''owner_split'' (DuplicateOwner owner)] else [])
              @ (if duties = [] then [issue ''owner_split'' (NoResponsibility owner)]
                 else if list_ex (\<lambda>d. trim_space d = []) duties
                   then [issue ''owner_split'' (BlankResponsibility owner)]
                 else [])
              @ owner_issues (owner # seen) rest)"

definition validate_owners :: "owner_split \<Rightarrow> diagnostic list" where
  "validate_owners owners =
     (if owners = [] then [issue ''owner_split'' NoOwner] else owner_issues [] owners)"

text \<open>The first loop returns its diagnostics with the declared names.\<close>

fun declared_states :: "bytes list \<Rightarrow> approval_state list \<Rightarrow> diagnostic list \<times> bytes list" where
  "declared_states declared [] = ([], declared)"
| "declared_states declared (s # ss) =
     (let name = trim_space (as_name s)
      in if name = [] then
           (case declared_states declared ss of
              (ds, all) \<Rightarrow> (issue ''approval_states'' BlankState # ds, all))
         else if name \<in> set declared then
           (case declared_states declared ss of
              (ds, all) \<Rightarrow> (issue ''approval_states'' (DuplicateState name) # ds, all))
         else declared_states (name # declared) ss)"

definition next_issues :: "bytes list \<Rightarrow> approval_state \<Rightarrow> diagnostic list" where
  "next_issues declared s =
     map (\<lambda>n. issue ''approval_states'' (UndeclaredNext (trim_space (as_name s)) (trim_space n)))
       (filter (\<lambda>n. trim_space n = [] \<or> trim_space n \<notin> set declared) (as_next s))"

definition validate_states :: "approval_state list \<Rightarrow> diagnostic list" where
  "validate_states states =
     (case declared_states [] states of
        (ds, declared) \<Rightarrow> ds @ concat (map (next_issues declared) states))"

definition string_in_set :: "bytes \<Rightarrow> bytes list \<Rightarrow> bool" where
  "string_in_set value allowed = list_ex (\<lambda>c. trim_space value = trim_space c) allowed"

text \<open>
  The policy fields are visited in the order of a map as well; their diagnostics are listed
  here in the order the fields are written.
\<close>

definition policy_fields :: "execution_policy \<Rightarrow> (bytes \<times> bytes \<times> bytes) list" where
  "policy_fields p =
     [(''required_next_state'', ep_required_next p, ''review_required''),
      (''sandbox_proof_run_state'', ep_sandbox_state p, ''approved_for_sandbox''),
      (''production_execution_state'', ep_production_state p, ''approved_for_production'')]"

definition validate_policy :: "execution_policy \<Rightarrow> diagnostic list" where
  "validate_policy p =
     (if ep_side_effectful p then
        map (\<lambda>(field, value, expected). issue ''execution_policy'' (PolicyField field expected))
          (filter (\<lambda>(field, value, expected). trim_space value \<noteq> expected) (policy_fields p))
      else [])"

text \<open>The options are variadic: the first one counts, when it lists versions.\<close>

definition validate_review_handoff ::
  "(bytes \<Rightarrow> bytes option) \<Rightarrow> review_handoff \<Rightarrow> bytes list list \<Rightarrow> diagnostic list" where
  "validate_review_handoff clean m options =
     (let allowed =
            (if options \<noteq> [] \<and> hd options \<noteq> [] then hd options else [review_handoff_version])
      in (if \<not> string_in_set (rh_version m) allowed
            then [issue ''version'' (VersionNotAllowed (rh_version m))] else [])
         @ (if trim_space (rh_generated m) \<noteq> ''generated'' then [issue ''generated_state'' NotGenerated]
            else [])
         @ validate_inputs clean (rh_inputs m)
         @ validate_owners (rh_owners m)
         @ validate_states (rh_states m)
         @ (if \<not> has_required_states (rh_states m) then [issue ''approval_states'' MissingStates] else [])
         @ (if hc_values_allowed (rh_credentials m) then [issue ''credential_values'' ValuesAllowed]
            else [])
         @ (if ep_direct (rh_policy m) then [issue ''direct_production'' DirectProduction] else [])
         @ validate_policy (rh_policy m))"

subsection \<open>The digest of the manifest\<close>

definition slice_json :: "('a \<Rightarrow> json) \<Rightarrow> 'a list \<Rightarrow> json" where
  "slice_json f xs = (if xs = [] then JNull else JArr (map f xs))"

definition input_json :: "handoff_input \<Rightarrow> json" where
  "input_json i =
     JObj [(''path'', JStr (hi_path i)), (''purpose'', JStr (hi_purpose i)),
           (''required'', JBool (hi_required i)), (''sha256'', JStr (hi_sha256 i))]"

definition omit_strings :: "bytes \<Rightarrow> bytes list \<Rightarrow> (bytes \<times> json) list" where
  "omit_strings k xs = (if xs = [] then [] else [(k, JArr (map JStr xs))])"

definition state_json :: "approval_state \<Rightarrow> json" where
  "state_json s =
     JObj ([(''name'', JStr (as_name s)), (''meaning'', JStr (as_meaning s))]
           @ omit_strings ''allowed_next_states'' (as_next s))"

text \<open>A map is written in the order of its keys, and a copied empty slice or map is nil.\<close>

definition owners_json :: "owner_split \<Rightarrow> json" where
  "owners_json owners =
     (if owners = [] then JNull
      else JObj (map (\<lambda>(name, duties). (name, slice_json JStr duties)) (sort_key fst owners)))"

definition policy_json :: "execution_policy \<Rightarrow> json" where
  "policy_json p =
     JObj ([(''side_effectful'', JBool (ep_side_effectful p))]
           @ omit_str ''required_next_state'' (ep_required_next p)
           @ omit_str ''sandbox_proof_run_state'' (ep_sandbox_state p)
           @ omit_str ''production_execution_state'' (ep_production_state p)
           @ [(''direct_production_execution'', JBool (ep_direct p))])"

definition credentials_json :: "handoff_credentials \<Rightarrow> json" where
  "credentials_json b =
     JObj (omit_strings ''declared'' (hc_declared b)
           @ omit_strings ''expected_from_plan'' (hc_expected b)
           @ [(''values_allowed_in_artifacts'', JBool (hc_values_allowed b))])"

definition runner_json :: "trusted_runner \<Rightarrow> json" where
  "runner_json r =
     JObj (omit_str ''command'' (tr_command r) @ [(''sandbox_only'', JBool (tr_sandbox_only r))])"

definition handoff_json :: "review_handoff \<Rightarrow> json" where
  "handoff_json m =
     JObj [(''version'', JStr (rh_version m)), (''generated_state'', JStr (rh_generated m)),
           (''handoff_inputs'', slice_json input_json (rh_inputs m)),
           (''approval_states'', slice_json state_json (rh_states m)),
           (''owner_split'', owners_json (rh_owners m)),
           (''execution_policy'', policy_json (rh_policy m)),
           (''credential_bindings'', credentials_json (rh_credentials m)),
           (''trusted_runner'', runner_json (rh_runner m))]"

definition clear_self :: "bytes \<Rightarrow> handoff_input list \<Rightarrow> handoff_input list" where
  "clear_self self inputs = map (\<lambda>i. if hi_path i = self then i\<lparr>hi_sha256 := []\<rparr> else i) inputs"

definition self_digest :: "review_handoff \<Rightarrow> bytes \<Rightarrow> bytes option" where
  "self_digest m path =
     (let copy = new_review_handoff m; self = trim_space path
      in if \<not> list_ex (\<lambda>i. hi_path i = self) (rh_inputs copy) then None
         else Some (sha256 (marshal (handoff_json (copy\<lparr>rh_inputs := clear_self self (rh_inputs copy)\<rparr>)))))"

end
