(* ===== verification/Handoff_Review.thy ===== *)
theory Handoff_Review
  imports Handoff
begin

text \<open>
  What the validator of the review manifest accepts, and the default review lifecycle.
\<close>

subsection \<open>What validation accepts\<close>

definition allowed_versions :: "bytes list list \<Rightarrow> bytes list" where
  "allowed_versions options =
     (if options \<noteq> [] \<and> hd options \<noteq> [] then hd options else [review_handoff_version])"

definition inputs_ok :: "(bytes \<Rightarrow> bytes option) \<Rightarrow> handoff_input list \<Rightarrow> bool" where
  "inputs_ok clean inputs =
     (inputs \<noteq> [] \<and> (\<forall>i \<in> set inputs. clean (hi_path i) \<noteq> None \<and> valid_review_sha256 (hi_sha256 i))
      \<and> distinct (map (\<lambda>i. clean (hi_path i)) inputs))"

definition owners_ok :: "owner_split \<Rightarrow> bool" where
  "owners_ok owners =
     (owners \<noteq> []
      \<and> (\<forall>x \<in> set owners.
           trim_space (fst x) \<noteq> [] \<and> snd x \<noteq> [] \<and> (\<forall>d \<in> set (snd x). trim_space d \<noteq> []))
      \<and> distinct (map (\<lambda>x. trim_space (fst x)) owners))"

definition states_ok :: "approval_state list \<Rightarrow> bool" where
  "states_ok states =
     (let names = map (\<lambda>s. trim_space (as_name s)) states
      in [] \<notin> set names \<and> distinct names \<and> set review_state_names \<subseteq> set names
         \<and> (\<forall>s \<in> set states. \<forall>n \<in> set (as_next s). trim_space n \<in> set names))"

definition policy_ok :: "execution_policy \<Rightarrow> bool" where
  "policy_ok p =
     (\<not> ep_direct p
      \<and> (ep_side_effectful p \<longrightarrow>
           trim_space (ep_required_next p) = ''review_required''
           \<and> trim_space (ep_sandbox_state p) = ''approved_for_sandbox''
           \<and> trim_space (ep_production_state p) = ''approved_for_production''))"

lemma input_issues_iff:
  "input_issues clean seen inputs = [] \<longleftrightarrow>
     (\<forall>i \<in> set inputs. (\<exists>p. clean (hi_path i) = Some p \<and> p \<notin> set seen) \<and> valid_review_sha256 (hi_sha256 i))
     \<and> distinct (map (\<lambda>i. clean (hi_path i)) inputs)"
proof (induction inputs arbitrary: seen)
  case (Cons i rest)
  show ?case
    by (cases "clean (hi_path i)") (auto simp: Cons.IH image_iff, metis)
qed simp

lemma owner_issues_iff:
  "owner_issues seen owners = [] \<longleftrightarrow>
     (\<forall>x \<in> set owners. trim_space (fst x) \<noteq> [] \<and> trim_space (fst x) \<notin> set seen \<and> snd x \<noteq> []
        \<and> (\<forall>d \<in> set (snd x). trim_space d \<noteq> []))
     \<and> distinct (map (\<lambda>x. trim_space (fst x)) owners)"
proof (induction owners arbitrary: seen)
  case (Cons x owners)
  obtain name duties where x: "x = (name, duties)" by (cases x)
  show ?case
    unfolding x by (auto simp: Let_def Cons.IH list_ex_iff image_iff split: if_split_asm)
qed simp

lemma declared_states_names:
  "set (snd (declared_states declared ss)) = set declared \<union> (set (map (\<lambda>s. trim_space (as_name s)) ss) - {[]})"
proof (induction ss arbitrary: declared)
  case (Cons s ss)
  show ?case
    using Cons.IH [of declared] Cons.IH [of "trim_space (as_name s) # declared"]
    by (auto simp: Let_def split: prod.splits)
qed simp

lemma declared_states_iff:
  "fst (declared_states declared ss) = [] \<longleftrightarrow>
     [] \<notin> set (map (\<lambda>s. trim_space (as_name s)) ss)
     \<and> set (map (\<lambda>s. trim_space (as_name s)) ss) \<inter> set declared = {}
     \<and> distinct (map (\<lambda>s. trim_space (as_name s)) ss)"
proof (induction ss arbitrary: declared)
  case (Cons s ss)
  show ?case
    by (cases "trim_space (as_name s) = []"; cases "trim_space (as_name s) \<in> set declared")
      (auto simp: Cons.IH split: prod.splits)
qed simp

lemma next_issues_iff:
  "next_issues declared s = [] \<longleftrightarrow> (\<forall>n \<in> set (as_next s). trim_space n \<noteq> [] \<and> trim_space n \<in> set declared)"
  by (auto simp: next_issues_def filter_empty_conv)

lemma validate_states_iff:
  "validate_states states = [] \<and> has_required_states states \<longleftrightarrow> states_ok states"
proof -
  let ?N = "set (map (\<lambda>s. trim_space (as_name s)) states)"
  obtain ds declared where d: "declared_states [] states = (ds, declared)" by (cases "declared_states [] states")
  have names: "set declared = ?N - {[]}" using declared_states_names [of "[]" states] d by simp
  have ds: "ds = [] \<longleftrightarrow> [] \<notin> ?N \<and> distinct (map (\<lambda>s. trim_space (as_name s)) states)"
    using declared_states_iff [of "[]" states] d by simp
  have "[] \<notin> set declared" using names by blast
  then have nexts: "next_issues declared s = [] \<longleftrightarrow> (\<forall>n \<in> set (as_next s). trim_space n \<in> set declared)" for s
    unfolding next_issues_iff by metis
  show ?thesis
  proof (cases "[] \<in> ?N")
    case True
    then show ?thesis unfolding validate_states_def states_ok_def Let_def d prod.case by (simp add: ds)
  next
    case False
    with names have "set declared = ?N" by blast
    note nexts [unfolded this]
    then show ?thesis
      unfolding validate_states_def states_ok_def has_required_states_def Let_def d prod.case append_is_Nil_conv ds
        concat_eq_Nil_conv set_map ball_simps(9)
      using False by (auto simp: list_all_iff)
  qed
qed

lemma validate_policy_iff: "validate_policy p = [] \<and> \<not> ep_direct p \<longleftrightarrow> policy_ok p"
  by (auto simp: validate_policy_def policy_ok_def policy_fields_def)

definition handoff_acceptable ::
  "(bytes \<Rightarrow> bytes option) \<Rightarrow> bytes list list \<Rightarrow> review_handoff \<Rightarrow> bool" where
  "handoff_acceptable clean options m =
     (trim_space (rh_version m) \<in> trim_space ` set (allowed_versions options)
      \<and> trim_space (rh_generated m) = ''generated'' \<and> inputs_ok clean (rh_inputs m)
      \<and> owners_ok (rh_owners m) \<and> states_ok (rh_states m) \<and> \<not> hc_values_allowed (rh_credentials m)
      \<and> policy_ok (rh_policy m))"

lemma validate_inputs_iff: "validate_inputs clean inputs = [] \<longleftrightarrow> inputs_ok clean inputs"
  by (auto simp: validate_inputs_def inputs_ok_def input_issues_iff)

lemma validate_owners_iff: "validate_owners owners = [] \<longleftrightarrow> owners_ok owners"
  by (auto simp: validate_owners_def owners_ok_def owner_issues_iff)

text \<open>
  C24. A manifest has no diagnostic exactly when it is acceptable: an allowed version, the
  generated state, safe and different input paths with full digests, owners with duties, a
  closed machine of different states with all public ones, no credential values, no direct
  production, and the three review states when execution has side effects.
\<close>

theorem validate_review_handoff_accepts:
  "validate_review_handoff clean m options = [] \<longleftrightarrow> handoff_acceptable clean options m"
  unfolding validate_review_handoff_def Let_def allowed_versions_def [symmetric] append_is_Nil_conv
    validate_inputs_iff validate_owners_iff handoff_acceptable_def validate_states_iff [symmetric]
    validate_policy_iff [symmetric]
  by (auto simp: string_in_set_def list_ex_iff split: if_split_asm)

subsection \<open>The review lifecycle\<close>

definition next_states :: "approval_state list \<Rightarrow> bytes \<Rightarrow> bytes list" where
  "next_states states s = concat (map as_next (filter (\<lambda>a. as_name a = s) states))"

text \<open>The states a review passes, the latest first.\<close>

inductive review_run :: "approval_state list \<Rightarrow> bytes list \<Rightarrow> bool" for states where
  start: "review_run states [''generated'']"
| move: "review_run states (s # past) \<Longrightarrow> t \<in> set (next_states states s) \<Longrightarrow> review_run states (t # s # past)"

definition since_generated :: "bytes list \<Rightarrow> bytes list" where
  "since_generated past = takeWhile (\<lambda>s. s \<noteq> ''generated'') past"

lemma approvals_come_from:
  "t \<in> set (next_states default_review_state_machine s) \<Longrightarrow>
     t \<in> {''approved_for_sandbox'', ''approved_for_production''} \<Longrightarrow>
     s = ''review_required'' \<or> s = ''approved_for_sandbox'' \<and> t = ''approved_for_production''"
  by (auto simp: next_states_def default_review_state_machine_def split: if_split_asm)

text \<open>
  C25. In the default lifecycle there is no approval without a review. Whenever a package is
  approved for the sandbox or for production, it was in review since it was last generated.
\<close>

theorem approval_after_review:
  assumes "review_run default_review_state_machine past"
    and "hd past \<in> {''approved_for_sandbox'', ''approved_for_production''}"
  shows "''review_required'' \<in> set (since_generated past)"
  using assms
proof (induction rule: review_run.induct)
  case (move s past t)
  then have t: "t \<in> {''approved_for_sandbox'', ''approved_for_production''}" by simp
  from approvals_come_from [OF move.hyps(2) t]
  show ?case
  proof (elim disjE conjE)
    assume "s = ''approved_for_sandbox''" "t = ''approved_for_production''"
    with move.IH show ?thesis by (simp add: since_generated_def)
  qed (use t in \<open>auto simp: since_generated_def\<close>)
qed simp

theorem approval_after_review_witness:
  "''review_required'' \<in> set (since_generated
     [''approved_for_production'', ''approved_for_sandbox'', ''review_required'', ''validated'', ''generated''])"
proof (rule approval_after_review)
  show "review_run default_review_state_machine
     [''approved_for_production'', ''approved_for_sandbox'', ''review_required'', ''validated'', ''generated'']"
    by (intro review_run.intros) (simp_all add: next_states_def default_review_state_machine_def)
qed simp

end
