(* ===== verification/Handoff_Digest.thy ===== *)
theory Handoff_Digest
  imports Handoff Contract_Tree
begin

text \<open>
  The self digest of the review manifest: it determines the manifest, and the manifest can
  carry it.
\<close>

subsection \<open>Injectivity of the encoding\<close>

lemma slice_json_inj:
  assumes "\<And>x y. f x = f y \<Longrightarrow> x = y" "slice_json f xs = slice_json f ys"
  shows "xs = ys"
  using assms(2) map_inj_on_images [of xs ys f] assms(1)
  by (auto simp: slice_json_def split: if_split_asm)

lemma input_json_inj: "input_json i = input_json j \<Longrightarrow> i = j"
  by (cases i; cases j) (simp add: input_json_def)

lemma omit_strings_inj: "omit_strings k xs = omit_strings k ys \<longleftrightarrow> xs = ys"
  by (auto simp: omit_strings_def)

lemma state_json_inj: "state_json s = state_json t \<Longrightarrow> s = t"
  by (cases s; cases t) (simp add: state_json_def omit_strings_inj)

lemma policy_json_inj: "policy_json p = policy_json q \<Longrightarrow> p = q"
  by (cases p; cases q) (auto simp: policy_json_def omit_str_def split: if_split_asm)

lemma credentials_json_inj: "credentials_json p = credentials_json q \<Longrightarrow> p = q"
  by (cases p; cases q) (auto simp: credentials_json_def omit_strings_def split: if_split_asm)

lemma runner_json_inj: "runner_json p = runner_json q \<Longrightarrow> p = q"
  by (cases p; cases q) (auto simp: runner_json_def omit_str_def split: if_split_asm)

lemma owners_json_inj:
  assumes "owners_json xs = owners_json ys"
  shows "sort_key fst xs = sort_key fst ys"
proof -
  have "map (\<lambda>(name, duties). (name, slice_json JStr duties)) (sort_key fst xs)
      = map (\<lambda>(name, duties). (name, slice_json JStr duties)) (sort_key fst ys)"
    using assms by (auto simp: owners_json_def split: if_split_asm)
  then show ?thesis
    by (rule map_inj_on_images [rotated]) (auto intro: slice_json_inj [of JStr])
qed

lemma inputs_json_inj: "slice_json input_json xs = slice_json input_json ys \<Longrightarrow> xs = ys"
  by (rule slice_json_inj [OF input_json_inj])

lemma states_json_inj: "slice_json state_json xs = slice_json state_json ys \<Longrightarrow> xs = ys"
  by (rule slice_json_inj [OF state_json_inj])

definition sorted_owners :: "review_handoff \<Rightarrow> review_handoff" where
  "sorted_owners m = m\<lparr>rh_owners := sort_key fst (rh_owners m)\<rparr>"

lemma handoff_json_inj: "handoff_json m = handoff_json n \<Longrightarrow> sorted_owners m = sorted_owners n"
  by (cases m; cases n)
    (auto simp: handoff_json_def sorted_owners_def
      dest: inputs_json_inj states_json_inj owners_json_inj
        policy_json_inj credentials_json_inj runner_json_inj)

text \<open>What the self digest is taken of: the copied manifest with its own digest cleared.\<close>

definition digest_view :: "review_handoff \<Rightarrow> bytes \<Rightarrow> review_handoff" where
  "digest_view m path =
     (let copy = new_review_handoff m
      in copy\<lparr>rh_inputs := clear_self (trim_space path) (rh_inputs copy)\<rparr>)"

lemma self_digest_view:
  "self_digest m path = Some d \<Longrightarrow> d = sha256 (marshal (handoff_json (digest_view m path)))"
  by (auto simp: self_digest_def digest_view_def Let_def split: if_split_asm)

text \<open>Writing a digest into the entry of the manifest itself.\<close>

definition write_self :: "bytes \<Rightarrow> bytes \<Rightarrow> review_handoff \<Rightarrow> review_handoff" where
  "write_self path d m =
     m\<lparr>rh_inputs :=
         map (\<lambda>i. if hi_path i = trim_space path then i\<lparr>hi_sha256 := d\<rparr> else i) (rh_inputs m)\<rparr>"

lemma clone_write:
  "clone_inputs (map (\<lambda>i. if hi_path i = p then i\<lparr>hi_sha256 := d\<rparr> else i) inputs)
     = map (\<lambda>i. if hi_path i = p then i\<lparr>hi_sha256 := d\<rparr> else i) (clone_inputs inputs)"
  unfolding clone_inputs_def by (rule sort_key_map) simp

lemma clear_write:
  "clear_self p (map (\<lambda>i. if hi_path i = p then i\<lparr>hi_sha256 := d\<rparr> else i) inputs) = clear_self p inputs"
  by (simp add: clear_self_def)

lemma write_self_new:
  "rh_inputs (new_review_handoff (write_self path d m))
     = map (\<lambda>i. if hi_path i = trim_space path then i\<lparr>hi_sha256 := d\<rparr> else i) (rh_inputs (new_review_handoff m))"
  "new_review_handoff (write_self path d m)\<lparr>rh_inputs := xs\<rparr> = new_review_handoff m\<lparr>rh_inputs := xs\<rparr>"
  by (simp_all add: new_review_handoff_def Let_def write_self_def clone_write)

lemma digest_view_write: "digest_view (write_self path d m) path = digest_view m path"
  unfolding digest_view_def Let_def write_self_new clear_write ..

lemma has_entry_write:
  "list_ex (\<lambda>i. hi_path i = p) (map (\<lambda>i. if hi_path i = p then i\<lparr>hi_sha256 := d\<rparr> else i) xs)
     = list_ex (\<lambda>i. hi_path i = p) xs"
  by (induction xs) auto

lemma self_digest_write: "self_digest (write_self path d m) path = self_digest m path"
  unfolding self_digest_def Let_def write_self_new clear_write has_entry_write ..

text \<open>
  C27. A manifest can carry its own digest: writing any digest into its own entry leaves the
  self digest as it was, so the digest that was computed still verifies afterwards.
\<close>

theorem self_digest_stable: "self_digest (write_self path d m) path = self_digest m path"
  by (rule self_digest_write)

text \<open>
  C26. The self digest binds the manifest. Two manifests with one self digest, whose documents
  can be printed faithfully (every string in them is valid UTF-8), are the same once
  they are copied, their own digests cleared and their owners put in order, unless two
  different texts with one SHA-256 value are at hand. The code digests other strings too, and
  \<^verbatim>\<open>json.Marshal\<close> writes their invalid bytes as the replacement character: without the condition two
  manifests that differ in such bytes share a digest.
\<close>

theorem self_digest_binds:
  assumes "self_digest m p = Some d" "self_digest n q = Some d"
    and "printable (handoff_json (digest_view m p))" "printable (handoff_json (digest_view n q))"
  shows "sorted_owners (digest_view m p) = sorted_owners (digest_view n q)
    \<or> (\<exists>s t. s \<noteq> t \<and> sha256 s = sha256 t)"
proof -
  have same: "sha256 (marshal (handoff_json (digest_view m p))) = sha256 (marshal (handoff_json (digest_view n q)))"
    using self_digest_view [OF assms(1)] self_digest_view [OF assms(2)] by simp
  show ?thesis
  proof (cases "marshal (handoff_json (digest_view m p)) = marshal (handoff_json (digest_view n q))")
    case True
    then show ?thesis using marshal_inj [OF assms(3,4)] handoff_json_inj by blast
  qed (use same in blast)
qed

definition sample_handoff :: review_handoff where
  "sample_handoff =
     \<lparr>rh_version = ''apitools.review-handoff.v2'', rh_generated = ''generated'',
      rh_inputs =
        [\<lparr>hi_path = ''workflow.yaml'', hi_purpose = ''workflow'', hi_required = True,
          hi_sha256 = replicate 64 CHR ''a''\<rparr>,
         \<lparr>hi_path = ''handoff.json'', hi_purpose = ''manifest'', hi_required = True, hi_sha256 = []\<rparr>],
      rh_states = default_review_state_machine,
      rh_owners = [(''reviewer'', [''review'']), (''operator'', [''run''])],
      rh_policy = default_review_execution_policy True,
      rh_credentials = \<lparr>hc_declared = [''shop''], hc_expected = [], hc_values_allowed = False\<rparr>,
      rh_runner = \<lparr>tr_command = ''udon run'', tr_sandbox_only = True\<rparr>\<rparr>"

theorem self_digest_binds_witness:
  "\<exists>d. self_digest sample_handoff ''handoff.json'' = Some d
     \<and> self_digest (write_self ''handoff.json'' d sample_handoff) ''handoff.json'' = Some d
     \<and> (sorted_owners (digest_view sample_handoff ''handoff.json'')
          = sorted_owners (digest_view (write_self ''handoff.json'' d sample_handoff) ''handoff.json'')
        \<or> (\<exists>s t. s \<noteq> t \<and> sha256 s = sha256 t))"
proof -
  have "list_ex (\<lambda>i. hi_path i = trim_space ''handoff.json'') (rh_inputs (new_review_handoff sample_handoff))"
    by code_simp
  then obtain d where d: "self_digest sample_handoff ''handoff.json'' = Some d"
    by (simp add: self_digest_def Let_def)
  have utf: "printable (handoff_json (digest_view sample_handoff ''handoff.json''))" by code_simp
  have w: "self_digest (write_self ''handoff.json'' d sample_handoff) ''handoff.json'' = Some d"
    using d by (simp add: self_digest_write)
  from self_digest_binds [OF d w utf] utf d w show ?thesis by (simp only: digest_view_write) blast
qed

end
