(* ===== verification/Handoff_Wire.thy ===== *)
theory Handoff_Wire
  imports Handoff_Digest Json_Conform
begin

text \<open>
  The review manifest as a document: the types of \<^verbatim>\<open>handoff.go\<close> as strict decoding sees them,
  the record a decoded document gives, and the round trip.
\<close>

definition input_fields :: gofields where
  "input_fields =
     [(''path'', False, GString), (''purpose'', False, GString), (''required'', False, GBool),
      (''sha256'', False, GString)]"

definition state_fields :: gofields where
  "state_fields =
     [(''name'', False, GString), (''meaning'', False, GString),
      (''allowed_next_states'', True, GSlice GString)]"

definition policy_struct :: gofields where
  "policy_struct =
     [(''side_effectful'', False, GBool), (''required_next_state'', True, GString),
      (''sandbox_proof_run_state'', True, GString), (''production_execution_state'', True, GString),
      (''direct_production_execution'', False, GBool)]"

definition credentials_fields :: gofields where
  "credentials_fields =
     [(''declared'', True, GSlice GString), (''expected_from_plan'', True, GSlice GString),
      (''values_allowed_in_artifacts'', False, GBool)]"

definition runner_fields :: gofields where
  "runner_fields = [(''command'', True, GString), (''sandbox_only'', False, GBool)]"

definition handoff_fields :: gofields where
  "handoff_fields =
     [(''version'', False, GString), (''generated_state'', False, GString),
      (''handoff_inputs'', False, GSlice (GStruct input_fields)),
      (''approval_states'', False, GSlice (GStruct state_fields)),
      (''owner_split'', False, GMap (GSlice GString)),
      (''execution_policy'', False, GStruct policy_struct),
      (''credential_bindings'', False, GStruct credentials_fields),
      (''trusted_runner'', False, GStruct runner_fields)]"

definition names_of :: "json \<Rightarrow> bytes list" where
  "names_of j = map str_of (elements j)"

definition input_of_json :: "json \<Rightarrow> handoff_input" where
  "input_of_json j =
     (let v = (\<lambda>name. field_value input_fields name j)
      in \<lparr>hi_path = str_of (v ''path''), hi_purpose = str_of (v ''purpose''),
          hi_required = bool_of (v ''required''), hi_sha256 = str_of (v ''sha256'')\<rparr>)"

definition state_of_json :: "json \<Rightarrow> approval_state" where
  "state_of_json j =
     (let v = (\<lambda>name. field_value state_fields name j)
      in \<lparr>as_name = str_of (v ''name''), as_meaning = str_of (v ''meaning''),
          as_next = names_of (v ''allowed_next_states'')\<rparr>)"

definition policy_of_json :: "json \<Rightarrow> execution_policy" where
  "policy_of_json j =
     (let v = (\<lambda>name. field_value policy_struct name j)
      in \<lparr>ep_side_effectful = bool_of (v ''side_effectful''),
          ep_required_next = str_of (v ''required_next_state''),
          ep_sandbox_state = str_of (v ''sandbox_proof_run_state''),
          ep_production_state = str_of (v ''production_execution_state''),
          ep_direct = bool_of (v ''direct_production_execution'')\<rparr>)"

definition credentials_of_json :: "json \<Rightarrow> handoff_credentials" where
  "credentials_of_json j =
     (let v = (\<lambda>name. field_value credentials_fields name j)
      in \<lparr>hc_declared = names_of (v ''declared''), hc_expected = names_of (v ''expected_from_plan''),
          hc_values_allowed = bool_of (v ''values_allowed_in_artifacts'')\<rparr>)"

definition runner_of_json :: "json \<Rightarrow> trusted_runner" where
  "runner_of_json j =
     \<lparr>tr_command = str_of (field_value runner_fields ''command'' j),
      tr_sandbox_only = bool_of (field_value runner_fields ''sandbox_only'' j)\<rparr>"

definition handoff_of_json :: "json \<Rightarrow> review_handoff" where
  "handoff_of_json j =
     (let v = (\<lambda>name. field_value handoff_fields name j)
      in \<lparr>rh_version = str_of (v ''version''), rh_generated = str_of (v ''generated_state''),
          rh_inputs = map input_of_json (elements (v ''handoff_inputs'')),
          rh_states = map state_of_json (elements (v ''approval_states'')),
          rh_owners = map (\<lambda>(name, duties). (name, names_of duties)) (members (v ''owner_split'')),
          rh_policy = policy_of_json (v ''execution_policy''),
          rh_credentials = credentials_of_json (v ''credential_bindings''),
          rh_runner = runner_of_json (v ''trusted_runner'')\<rparr>)"

subsection \<open>The round trip\<close>

lemma names_of_strings [simp]: "names_of (JArr (map JStr xs)) = xs" "names_of JNull = []"
  by (simp_all add: names_of_def elements_def str_of_def comp_def)

lemma names_of_slice [simp]: "names_of (slice_json JStr xs) = xs"
  by (simp add: slice_json_def)

lemma elements_slice: "elements (slice_json f xs) = map f xs"
  by (simp add: slice_json_def elements_def)

lemmas field_tables = input_fields_def state_fields_def policy_struct_def credentials_fields_def
  runner_fields_def handoff_fields_def

lemma omitted_strings:
  "map_of (omit_strings k xs @ ms) a = (if a = k \<and> xs \<noteq> [] then Some (JArr (map JStr xs)) else map_of ms a)"
  "map_of (omit_strings k xs) a = (if a = k \<and> xs \<noteq> [] then Some (JArr (map JStr xs)) else None)"
  by (auto simp: omit_strings_def)

lemma omitted_string_keys [simp]: "fst ` set (omit_strings k xs) = (if xs = [] then {} else {k})"
  by (simp add: omit_strings_def)

lemmas read_defs = Let_def field_value_exact field_tables image_Un map_of_omit omitted_strings str_of_def
  bool_of_def

declare map_of_append [simp del]

lemma input_read [simp]: "input_of_json (input_json i) = i"
  by (cases i) (simp add: input_of_json_def input_json_def read_defs)

lemma state_read [simp]: "state_of_json (state_json s) = s"
  by (cases s) (simp add: state_of_json_def state_json_def read_defs)

lemma policy_read [simp]: "policy_of_json (policy_json p) = p"
  by (cases p) (simp add: policy_of_json_def policy_json_def read_defs)

lemma credentials_read [simp]: "credentials_of_json (credentials_json c) = c"
  by (cases c) (simp add: credentials_of_json_def credentials_json_def read_defs)

lemma runner_read [simp]: "runner_of_json (runner_json r) = r"
  by (cases r) (simp add: runner_of_json_def runner_json_def read_defs)

lemma owners_read [simp]:
  "map (\<lambda>(name, duties). (name, names_of duties)) (members (owners_json owners)) = sort_key fst owners"
  by (simp add: owners_json_def members_def split_def comp_def)

lemma handoff_read: "handoff_of_json (handoff_json m) = sorted_owners m"
  by (cases m)
    (simp add: handoff_of_json_def handoff_json_def sorted_owners_def Let_def field_value_exact field_tables
      elements_slice str_of_def comp_def)


lemma slice_conforms: "(\<And>x. conforms u (f x)) \<Longrightarrow> conforms (GSlice u) (slice_json f xs)"
  by (auto simp: slice_json_def)

lemma optional_members:
  "m \<in> set (omit_str k s) \<longleftrightarrow> s \<noteq> [] \<and> m = (k, JStr s)"
  "m \<in> set (omit_strings k xs) \<longleftrightarrow> xs \<noteq> [] \<and> m = (k, JArr (map JStr xs))"
  by (auto simp: omit_str_def omit_strings_def)

lemma keys_omit_strings: "map fst (omit_strings k xs) = (if xs = [] then [] else [k])"
  by (simp add: omit_strings_def)

lemmas conform_defs = ex_bool_eq field_tables keys_omit keys_omit_strings optional_members

lemma input_conforms: "conforms (GStruct input_fields) (input_json i)"
  unfolding input_json_def by (rule conforms_struct) (simp_all add: conform_defs)

lemma state_conforms: "conforms (GStruct state_fields) (state_json s)"
  unfolding state_json_def by (rule conforms_struct) (auto simp: conform_defs)

lemma policy_conforms: "conforms (GStruct policy_struct) (policy_json p)"
  unfolding policy_json_def by (rule conforms_struct) (auto simp: conform_defs)

lemma credentials_conform: "conforms (GStruct credentials_fields) (credentials_json c)"
  unfolding credentials_json_def by (rule conforms_struct) (auto simp: conform_defs)

lemma runner_conforms: "conforms (GStruct runner_fields) (runner_json r)"
  unfolding runner_json_def by (rule conforms_struct) (auto simp: conform_defs)

lemma owners_conform: "distinct (map fst owners) \<Longrightarrow> conforms (GMap (GSlice GString)) (owners_json owners)"
proof -
  assume d: "distinct (map fst owners)"
  have "distinct (map fst (sort_key fst owners))"
    using d by (metis mset_map mset_sort mset_eq_imp_distinct_iff)
  then show ?thesis
    by (auto simp: owners_json_def comp_def split_def slice_conforms)
qed

lemma handoff_conforms:
  assumes "distinct (map fst (rh_owners m))"
  shows "conforms (GStruct handoff_fields) (handoff_json m)"
  unfolding handoff_json_def
proof (rule conforms_struct)
  show "\<forall>ms \<in> set [(''version'', JStr (rh_version m)), (''generated_state'', JStr (rh_generated m)),
           (''handoff_inputs'', slice_json input_json (rh_inputs m)),
           (''approval_states'', slice_json state_json (rh_states m)),
           (''owner_split'', owners_json (rh_owners m)),
           (''execution_policy'', policy_json (rh_policy m)),
           (''credential_bindings'', credentials_json (rh_credentials m)),
           (''trusted_runner'', runner_json (rh_runner m))].
      \<exists>b u. map_of handoff_fields (fst ms) = Some (b, u) \<and> conforms u (snd ms)"
    using owners_conform [OF assms] policy_conforms credentials_conform runner_conforms
      slice_conforms [of "GStruct input_fields" input_json] input_conforms
      slice_conforms [of "GStruct state_fields" state_json] state_conforms
    by (simp add: handoff_fields_def ex_bool_eq)
qed simp

lemma flat_strings: "depth_of (JArr (map JStr xs)) = 1"
proof -
  have "foldr max (map depth_of (map JStr xs)) 0 = 0" by (induction xs) simp_all
  then show ?thesis by simp
qed

lemma slice_depth: "(\<And>x. depth_of (f x) \<le> b) \<Longrightarrow> 0 \<le> b \<Longrightarrow> depth_of (slice_json f xs) \<le> b + 1"
  by (auto simp: slice_json_def foldr_max_le)

lemma flat_slice: "depth_of (slice_json JStr xs) \<le> 1"
  using slice_depth [of JStr 0] by simp

lemma handoff_depth: "depth_of (handoff_json m) \<le> 4"
proof -
  have "depth_of (input_json i) \<le> 2" for i by (simp add: input_json_def)
  moreover have "depth_of (state_json s) \<le> 2" for s
    by (simp add: state_json_def optional_members flat_strings foldr_max_le)
  moreover have "depth_of (owners_json x) \<le> 3" for x
    using flat_slice order.trans [OF flat_slice]
    by (auto simp: owners_json_def foldr_max_le)
  moreover have "depth_of (policy_json p) \<le> 2 + 1" for p
    unfolding policy_json_def by (rule object_depth) (auto simp: optional_members flat_strings)
  moreover have "depth_of (credentials_json c) \<le> 2 + 1" for c
    unfolding credentials_json_def
    by (rule object_depth) (auto simp: optional_members foldr_max_le)
  moreover have "depth_of (runner_json r) \<le> 2 + 1" for r
    unfolding runner_json_def by (rule object_depth) (auto simp: optional_members flat_strings)
  ultimately have parts: "depth_of (slice_json input_json xs) \<le> 3" "depth_of (slice_json state_json ss) \<le> 3"
    "depth_of (owners_json x) \<le> 3" "depth_of (policy_json p) \<le> 3" "depth_of (credentials_json c) \<le> 3"
    "depth_of (runner_json r) \<le> 3" for xs ss x p c r
    using slice_depth [of input_json 2 xs] slice_depth [of state_json 2 ss] by simp_all
  have "depth_of (handoff_json m) \<le> 3 + 1"
    unfolding handoff_json_def by (rule object_depth) (simp_all add: parts)
  then show ?thesis by simp
qed

lemma handoff_decodes:
  assumes "printable (handoff_json m)" "distinct (map fst (rh_owners m))"
    and "print_bound (handoff_json m) \<le> max_bytes" "node_count (handoff_json m) \<le> max_nodes"
  shows "decode_strict (GStruct handoff_fields) (marshal (handoff_json m)) = Inr (handoff_json m)"
  unfolding marshal_def
  by (rule decode_print [OF assms(1) handoff_conforms [OF assms(2)] assms(3) _ assms(4)])
    (use handoff_depth [of m] in \<open>simp add: max_depth_def\<close>)

text \<open>
  C31. A manifest survives encoding and strict decoding: with strings in UTF-8 and owners under
  distinct names, when the bound of the printed size (six bytes for every byte of a string) is
  within the limit of bytes and the values are within theirs, the document decodes, and the
  manifest read from it is the one that was written, its owners in the order of their names.
\<close>

theorem handoff_roundtrip:
  assumes "printable (handoff_json m)" "distinct (map fst (rh_owners m))"
    and "print_bound (handoff_json m) \<le> max_bytes" "node_count (handoff_json m) \<le> max_nodes"
  shows "\<exists>j. decode_strict (GStruct handoff_fields) (marshal (handoff_json m)) = Inr j
    \<and> handoff_of_json j = sorted_owners m"
  using handoff_decodes [OF assms] handoff_read by blast

lemma sample_handoff_small:
  "print_bound (handoff_json sample_handoff) \<le> max_bytes" "node_count (handoff_json sample_handoff) \<le> max_nodes"
  by code_simp+

theorem handoff_roundtrip_witness:
  "\<exists>j. decode_strict (GStruct handoff_fields) (marshal (handoff_json sample_handoff)) = Inr j
    \<and> handoff_of_json j = sorted_owners sample_handoff"
  by (rule handoff_roundtrip [OF _ _ sample_handoff_small]) code_simp+

end
