(* ===== verification/Digest_Files.thy ===== *)
theory Digest_Files
  imports Contract_Tree Authority
begin

text \<open>
  Package \<^verbatim>\<open>handoff\<close>, \<^verbatim>\<open>digest.go\<close>: the digest of an inventory of files that are already hashed,
  and the lexical path functions of Go it uses. \<^verbatim>\<open>clean\<close> is the cleaning of relative paths, as
  in the review manifest.
\<close>

subsection \<open>Paths\<close>

text \<open>\<^verbatim>\<open>path.Clean\<close>: the elements of the path pushed on a stack, the last one on top.\<close>

definition push_element :: "bool \<Rightarrow> bytes list \<Rightarrow> bytes \<Rightarrow> bytes list" where
  "push_element rooted stack c =
     (if c = [] \<or> c = ''.'' then stack
      else if c = ''..'' then
        (case stack of
           [] \<Rightarrow> if rooted then [] else [''..'']
         | t # ts \<Rightarrow> if t = ''..'' then ''..'' # stack else ts)
      else c # stack)"

definition path_clean :: "bytes \<Rightarrow> bytes" where
  "path_clean s =
     (let rooted = (s \<noteq> [] \<and> hd s = CHR ''/'');
          body = join ''/'' (rev (foldl (push_element rooted) [] (split_at CHR ''/'' s)))
      in if rooted then CHR ''/'' # body else if body = [] then ''.'' else body)"

text \<open>\<^verbatim>\<open>filepath.Join\<close>: empty elements are left out, and the result is clean.\<close>

definition path_join :: "bytes list \<Rightarrow> bytes" where
  "path_join xs =
     (let ys = filter (\<lambda>x. x \<noteq> []) xs in if ys = [] then [] else path_clean (join ''/'' ys))"

definition trim_slashes :: "bytes \<Rightarrow> bytes" where
  "trim_slashes s =
     rev (dropWhile (\<lambda>c. c = CHR ''/'') (rev (dropWhile (\<lambda>c. c = CHR ''/'') s)))"

subsection \<open>The digest\<close>

record digest_file =
  df_path :: bytes
  df_sha256 :: bytes

datatype inventory_error = LimitExceeded | InvalidInventory

text \<open>The loop over the files with the clean paths seen. On the target system a path has no other separator than the slash.\<close>

fun normalize_files ::
  "(bytes \<Rightarrow> bytes option) \<Rightarrow> bytes \<Rightarrow> bytes list \<Rightarrow> digest_file list \<Rightarrow> digest_file list option"
where
  "normalize_files clean scope seen [] = Some []"
| "normalize_files clean scope seen (f # fs) =
     (case clean (df_path f) of
        None \<Rightarrow> None
      | Some p \<Rightarrow>
          if p \<in> set seen \<or> \<not> valid_sha256 (df_sha256 f) \<or> length (df_sha256 f) \<noteq> 64
             \<or> to_lower (df_sha256 f) \<noteq> df_sha256 f then None
          else map_option
                 (\<lambda>rest. \<lparr>df_path = (if scope \<noteq> [] then path_join [scope, p] else p), df_sha256 = df_sha256 f\<rparr>
                          # rest)
                 (normalize_files clean scope (p # seen) fs))"

definition file_json :: "digest_file \<Rightarrow> json" where
  "file_json f = JObj [(''path'', JStr (df_path f)), (''sha256'', JStr (df_sha256 f))]"

definition digest_envelope :: "bytes \<Rightarrow> bytes \<Rightarrow> digest_file list \<Rightarrow> json" where
  "digest_envelope version scope files =
     JObj [(''version'', JStr version), (''scope'', JStr scope),
           (''files'', if files = [] then JNull else JArr (map file_json files))]"

definition digest_scope :: "bytes \<Rightarrow> bytes" where
  "digest_scope scope = trim_slashes (trim_space scope)"

definition digest_version :: "bytes \<Rightarrow> bytes" where
  "digest_version version =
     (let v = trim_space version in if v = [] then ''openudon.review-handoff-digest.v1'' else v)"

definition digest_files ::
  "(bytes \<Rightarrow> bytes option) \<Rightarrow> bytes \<Rightarrow> bytes \<Rightarrow> digest_file list \<Rightarrow> inventory_error + bytes"
where
  "digest_files clean scope version files =
     (if 1024 < length files \<or> 2048 < length scope \<or> 128 < length version then Inl LimitExceeded
      else case normalize_files clean (digest_scope scope) [] files of
        None \<Rightarrow> Inl InvalidInventory
      | Some fs \<Rightarrow>
          Inr (sha256 (marshal
                 (digest_envelope (digest_version version) (digest_scope scope) (sort_key df_path fs)))))"

subsection \<open>What the digest determines\<close>

definition file_entry :: "(bytes \<Rightarrow> bytes option) \<Rightarrow> bytes \<Rightarrow> digest_file \<Rightarrow> digest_file" where
  "file_entry clean scope f =
     (let p = the (clean (df_path f))
      in \<lparr>df_path = (if scope \<noteq> [] then path_join [scope, p] else p), df_sha256 = df_sha256 f\<rparr>)"

definition file_ok :: "(bytes \<Rightarrow> bytes option) \<Rightarrow> digest_file \<Rightarrow> bool" where
  "file_ok clean f = (clean (df_path f) \<noteq> None \<and> plain_sha256 (df_sha256 f))"

lemma strict_hash_iff:
  "valid_sha256 h \<and> length h = 64 \<and> to_lower h = h \<longleftrightarrow> plain_sha256 h"
  using strict_digest_plain [of h] by (auto simp: strict_digest_def)

lemma normalize_files_iff:
  "normalize_files clean scope seen fs = Some out \<longleftrightarrow>
     (\<forall>f \<in> set fs. file_ok clean f \<and> the (clean (df_path f)) \<notin> set seen)
     \<and> distinct (map (\<lambda>f. the (clean (df_path f))) fs) \<and> out = map (file_entry clean scope) fs"
proof (induction fs arbitrary: seen out)
  case (Cons f fs)
  show ?case
  proof (cases "clean (df_path f)")
    case (Some p)
    have ok: "\<not> (p \<in> set seen \<or> \<not> valid_sha256 (df_sha256 f) \<or> length (df_sha256 f) \<noteq> 64
        \<or> to_lower (df_sha256 f) \<noteq> df_sha256 f) \<longleftrightarrow> p \<notin> set seen \<and> file_ok clean f"
      using strict_hash_iff [of "df_sha256 f"] Some by (auto simp: file_ok_def)
    show ?thesis
      using ok by (auto simp: Some Cons.IH file_entry_def Let_def image_iff split: if_split_asm)
  qed (auto simp: file_ok_def)
qed auto


lemma sorted_same:
  "sort_key df_path xs = sort_key df_path ys \<Longrightarrow> mset xs = mset ys"
  by (metis mset_sort)

lemma file_json_inj: "file_json f = file_json g \<Longrightarrow> f = g"
  by (cases f; cases g) (simp add: file_json_def)

lemma envelope_inj:
  assumes "digest_envelope v s fs = digest_envelope v' s' gs"
  shows "v = v' \<and> s = s' \<and> fs = gs"
  using assms map_inj_on_images [of fs gs file_json] file_json_inj
  by (auto simp: digest_envelope_def split: if_split_asm)

lemma normalize_files_start:
  "normalize_files clean scope [] fs =
     (if (\<forall>f \<in> set fs. file_ok clean f) \<and> distinct (map (\<lambda>f. the (clean (df_path f))) fs)
      then Some (map (file_entry clean scope) fs) else None)"
proof (cases "normalize_files clean scope [] fs")
  case None
  then show ?thesis using normalize_files_iff [of clean scope "[]" fs "map (file_entry clean scope) fs"] by auto
next
  case (Some out)
  then show ?thesis using normalize_files_iff [of clean scope "[]" fs out] by auto
qed

lemma digest_files_Inr:
  "digest_files clean scope version fs = Inr d \<longleftrightarrow>
     length fs \<le> 1024 \<and> length scope \<le> 2048 \<and> length version \<le> 128
     \<and> (\<forall>f \<in> set fs. file_ok clean f) \<and> distinct (map (\<lambda>f. the (clean (df_path f))) fs)
     \<and> d = sha256 (marshal (digest_envelope (digest_version version) (digest_scope scope)
              (sort_key df_path (map (file_entry clean (digest_scope scope)) fs))))"
  by (auto simp: digest_files_def normalize_files_start not_less)

text \<open>The text of the envelope is valid UTF-8 as soon as the names put into it are.\<close>

definition utf8_inventory :: "(bytes \<Rightarrow> bytes option) \<Rightarrow> bytes \<Rightarrow> bytes \<Rightarrow> digest_file list \<Rightarrow> bool" where
  "utf8_inventory clean scope version fs =
     (utf8_valid (digest_version version) \<and> utf8_valid (digest_scope scope)
      \<and> (\<forall>f \<in> set fs. utf8_valid (df_path (file_entry clean (digest_scope scope) f))))"

lemma plain_sha256_utf8: "plain_sha256 h \<Longrightarrow> utf8_valid h"
  by (rule ascii_piece) (auto simp: plain_sha256_def list_all_iff class_defs)

lemma printable_envelope:
  "utf8_inventory clean scope version fs \<Longrightarrow> \<forall>f \<in> set fs. file_ok clean f \<Longrightarrow>
     printable (digest_envelope (digest_version version) (digest_scope scope)
       (sort_key df_path (map (file_entry clean (digest_scope scope)) fs)))"
  by (auto simp: utf8_inventory_def digest_envelope_def file_json_def file_ok_def file_entry_def Let_def
      plain_sha256_utf8)

lemma digest_files_same:
  assumes "digest_files clean scope version fs = Inr d" "digest_files clean' scope' version' gs = Inr d"
    and "utf8_inventory clean scope version fs" "utf8_inventory clean' scope' version' gs"
  shows "digest_version version = digest_version version' \<and> digest_scope scope = digest_scope scope'
      \<and> mset (map (file_entry clean (digest_scope scope)) fs)
          = mset (map (file_entry clean' (digest_scope scope')) gs)
    \<or> (\<exists>s t. s \<noteq> t \<and> sha256 s = sha256 t)"
proof -
  let ?E = "\<lambda>c s v fs. digest_envelope (digest_version v) (digest_scope s)
      (sort_key df_path (map (file_entry c (digest_scope s)) fs))"
  note a = assms(1) [unfolded digest_files_Inr] and b = assms(2) [unfolded digest_files_Inr]
  have same: "sha256 (marshal (?E clean scope version fs)) = sha256 (marshal (?E clean' scope' version' gs))"
    using a b by simp
  have p: "printable (?E clean scope version fs)" "printable (?E clean' scope' version' gs)"
    using a b assms(3,4) printable_envelope by blast+
  show ?thesis
  proof (cases "marshal (?E clean scope version fs) = marshal (?E clean' scope' version' gs)")
    case True
    from envelope_inj [OF True [unfolded marshal_inj [OF p]]] show ?thesis using sorted_same by blast
  qed (use same in blast)
qed

text \<open>
  C30. The digest of an inventory determines it: when the version, the scope and the paths that
  enter the two digests are valid UTF-8, equal digests mean one version, one scope and
  the same files under the same digests, in whatever order they were listed, unless two
  different texts with one SHA-256 value are at hand. The code accepts other bytes as well, and
  \<^verbatim>\<open>json.Marshal\<close> maps them to the replacement character; the lemma after this theorem shows two
  versions with one digest.
\<close>

theorem digest_files_binds:
  assumes "digest_files clean scope version fs = Inr d" "digest_files clean' scope' version' gs = Inr d"
    and "utf8_inventory clean scope version fs" "utf8_inventory clean' scope' version' gs"
  shows "digest_version version = digest_version version' \<and> digest_scope scope = digest_scope scope'
      \<and> mset (map (file_entry clean (digest_scope scope)) fs)
          = mset (map (file_entry clean' (digest_scope scope')) gs)
    \<or> (\<exists>s t. s \<noteq> t \<and> sha256 s = sha256 t)"
  using assms by (rule digest_files_same)

text \<open>Two versions that are not UTF-8 are printed alike, and the digests of their inventories agree.\<close>

lemma versions_quoted_alike: "quoted True [CHR 0xFF] = quoted True [CHR 0xFE]"
  by code_simp

lemma invalid_versions_share_digest:
  "digest_files clean scope [CHR 0xFF] fs = digest_files clean scope [CHR 0xFE] fs"
proof -
  have "digest_version [CHR 0xFF] = [CHR 0xFF]" "digest_version [CHR 0xFE] = [CHR 0xFE]"
    by code_simp+
  then have "marshal (digest_envelope (digest_version [CHR 0xFF]) s gs)
      = marshal (digest_envelope (digest_version [CHR 0xFE]) s gs)" for s gs
    using versions_quoted_alike by (simp add: digest_envelope_def marshal_def)
  then show ?thesis unfolding digest_files_def by (simp cong: option.case_cong)
qed

subsection \<open>Joined paths\<close>

lemma split_at_not_Nil [simp]: "split_at c s \<noteq> []"
  by (induction s) (auto split: list.splits)

lemma split_at_append: "split_at c (a @ c # b) = split_at c a @ split_at c b"
proof (induction a)
  case (Cons x a)
  then show ?case by (cases "split_at c a") auto
qed simp

lemma join_split: "join [c] (split_at c s) = s"
proof (induction s)
  case (Cons x s)
  then show ?case by (cases "split_at c s"; cases "tl (split_at c s)") auto
qed simp

lemma join_append: "xs \<noteq> [] \<Longrightarrow> ys \<noteq> [] \<Longrightarrow> join sep (xs @ ys) = join sep xs @ sep @ join sep ys"
proof (induction sep xs rule: join.induct)
  case (2 sep x)
  then show ?case by (cases ys) auto
qed auto

definition normal_element :: "bytes \<Rightarrow> bool" where
  "normal_element c = (c \<noteq> [] \<and> c \<noteq> ''.'' \<and> c \<noteq> ''..'')"

definition normal_path :: "bytes \<Rightarrow> bool" where
  "normal_path p = list_all normal_element (split_at CHR ''/'' p)"

lemma push_element_normal: "normal_element c \<Longrightarrow> push_element r st c = c # st"
  by (simp only: push_element_def normal_element_def if_False simp_thms)

lemma push_normal: "list_all normal_element cs \<Longrightarrow> foldl (push_element r) st cs = rev cs @ st"
  by (induction cs arbitrary: st) (simp_all add: push_element_normal)

lemma normal_not_Nil: "normal_path p \<Longrightarrow> p \<noteq> []"
  by (rule notI) (simp add: normal_path_def normal_element_def)

lemma path_join_inj:
  assumes "scope \<noteq> []" "normal_path p" "normal_path q" "path_join [scope, p] = path_join [scope, q]"
  shows "p = q"
proof -
  let ?r = "hd scope = CHR ''/''"
  let ?S = "rev (foldl (push_element ?r) [] (split_at CHR ''/'' scope))"
  have j: "path_join [scope, x] = (if ?r then CHR ''/'' # join ''/'' (?S @ split_at CHR ''/'' x)
      else join ''/'' (?S @ split_at CHR ''/'' x))" if x: "normal_path x" for x
  proof -
    have "scope @ ''/'' @ x \<noteq> []" "hd (scope @ ''/'' @ x) = hd scope" using assms(1) by simp_all
    moreover have "split_at CHR ''/'' (scope @ ''/'' @ x) = split_at CHR ''/'' scope @ split_at CHR ''/'' x"
      using split_at_append [of "CHR ''/''" scope x] by simp
    moreover have "foldl (push_element r) st (split_at CHR ''/'' x) = rev (split_at CHR ''/'' x) @ st" for r st
      by (rule push_normal) (use x in \<open>simp add: normal_path_def\<close>)
    moreover have "join ''/'' (?S @ split_at CHR ''/'' x) \<noteq> []"
      using normal_not_Nil [OF x] by (cases "?S = []") (simp_all add: join_split join_append)
    ultimately show ?thesis
      using normal_not_Nil [OF x] assms(1)
      by (cases ?r) (simp_all add: path_join_def path_clean_def Let_def)
  qed
  have "join ''/'' (?S @ split_at CHR ''/'' p) = join ''/'' (?S @ split_at CHR ''/'' q)"
    using assms(4) unfolding j [OF assms(2)] j [OF assms(3)] by (simp split: if_split_asm)
  then show ?thesis by (cases "?S = []") (simp_all add: join_split join_append)
qed

lemma entry_path_inj:
  assumes "df_path (file_entry clean scope f) = df_path (file_entry clean scope g)"
    and "clean (df_path f) = Some p" "clean (df_path g) = Some q" "normal_path p" "normal_path q"
  shows "p = q"
  using assms path_join_inj [of scope p q] by (cases "scope = []") (simp_all add: file_entry_def Let_def)

lemma entries_distinct:
  assumes normal: "\<And>p q. clean p = Some q \<Longrightarrow> normal_path q"
    and ok: "\<forall>f \<in> set fs. file_ok clean f" "distinct (map (\<lambda>f. the (clean (df_path f))) fs)"
  shows "inj_on df_path (set (map (file_entry clean scope) fs))"
proof -
  have "file_entry clean scope f = file_entry clean scope g"
    if f: "f \<in> set fs" "g \<in> set fs" and e: "df_path (file_entry clean scope f) = df_path (file_entry clean scope g)"
    for f g
  proof -
    obtain p q where pq: "clean (df_path f) = Some p" "clean (df_path g) = Some q"
      using ok(1) f unfolding file_ok_def by (meson not_None_eq)
    have "p = q"
      by (rule entry_path_inj [OF e pq normal [OF pq(1)] normal [OF pq(2)]])
    then have "the (clean (df_path f)) = the (clean (df_path g))" by (simp add: pq)
    then have "f = g" using ok(2) f by (auto simp: distinct_map dest: inj_onD)
    then show ?thesis by simp
  qed
  then show ?thesis by (auto intro!: inj_onI)
qed

text \<open>
  The order in which the files are listed does not matter, when cleaned paths are normal:
  no empty, dot or dot-dot element.
\<close>

theorem digest_files_order:
  assumes normal: "\<And>p q. clean p = Some q \<Longrightarrow> normal_path q" and perm: "mset fs = mset gs"
  shows "digest_files clean scope version fs = digest_files clean scope version gs"
proof -
  let ?e = "file_entry clean (digest_scope scope)"
  have len: "length fs = length gs" using perm by (rule mset_eq_length)
  have sets: "set fs = set gs" using perm by (rule mset_eq_setD)
  have dist: "distinct (map h fs) = distinct (map h gs)" for h :: "digest_file \<Rightarrow> bytes"
    using perm by (metis mset_eq_imp_distinct_iff mset_map)
  have sorted: "sort_key df_path (map ?e fs) = sort_key df_path (map ?e gs)"
    if ok: "\<forall>f \<in> set fs. file_ok clean f" "distinct (map (\<lambda>f. the (clean (df_path f))) fs)"
  proof (rule sort_key_inj_key_eq)
    show "inj_on df_path (set (map ?e fs))" by (rule entries_distinct [OF normal ok])
  qed (use perm in \<open>simp_all add: sorted_sort_key\<close>)
  show ?thesis
  proof (cases "(\<forall>f \<in> set fs. file_ok clean f) \<and> distinct (map (\<lambda>f. the (clean (df_path f))) fs)")
    case True
    then show ?thesis using len sets sorted
      by (simp add: digest_files_def normalize_files_start dist)
  next
    case False
    then have "\<not> ((\<forall>f \<in> set gs. file_ok clean f) \<and> distinct (map (\<lambda>f. the (clean (df_path f))) gs))"
      by (simp only: sets dist not_False_eq_True)
    with False show ?thesis by (simp only: digest_files_def normalize_files_start len if_False)
  qed
qed

text \<open>Both at an inventory of two files, under a cleaning that accepts normal paths as they are.\<close>

definition plain_clean :: "bytes \<Rightarrow> bytes option" where
  "plain_clean p = (if normal_path p then Some p else None)"

definition sample_inventory :: "digest_file list" where
  "sample_inventory =
     [\<lparr>df_path = ''b.json'', df_sha256 = replicate 64 CHR ''b''\<rparr>,
      \<lparr>df_path = ''a/c.json'', df_sha256 = replicate 64 CHR ''a''\<rparr>]"

lemma plain_clean_normal: "plain_clean p = Some q \<Longrightarrow> normal_path q"
  by (auto simp: plain_clean_def split: if_split_asm)

lemma sample_files_ok:
  "list_all (file_ok plain_clean) sample_inventory
   \<and> distinct (map (\<lambda>f. the (plain_clean (df_path f))) sample_inventory)"
  by code_simp

lemma sample_inventory_utf8:
  "utf8_valid (digest_version []) \<and> utf8_valid (digest_scope ''ws'') \<and> digest_scope ''/ws/'' = digest_scope ''ws''
   \<and> list_all (\<lambda>f. utf8_valid (df_path (file_entry plain_clean (digest_scope ''ws'') f))) sample_inventory"
  by code_simp

lemma digest_files_binds_witness:
  "(digest_version [] = digest_version [] \<and> digest_scope ''ws'' = digest_scope ''/ws/''
    \<and> mset (map (file_entry plain_clean (digest_scope ''ws'')) sample_inventory)
        = mset (map (file_entry plain_clean (digest_scope ''/ws/'')) sample_inventory))
   \<or> (\<exists>s t. s \<noteq> t \<and> sha256 s = sha256 t)"
proof (rule digest_files_binds)
  show "digest_files plain_clean ''ws'' [] sample_inventory
      = Inr (sha256 (marshal (digest_envelope (digest_version []) (digest_scope ''ws'')
          (sort_key df_path (map (file_entry plain_clean (digest_scope ''ws'')) sample_inventory)))))"
    using sample_files_ok by (simp add: digest_files_Inr sample_inventory_def)
  show "digest_files plain_clean ''/ws/'' [] sample_inventory
      = Inr (sha256 (marshal (digest_envelope (digest_version []) (digest_scope ''ws'')
          (sort_key df_path (map (file_entry plain_clean (digest_scope ''ws'')) sample_inventory)))))"
    using sample_files_ok sample_inventory_utf8 by (simp add: digest_files_Inr sample_inventory_def)
qed (use sample_inventory_utf8 in \<open>simp_all add: utf8_inventory_def list_all_iff\<close>)

lemma digest_files_order_witness:
  "digest_files plain_clean ''ws'' [] sample_inventory = digest_files plain_clean ''ws'' [] (rev sample_inventory)"
  by (rule digest_files_order) (simp_all add: plain_clean_normal)

end
