(* ===== verification/Trust_Package.thy ===== *)
theory Trust_Package
  imports Handoff_Review Handoff_Wire Digest_Files
begin

text \<open>
  Package \<^verbatim>\<open>trust\<close>, \<^verbatim>\<open>package.go\<close>: the inspection of a snapshot of a review package, given as
  bytes. \<^verbatim>\<open>artifact.CleanRelativePath\<close> is called with two sets of labels, here directly and in
  \<^verbatim>\<open>handoff\<close>: it is the two parameters \<^verbatim>\<open>clean\<close> and \<^verbatim>\<open>clean_input\<close>.
\<close>

subsection \<open>Inspection\<close>

definition max_files :: nat where
  "max_files = 1024"

definition max_file_bytes :: int where
  "max_file_bytes = 8388608"

definition max_total_bytes :: int where
  "max_total_bytes = 67108864"

definition package_digest_version :: bytes where
  "package_digest_version = ''openudon.handoff-package-digest.v1''"

text \<open>The files are a map: entries with different paths, in the order a range visits them.\<close>

record trust_request =
  rq_scope :: bytes
  rq_manifest :: bytes
  rq_files :: "(bytes \<times> bytes) list"
  rq_required :: "bytes list"

record inspection =
  ip_scope :: bytes
  ip_package :: bytes
  ip_handoff :: bytes
  ip_manifest :: review_handoff

datatype trust_error = InvalidPackage | Canceled

definition canonical_path :: "(bytes \<Rightarrow> bytes option) \<Rightarrow> bytes \<Rightarrow> bool" where
  "canonical_path clean p = (clean p = Some p \<and> length p \<le> 2048)"

text \<open>
  The context is asked before every round of the loops. \<^verbatim>\<open>ended n\<close> says whether it has ended at
  the \<open>n\<close>-th question.
\<close>

fun scan_files ::
  "(bytes \<Rightarrow> bytes option) \<Rightarrow> (nat \<Rightarrow> bool) \<Rightarrow> nat \<Rightarrow> int \<Rightarrow> (bytes \<times> bytes) list \<Rightarrow> trust_error + nat" where
  "scan_files clean ended n used [] = Inr n"
| "scan_files clean ended n used ((path, data) # fs) =
     (if ended n then Inl Canceled
      else if \<not> canonical_path clean path \<or> max_file_bytes < int (length data) then Inl InvalidPackage
      else if max_total_bytes < used + int (length data) then Inl InvalidPackage
      else scan_files clean ended (n + 1) (used + int (length data)) fs)"

definition declared_digest :: "trust_request \<Rightarrow> review_handoff \<Rightarrow> bytes \<Rightarrow> bytes \<Rightarrow> bytes option" where
  "declared_digest q m path actual =
     (if path = rq_manifest q then self_digest m (rq_manifest q) else Some actual)"

fun scan_inputs ::
  "(bytes \<Rightarrow> bytes option) \<Rightarrow> (nat \<Rightarrow> bool) \<Rightarrow> trust_request \<Rightarrow> review_handoff \<Rightarrow> nat \<Rightarrow> bytes list
     \<Rightarrow> digest_file list \<Rightarrow> handoff_input list \<Rightarrow> trust_error + nat \<times> bytes list \<times> digest_file list"
where
  "scan_inputs clean ended q m n required files [] = Inr (n, required, files)"
| "scan_inputs clean ended q m n required files (i # rest) =
     (if ended n then Inl Canceled
      else if \<not> hi_required i then scan_inputs clean ended q m (n + 1) required files rest
      else if \<not> canonical_path clean (hi_path i) then Inl InvalidPackage
      else case map_of (rq_files q) (hi_path i) of
        None \<Rightarrow> Inl InvalidPackage
      | Some data \<Rightarrow>
          (case declared_digest q m (hi_path i) (sha256 data) of
             None \<Rightarrow> Inl InvalidPackage
           | Some declared \<Rightarrow>
               if declared \<noteq> to_lower (trim_space (hi_sha256 i)) then Inl InvalidPackage
               else scan_inputs clean ended q m (n + 1) (List.insert (hi_path i) required)
                      (files @ [\<lparr>df_path = hi_path i, df_sha256 = sha256 data\<rparr>]) rest))"

definition read_manifest :: "(bytes \<Rightarrow> bytes option) \<Rightarrow> bytes \<Rightarrow> review_handoff option" where
  "read_manifest clean_input data =
     (case decode_strict (GStruct handoff_fields) data of
        Inl _ \<Rightarrow> None
      | Inr j \<Rightarrow>
          (let m = handoff_of_json j
           in if max_files < length (rh_inputs m) \<or> validate_review_handoff clean_input m [] \<noteq> []
              then None else Some m))"

definition inspect ::
  "(bytes \<Rightarrow> bytes option) \<Rightarrow> (bytes \<Rightarrow> bytes option) \<Rightarrow> (nat \<Rightarrow> bool) option \<Rightarrow> trust_request
     \<Rightarrow> trust_error + inspection" where
  "inspect clean clean_input ctx q =
     (case ctx of
        None \<Rightarrow> Inl InvalidPackage
      | Some ended \<Rightarrow>
          if ended 0 then Inl Canceled
          else if \<not> canonical_path clean (rq_scope q) \<or> \<not> canonical_path clean (rq_manifest q)
                  \<or> 2048 < length (rq_scope q) \<or> rq_files q = [] \<or> max_files < length (rq_files q)
                  \<or> max_files < length (rq_required q) then Inl InvalidPackage
          else case scan_files clean ended 1 0 (rq_files q) of
            Inl e \<Rightarrow> Inl e
          | Inr n \<Rightarrow>
              (case map_of (rq_files q) (rq_manifest q) of
                 None \<Rightarrow> Inl InvalidPackage
               | Some bytes \<Rightarrow>
                   (case read_manifest clean_input bytes of
                      None \<Rightarrow> Inl InvalidPackage
                    | Some m \<Rightarrow>
                        (case scan_inputs clean ended q m n [] [] (rh_inputs m) of
                           Inl e \<Rightarrow> Inl e
                         | Inr (n', required, files) \<Rightarrow>
                             if rq_manifest q \<notin> set required \<or> length required \<noteq> length (rq_files q)
                               then Inl InvalidPackage
                             else if \<not> list_all (\<lambda>p. canonical_path clean p \<and> p \<in> set required) (rq_required q)
                               then Inl InvalidPackage
                             else
                               (case digest_files clean_input (rq_scope q) package_digest_version files of
                                  Inl _ \<Rightarrow> Inl InvalidPackage
                                | Inr d \<Rightarrow>
                                    if ended n' then Inl Canceled
                                    else Inr \<lparr>ip_scope = rq_scope q, ip_package = d,
                                              ip_handoff = sha256 bytes, ip_manifest = m\<rparr>)))))"

subsection \<open>What an accepted snapshot is\<close>

lemma scan_files_Inr:
  "scan_files clean ended n used fs = Inr n' \<Longrightarrow>
     list_all (\<lambda>(p, d). canonical_path clean p \<and> int (length d) \<le> max_file_bytes) fs
     \<and> (fs \<noteq> [] \<longrightarrow> used + (\<Sum>(p, d) \<leftarrow> fs. int (length d)) \<le> max_total_bytes)"
proof (induction fs arbitrary: n used)
  case (Cons f fs)
  obtain p d where f: "f = (p, d)" by (cases f)
  have "list_all (\<lambda>(p, d). canonical_path clean p \<and> int (length d) \<le> max_file_bytes) fs
     \<and> (fs \<noteq> [] \<longrightarrow> used + int (length d) + (\<Sum>(p, d) \<leftarrow> fs. int (length d)) \<le> max_total_bytes)"
    by (rule Cons.IH [of "n + 1"]) (use Cons.prems in \<open>simp add: f split: if_split_asm\<close>)
  with Cons.prems show ?case
    by (cases "fs = []") (simp_all add: f not_less add.assoc split: if_split_asm)
qed simp

definition input_file :: "trust_request \<Rightarrow> handoff_input \<Rightarrow> digest_file" where
  "input_file q i = \<lparr>df_path = hi_path i, df_sha256 = sha256 (the (map_of (rq_files q) (hi_path i)))\<rparr>"

definition input_bound ::
  "(bytes \<Rightarrow> bytes option) \<Rightarrow> trust_request \<Rightarrow> review_handoff \<Rightarrow> handoff_input \<Rightarrow> bool" where
  "input_bound clean q m i =
     (canonical_path clean (hi_path i)
      \<and> (\<exists>data. map_of (rq_files q) (hi_path i) = Some data
           \<and> declared_digest q m (hi_path i) (sha256 data) = Some (to_lower (trim_space (hi_sha256 i)))))"

lemma scan_inputs_Inr:
  assumes "scan_inputs clean ended q m n required files inputs = Inr (n', required', files')"
    "distinct required"
  shows "(\<forall>i \<in> set (filter hi_required inputs). input_bound clean q m i) \<and> distinct required'
    \<and> set required' = set required \<union> hi_path ` set (filter hi_required inputs)
    \<and> files' = files @ map (input_file q) (filter hi_required inputs)"
  using assms
proof (induction inputs arbitrary: n required files)
  case (Cons i rest)
  show ?case
  proof (cases "hi_required i")
    case False
    then show ?thesis using Cons by (simp split: if_split_asm)
  next
    case True
    obtain data where d: "map_of (rq_files q) (hi_path i) = Some data"
      and ok: "canonical_path clean (hi_path i)"
      and dd: "declared_digest q m (hi_path i) (sha256 data) = Some (to_lower (trim_space (hi_sha256 i)))"
      and rest: "scan_inputs clean ended q m (n + 1) (List.insert (hi_path i) required)
        (files @ [\<lparr>df_path = hi_path i, df_sha256 = sha256 data\<rparr>]) rest = Inr (n', required', files')"
      using Cons.prems(1) True by (auto split: if_split_asm option.split_asm)
    have "input_bound clean q m i" using d ok dd by (auto simp: input_bound_def)
    moreover have "input_file q i = \<lparr>df_path = hi_path i, df_sha256 = sha256 data\<rparr>"
      by (simp add: input_file_def d)
    ultimately show ?thesis
      using Cons.IH [OF rest] Cons.prems(2) True by auto
  qed
qed auto


definition snapshot_ok ::
  "(bytes \<Rightarrow> bytes option) \<Rightarrow> (bytes \<Rightarrow> bytes option) \<Rightarrow> trust_request \<Rightarrow> inspection \<Rightarrow> bool" where
  "snapshot_ok clean clean_input q r =
     (\<exists>bytes. map_of (rq_files q) (rq_manifest q) = Some bytes
        \<and> read_manifest clean_input bytes = Some (ip_manifest r) \<and> ip_handoff r = sha256 bytes
        \<and> ip_scope r = rq_scope q \<and> canonical_path clean (rq_scope q)
        \<and> length (rq_files q) \<le> max_files \<and> (\<Sum>(p, d) \<leftarrow> rq_files q. int (length d)) \<le> max_total_bytes
        \<and> list_all (\<lambda>(p, d). canonical_path clean p \<and> int (length d) \<le> max_file_bytes) (rq_files q))"

definition required_inputs :: "review_handoff \<Rightarrow> handoff_input list" where
  "required_inputs m = filter hi_required (rh_inputs m)"

lemma read_manifest_valid:
  "read_manifest clean_input data = Some m \<Longrightarrow> validate_review_handoff clean_input m [] = []"
  by (simp add: read_manifest_def Let_def split: sum.split_asm if_split_asm)

lemma inspect_Inr:
  assumes "inspect clean clean_input ctx q = Inr r" "distinct (map fst (rq_files q))"
  shows "snapshot_ok clean clean_input q r"
    and "\<forall>i \<in> set (required_inputs (ip_manifest r)). input_bound clean q (ip_manifest r) i"
    and "set (map fst (rq_files q)) = hi_path ` set (required_inputs (ip_manifest r))"
    and "set (rq_required q) \<subseteq> set (map fst (rq_files q))"
    and "digest_files clean_input (rq_scope q) package_digest_version
           (map (input_file q) (required_inputs (ip_manifest r))) = Inr (ip_package r)"
proof -
  obtain ended n bytes n' required files where
    top: "canonical_path clean (rq_scope q)" "rq_files q \<noteq> []" "length (rq_files q) \<le> max_files"
    and scan: "scan_files clean ended 1 0 (rq_files q) = Inr n"
    and bytes: "map_of (rq_files q) (rq_manifest q) = Some bytes"
    and read: "read_manifest clean_input bytes = Some (ip_manifest r)"
    and inputs: "scan_inputs clean ended q (ip_manifest r) n [] [] (rh_inputs (ip_manifest r))
        = Inr (n', required, files)"
    and count: "length required = length (rq_files q)"
    and asked: "list_all (\<lambda>p. canonical_path clean p \<and> p \<in> set required) (rq_required q)"
    and digest: "digest_files clean_input (rq_scope q) package_digest_version files = Inr (ip_package r)"
    and out: "ip_scope r = rq_scope q" "ip_handoff r = sha256 bytes"
    using assms(1)
    by (auto simp: inspect_def not_less split: if_split_asm option.split_asm sum.split_asm prod.split_asm)
  show "snapshot_ok clean clean_input q r"
    unfolding snapshot_ok_def using top bytes read out scan_files_Inr [OF scan] by simp
  have f: "\<forall>i \<in> set (required_inputs (ip_manifest r)). input_bound clean q (ip_manifest r) i"
      "distinct required" "set required = hi_path ` set (required_inputs (ip_manifest r))"
      "files = map (input_file q) (required_inputs (ip_manifest r))"
    using scan_inputs_Inr [OF inputs] by (simp_all add: required_inputs_def)
  then show "\<forall>i \<in> set (required_inputs (ip_manifest r)). input_bound clean q (ip_manifest r) i" by blast
  have "set required \<subseteq> set (map fst (rq_files q))"
  proof
    fix p
    assume "p \<in> set required"
    then obtain data where "map_of (rq_files q) p = Some data"
      using f(1,3) by (auto simp: input_bound_def)
    then show "p \<in> set (map fst (rq_files q))" by (metis list.set_map map_of_eq_None_iff option.distinct(1))
  qed
  moreover have "card (set required) = card (set (map fst (rq_files q)))"
    using f(2) assms(2) count by (metis distinct_card length_map)
  ultimately have same: "set required = set (map fst (rq_files q))" by (simp add: card_subset_eq)
  with f(3) show "set (map fst (rq_files q)) = hi_path ` set (required_inputs (ip_manifest r))" by simp
  show "set (rq_required q) \<subseteq> set (map fst (rq_files q))"
    using asked same by (auto simp: list_all_iff)
  show "digest_files clean_input (rq_scope q) package_digest_version
      (map (input_file q) (required_inputs (ip_manifest r))) = Inr (ip_package r)"
    using digest f(4) by simp
qed

text \<open>
  C28. An accepted snapshot is the inventory its manifest requires: the manifest bytes decode
  strictly to a valid manifest, the files are exactly the required inputs, all at canonical
  paths and within the limits, the manifest lists its own self digest and every other input
  lists the SHA-256 value of its bytes, and every path the host asks for is among them.
\<close>

theorem inspect_accepts:
  assumes "inspect clean clean_input ctx q = Inr r" "distinct (map fst (rq_files q))"
  shows "snapshot_ok clean clean_input q r \<and> validate_review_handoff clean_input (ip_manifest r) [] = []
    \<and> set (map fst (rq_files q)) = hi_path ` set (required_inputs (ip_manifest r))
    \<and> set (rq_required q) \<subseteq> set (map fst (rq_files q))
    \<and> (\<forall>i \<in> set (required_inputs (ip_manifest r)).
          \<exists>data. (hi_path i, data) \<in> set (rq_files q)
            \<and> to_lower (trim_space (hi_sha256 i))
                = (if hi_path i = rq_manifest q then the (self_digest (ip_manifest r) (rq_manifest q))
                   else sha256 data))"
proof (intro conjI ballI)
  note facts = inspect_Inr [OF assms]
  show "snapshot_ok clean clean_input q r" by (rule facts)
  then show "validate_review_handoff clean_input (ip_manifest r) [] = []"
    by (auto simp: snapshot_ok_def dest: read_manifest_valid)
  show "set (map fst (rq_files q)) = hi_path ` set (required_inputs (ip_manifest r))" by (rule facts)
  show "set (rq_required q) \<subseteq> set (map fst (rq_files q))" by (rule facts)
  fix i
  assume "i \<in> set (required_inputs (ip_manifest r))"
  with facts(2) have "input_bound clean q (ip_manifest r) i" by blast
  then show "\<exists>data. (hi_path i, data) \<in> set (rq_files q)
      \<and> to_lower (trim_space (hi_sha256 i))
          = (if hi_path i = rq_manifest q then the (self_digest (ip_manifest r) (rq_manifest q))
             else sha256 data)"
    by (auto simp: input_bound_def declared_digest_def dest: map_of_SomeD split: if_split_asm)
qed

subsection \<open>What the package digest determines\<close>

text \<open>The names that go into the digest are valid UTF-8.\<close>

definition utf8_snapshot :: "(bytes \<Rightarrow> bytes option) \<Rightarrow> trust_request \<Rightarrow> review_handoff \<Rightarrow> bool" where
  "utf8_snapshot clean q m =
     utf8_inventory clean (rq_scope q) package_digest_version (map (input_file q) (required_inputs m))"

lemma snapshot_subset:
  assumes r: "inspect clean clean ctx q = Inr r" "distinct (map fst (rq_files q))"
    and r': "inspect clean clean ctx' q' = Inr r'" "distinct (map fst (rq_files q'))"
    and normal: "\<And>p p'. clean p = Some p' \<Longrightarrow> normal_path p'"
    and entries: "set (map (file_entry clean s) (map (input_file q) (required_inputs (ip_manifest r))))
        = set (map (file_entry clean s) (map (input_file q') (required_inputs (ip_manifest r'))))"
    and inj: "\<And>x y. sha256 x = sha256 y \<Longrightarrow> x = y"
  shows "set (rq_files q) \<subseteq> set (rq_files q')"
proof
  fix e
  assume e: "e \<in> set (rq_files q)"
  obtain p d where pd: "e = (p, d)" by (cases e)
  have "p \<in> hi_path ` set (required_inputs (ip_manifest r))"
    unfolding inspect_Inr(3) [OF r, symmetric] using e pd by force
  then obtain i where i: "i \<in> set (required_inputs (ip_manifest r))" "hi_path i = p" by blast
  then have "file_entry clean s (input_file q i)
      \<in> set (map (file_entry clean s) (map (input_file q') (required_inputs (ip_manifest r'))))"
    unfolding entries [symmetric] by simp
  then obtain j where j: "j \<in> set (required_inputs (ip_manifest r'))"
    and same: "file_entry clean s (input_file q i) = file_entry clean s (input_file q' j)" by auto
  obtain d' where d': "map_of (rq_files q') (hi_path j) = Some d'" and cj: "clean (hi_path j) = Some (hi_path j)"
    using inspect_Inr(2) [OF r'] j by (auto simp: input_bound_def canonical_path_def)
  have ci: "clean (hi_path i) = Some (hi_path i)"
    using inspect_Inr(2) [OF r] i by (auto simp: input_bound_def canonical_path_def)
  have "hi_path i = hi_path j"
    by (rule entry_path_inj [of clean s "input_file q i" "input_file q' j"])
      (use same ci cj normal in \<open>simp_all add: input_file_def\<close>)
  moreover have "sha256 d = sha256 d'"
    using arg_cong [OF same, of df_sha256] i e pd r(2) d' by (simp add: input_file_def file_entry_def Let_def)
  ultimately show "e \<in> set (rq_files q')"
    using d' inj i(2) pd by (auto dest: map_of_SomeD)
qed

text \<open>
  C29. The package digest binds the bytes of the package. Two accepted snapshots with one package
  digest have the same scope and the same files with the same contents, whatever order their
  manifests list them in, unless two different texts with one SHA-256 value are at hand. Four
  conditions: the scope and the paths that enter the digest are valid UTF-8 in both requests
  (inspection does not check the scope, and \<^verbatim>\<open>json.Marshal\<close> maps other bytes to the replacement
  character); a request names each of its files once; the cleaning of paths does not depend on its
  labels here; and it yields paths without empty, dot and dot-dot elements.
\<close>

theorem package_digest_binds:
  assumes r: "inspect clean clean ctx q = Inr r" "distinct (map fst (rq_files q))"
    and r': "inspect clean clean ctx' q' = Inr r'" "distinct (map fst (rq_files q'))"
    and normal: "\<And>p p'. clean p = Some p' \<Longrightarrow> normal_path p'"
    and names: "utf8_snapshot clean q (ip_manifest r)" "utf8_snapshot clean q' (ip_manifest r')"
    and same: "ip_package r = ip_package r'"
  shows "digest_scope (rq_scope q) = digest_scope (rq_scope q') \<and> set (rq_files q) = set (rq_files q')
    \<or> (\<exists>s t. s \<noteq> t \<and> sha256 s = sha256 t)"
proof (cases "\<exists>s t. s \<noteq> t \<and> sha256 s = sha256 t")
  case False
  have scope: "digest_scope (rq_scope q) = digest_scope (rq_scope q')"
    and files: "mset (map (file_entry clean (digest_scope (rq_scope q)))
          (map (input_file q) (required_inputs (ip_manifest r))))
        = mset (map (file_entry clean (digest_scope (rq_scope q')))
            (map (input_file q') (required_inputs (ip_manifest r'))))"
    using digest_files_same [OF inspect_Inr(5) [OF r] inspect_Inr(5) [OF r', folded same]
        names [unfolded utf8_snapshot_def]] False by blast+
  have sets: "set (map (file_entry clean (digest_scope (rq_scope q)))
          (map (input_file q) (required_inputs (ip_manifest r))))
        = set (map (file_entry clean (digest_scope (rq_scope q)))
            (map (input_file q') (required_inputs (ip_manifest r'))))"
    using mset_eq_setD [OF files] scope by simp
  have inj: "x = y" if "sha256 x = sha256 y" for x y using False that by blast
  have "set (rq_files q) \<subseteq> set (rq_files q')"
    by (rule snapshot_subset [OF r r' _ sets]) (fact normal inj)+
  moreover have "set (rq_files q') \<subseteq> set (rq_files q)"
    by (rule snapshot_subset [OF r' r _ sets [symmetric]]) (fact normal inj)+
  ultimately show ?thesis using scope by simp
qed blast


subsection \<open>A snapshot that is accepted\<close>

definition sample_inputs :: "bytes \<Rightarrow> bytes \<Rightarrow> handoff_input list" where
  "sample_inputs h d =
     [\<lparr>hi_path = ''handoff.json'', hi_purpose = ''manifest'', hi_required = True, hi_sha256 = d\<rparr>,
      \<lparr>hi_path = ''workflow.yaml'', hi_purpose = ''workflow'', hi_required = True, hi_sha256 = h\<rparr>]"

definition sample_blank :: review_handoff where
  "sample_blank =
     sample_handoff\<lparr>rh_inputs := sample_inputs [] [],
       rh_owners := [(''operator'', [''run'']), (''reviewer'', [''review''])]\<rparr>"

definition sample_manifest :: "bytes \<Rightarrow> review_handoff" where
  "sample_manifest d = sample_blank\<lparr>rh_inputs := sample_inputs (sha256 ''steps'') d\<rparr>"

definition sample_snapshot :: "bytes \<Rightarrow> trust_request" where
  "sample_snapshot d =
     \<lparr>rq_scope = ''orders'', rq_manifest = ''handoff.json'',
      rq_files = [(''workflow.yaml'', ''steps''), (''handoff.json'', marshal (handoff_json (sample_manifest d)))],
      rq_required = [''workflow.yaml'']\<rparr>"

lemma sample_paths:
  "canonical_path plain_clean ''orders''" "canonical_path plain_clean ''handoff.json''"
  "canonical_path plain_clean ''workflow.yaml''"
  by code_simp+

lemma plain_review_sha256: "plain_sha256 d \<Longrightarrow> valid_review_sha256 d"
  using plain_sha256_valid [of d]
  by (auto simp: valid_sha256_def valid_hex_def valid_review_sha256_def Let_def plain_sha256_def)

lemma plain_digest_text: "plain_sha256 d \<Longrightarrow> to_lower (trim_space d) = d"
  by (auto simp: plain_sha256_def list_all_iff lower_hex_alnum trim_space_alnum to_lower_id_iff lower_hex_iff)

lemma sample_manifest_rest:
  "string_in_set (rh_version sample_handoff) [review_handoff_version]
   \<and> trim_space (rh_generated sample_handoff) = ''generated''
   \<and> validate_owners [(''operator'', [''run'']), (''reviewer'', [''review''])] = []
   \<and> validate_states (rh_states sample_handoff) = [] \<and> has_required_states (rh_states sample_handoff)
   \<and> \<not> hc_values_allowed (rh_credentials sample_handoff) \<and> \<not> ep_direct (rh_policy sample_handoff)
   \<and> validate_policy (rh_policy sample_handoff) = []"
  by code_simp

lemma sample_manifest_valid:
  assumes "plain_sha256 d"
  shows "validate_review_handoff plain_clean (sample_manifest d) [] = []"
proof -
  have "validate_inputs plain_clean (sample_inputs (sha256 ''steps'') d) = []"
    unfolding validate_inputs_iff using sample_paths assms
    by (simp add: inputs_ok_def sample_inputs_def plain_review_sha256 sha256_plain canonical_path_def)
  with sample_manifest_rest show ?thesis
    by (simp add: validate_review_handoff_def Let_def sample_manifest_def sample_blank_def)
qed

lemma inputs_size:
  "print_bound (handoff_json (m\<lparr>rh_inputs := sample_inputs h d\<rparr>))
     = print_bound (handoff_json (m\<lparr>rh_inputs := sample_inputs [] []\<rparr>)) + 6 * int (length h) + 6 * int (length d)"
  "node_count (handoff_json (m\<lparr>rh_inputs := sample_inputs h d\<rparr>))
     = node_count (handoff_json (m\<lparr>rh_inputs := sample_inputs [] []\<rparr>))"
  "utf8_valid h \<Longrightarrow> utf8_valid d \<Longrightarrow> printable (handoff_json (m\<lparr>rh_inputs := sample_inputs [] []\<rparr>)) \<Longrightarrow>
     printable (handoff_json (m\<lparr>rh_inputs := sample_inputs h d\<rparr>))"
  by (simp_all add: handoff_json_def sample_inputs_def slice_json_def input_json_def)

lemma blank_size:
  "print_bound (handoff_json sample_blank) \<le> 100000 \<and> node_count (handoff_json sample_blank) \<le> max_nodes
   \<and> printable (handoff_json sample_blank)"
  by code_simp

lemma blank_inputs: "sample_blank\<lparr>rh_inputs := sample_inputs [] []\<rparr> = sample_blank"
  by (simp add: sample_blank_def)

lemmas manifest_size = inputs_size [where m = sample_blank and h = "sha256 ''steps''",
    folded sample_manifest_def, unfolded blank_inputs]

lemma sample_manifest_document:
  assumes "plain_sha256 d"
  shows "read_manifest plain_clean (marshal (handoff_json (sample_manifest d))) = Some (sample_manifest d)"
    and "int (length (marshal (handoff_json (sample_manifest d)))) \<le> 200000"
proof -
  have "length d = 64" using assms by (simp add: plain_sha256_def)
  then have bound: "print_bound (handoff_json (sample_manifest d)) \<le> 200000"
    using blank_size by (simp add: manifest_size)
  then show "int (length (marshal (handoff_json (sample_manifest d)))) \<le> 200000"
    unfolding marshal_def using length_print order.trans by blast
  have "decode_strict (GStruct handoff_fields) (marshal (handoff_json (sample_manifest d)))
      = Inr (handoff_json (sample_manifest d))"
  proof (rule handoff_decodes)
    show "printable (handoff_json (sample_manifest d))"
      using blank_size plain_sha256_utf8 [OF assms] plain_sha256_utf8 [OF sha256_plain] manifest_size(3) by blast
    show "node_count (handoff_json (sample_manifest d)) \<le> max_nodes"
      using blank_size by (simp add: manifest_size)
    show "distinct (map fst (rh_owners (sample_manifest d)))" by (simp add: sample_manifest_def sample_blank_def)
  qed (use bound in \<open>simp add: max_bytes_def\<close>)
  moreover have "sorted_owners (sample_manifest d) = sample_manifest d"
    by (simp add: sorted_owners_def sample_manifest_def sample_blank_def)
  ultimately show "read_manifest plain_clean (marshal (handoff_json (sample_manifest d))) = Some (sample_manifest d)"
    using sample_manifest_valid [OF assms]
    by (simp add: read_manifest_def Let_def handoff_read) (simp add: sample_manifest_def sample_inputs_def max_files_def)
qed

lemma sample_self:
  obtains d where "self_digest (sample_manifest d) ''handoff.json'' = Some d" "plain_sha256 d"
proof -
  have self: "trim_space ''handoff.json'' = ''handoff.json''" by code_simp
  have "list_ex (\<lambda>i. hi_path i = ''handoff.json'') (clone_inputs (rh_inputs (sample_manifest [])))"
    by (simp add: list_ex_iff clone_inputs_def sample_manifest_def sample_inputs_def)
  then obtain d where d: "self_digest (sample_manifest []) ''handoff.json'' = Some d"
    by (simp add: self_digest_def Let_def self new_review_handoff_def)
  have "write_self ''handoff.json'' d (sample_manifest []) = sample_manifest d"
    by (simp add: write_self_def self sample_manifest_def sample_inputs_def)
  then have "self_digest (sample_manifest d) ''handoff.json'' = Some d"
    using self_digest_write [of "''handoff.json''" d "sample_manifest []"] d by simp
  moreover have "plain_sha256 d" using self_digest_view [OF d] sha256_plain by simp
  ultimately show ?thesis using that by blast
qed

definition sample_entries :: "bytes \<Rightarrow> digest_file list" where
  "sample_entries data =
     [\<lparr>df_path = ''handoff.json'', df_sha256 = sha256 data\<rparr>,
      \<lparr>df_path = ''workflow.yaml'', df_sha256 = sha256 ''steps''\<rparr>]"

lemma sample_entries_digest:
  "\<exists>k. digest_files plain_clean ''orders'' package_digest_version (sample_entries data) = Inr k"
proof -
  have "length package_digest_version \<le> 128" by (simp add: package_digest_version_def)
  then show ?thesis using sample_paths
    by (simp add: digest_files_Inr sample_entries_def file_ok_def sha256_plain canonical_path_def)
qed

lemma snapshot_accepted:
  assumes d: "self_digest (sample_manifest d) ''handoff.json'' = Some d" "plain_sha256 d"
  obtains r where "inspect plain_clean plain_clean (Some (\<lambda>n. False)) (sample_snapshot d) = Inr r"
    "ip_manifest r = sample_manifest d"
proof -
  let ?data = "marshal (handoff_json (sample_manifest d))"
  have files: "rq_files (sample_snapshot d) = [(''workflow.yaml'', ''steps''), (''handoff.json'', ?data)]"
    and q: "rq_manifest (sample_snapshot d) = ''handoff.json''" "rq_scope (sample_snapshot d) = ''orders''"
      "rq_required (sample_snapshot d) = [''workflow.yaml'']"
    by (simp_all add: sample_snapshot_def)
  have len: "int (length ?data) \<le> 200000" by (rule sample_manifest_document [OF d(2)])
  have scan: "scan_files plain_clean (\<lambda>n. False) 1 0 (rq_files (sample_snapshot d)) = Inr 3"
    using len sample_paths by (simp add: files max_file_bytes_def max_total_bytes_def)
  have inputs: "scan_inputs plain_clean (\<lambda>n. False) (sample_snapshot d) (sample_manifest d) 3 [] []
      (rh_inputs (sample_manifest d)) = Inr (5, [''workflow.yaml'', ''handoff.json''], sample_entries ?data)"
    using sample_paths d(1) plain_digest_text [OF d(2)] plain_digest_text [OF sha256_plain, of "''steps''"]
    by (simp add: sample_manifest_def [of d] sample_inputs_def declared_digest_def files q sample_entries_def)
  obtain k where "digest_files plain_clean ''orders'' package_digest_version (sample_entries ?data) = Inr k"
    using sample_entries_digest by blast
  then have "inspect plain_clean plain_clean (Some (\<lambda>n. False)) (sample_snapshot d)
      = Inr \<lparr>ip_scope = ''orders'', ip_package = k, ip_handoff = sha256 ?data, ip_manifest = sample_manifest d\<rparr>"
    using scan inputs sample_paths sample_manifest_document(1) [OF d(2)]
    by (simp add: inspect_def q files max_files_def)
  then show ?thesis using that by simp
qed

theorem inspect_accepts_witness:
  "\<exists>d r. inspect plain_clean plain_clean (Some (\<lambda>n. False)) (sample_snapshot d) = Inr r
     \<and> snapshot_ok plain_clean plain_clean (sample_snapshot d) r
     \<and> hi_path ` set (required_inputs (ip_manifest r)) = {''workflow.yaml'', ''handoff.json''}"
proof -
  obtain d where d: "self_digest (sample_manifest d) ''handoff.json'' = Some d" "plain_sha256 d"
    by (rule sample_self)
  obtain r where r: "inspect plain_clean plain_clean (Some (\<lambda>n. False)) (sample_snapshot d) = Inr r"
    by (rule snapshot_accepted [OF d])
  have keys: "map fst (rq_files (sample_snapshot d)) = [''workflow.yaml'', ''handoff.json'']"
    by (simp add: sample_snapshot_def)
  have distinct: "distinct (map fst (rq_files (sample_snapshot d)))" unfolding keys by simp
  show ?thesis using r inspect_accepts [OF r distinct] unfolding keys by auto
qed

lemma sample_names:
  "utf8_valid (digest_version package_digest_version) \<and> utf8_valid (digest_scope ''orders'')
   \<and> list_all (\<lambda>p. utf8_valid (df_path (file_entry plain_clean (digest_scope ''orders'')
        \<lparr>df_path = p, df_sha256 = []\<rparr>))) [''handoff.json'', ''workflow.yaml'']"
  by code_simp

lemma sample_utf8: "utf8_snapshot plain_clean (sample_snapshot d) (sample_manifest d)"
proof -
  let ?u = "\<lambda>f. utf8_valid (df_path (file_entry plain_clean (digest_scope ''orders'') f))"
  have entry: "?u (input_file q i) = ?u \<lparr>df_path = hi_path i, df_sha256 = []\<rparr>" for q i
    by (simp only: file_entry_def Let_def input_file_def digest_file.simps)
  have names: "?u \<lparr>df_path = ''handoff.json'', df_sha256 = []\<rparr>" "?u \<lparr>df_path = ''workflow.yaml'', df_sha256 = []\<rparr>"
    using sample_names by (simp_all only: list.pred_inject simp_thms)
  have paths: "hi_path ` set (required_inputs (sample_manifest d)) = {''handoff.json'', ''workflow.yaml''}"
    by (simp add: required_inputs_def sample_manifest_def sample_inputs_def)
  have "?u (input_file q i)" if "i \<in> set (required_inputs (sample_manifest d))" for q i
  proof -
    have "hi_path i = ''handoff.json'' \<or> hi_path i = ''workflow.yaml''"
      using imageI [OF that, of hi_path] unfolding paths by (simp only: insert_iff empty_iff simp_thms)
    then show ?thesis unfolding entry by (elim disjE) (simp_all only: names)
  qed
  moreover have "rq_scope (sample_snapshot d) = ''orders''" by (simp add: sample_snapshot_def)
  ultimately show ?thesis using sample_names
    by (simp only: utf8_snapshot_def utf8_inventory_def set_map ball_simps) (intro conjI TrueI ballI)
qed

theorem package_digest_binds_witness:
  "\<exists>d r. inspect plain_clean plain_clean (Some (\<lambda>n. False)) (sample_snapshot d) = Inr r
     \<and> (digest_scope (rq_scope (sample_snapshot d)) = digest_scope (rq_scope (sample_snapshot d))
          \<and> set (rq_files (sample_snapshot d)) = set (rq_files (sample_snapshot d))
        \<or> (\<exists>s t. s \<noteq> t \<and> sha256 s = sha256 t))"
proof -
  obtain d where d: "self_digest (sample_manifest d) ''handoff.json'' = Some d" "plain_sha256 d"
    by (rule sample_self)
  obtain r where r: "inspect plain_clean plain_clean (Some (\<lambda>n. False)) (sample_snapshot d) = Inr r"
    and m: "ip_manifest r = sample_manifest d"
    by (rule snapshot_accepted [OF d])
  have keys: "distinct (map fst (rq_files (sample_snapshot d)))" by (simp add: sample_snapshot_def)
  have utf: "utf8_snapshot plain_clean (sample_snapshot d) (ip_manifest r)" unfolding m by (rule sample_utf8)
  from package_digest_binds [OF r keys r keys plain_clean_normal utf utf] r show ?thesis by blast
qed

end
