(* ===== verification/Package_Records.thy ===== *)
theory Package_Records
  imports Digest_Files Canonical_Json Json_Conform
begin

text \<open>
  Package \<^verbatim>\<open>packagev3\<close>, \<^verbatim>\<open>records.go\<close>: the records of a workflow package, their validators, the
  inventory of inputs with its digest, and their documents. \<^verbatim>\<open>artifact.CleanRelativePath\<close> is
  called with and without labels, here and in \<^verbatim>\<open>handoff\<close>: the parameters \<^verbatim>\<open>clean\<close> and
  \<^verbatim>\<open>clean_input\<close>.
\<close>

declare closed_shape.simps [simp del]

subsection \<open>Records\<close>

record package_artifact =
  ar_path :: bytes
  ar_sha256 :: bytes

record package_source =
  so_id :: bytes
  so_kind :: bytes
  so_artifact :: package_artifact

text \<open>A slice that validation tells apart from an empty one is an option.\<close>

record package_manifest =
  pm_version :: bytes
  pm_scope :: bytes
  pm_workflow :: package_artifact
  pm_data :: package_artifact
  pm_shapes :: package_artifact
  pm_shape_version :: bytes
  pm_sources :: "package_source list option"
  pm_browser :: "package_artifact option"
  pm_reviews :: "package_artifact list option"

record package_handoff =
  ph_version :: bytes
  ph_scope :: bytes
  ph_inputs :: bytes
  ph_manifest :: bytes
  ph_assessment :: bytes
  ph_artifacts :: "package_artifact list"
  ph_review_state :: bytes
  ph_credentials :: "bytes list option"

record finding =
  fi_code :: bytes
  fi_path :: bytes
  fi_outcome :: bytes

record assessment =
  am_version :: bytes
  am_scope :: bytes
  am_inputs :: bytes
  am_manifest :: bytes
  am_outcome :: bytes
  am_findings :: "finding list option"
  am_truncated :: bool

subsection \<open>Constants\<close>

definition package_version :: bytes where "package_version = ''openudon.package.v3''"
definition package_handoff_version :: bytes where "package_handoff_version = ''openudon.review-handoff.v3''"
definition assessment_version :: bytes where "assessment_version = ''openudon.assessment.v3''"
definition shape_version :: bytes where "shape_version = ''uws.shape-table.v1''"
definition workflow_path :: bytes where "workflow_path = ''workflows/workflow.uws.yaml''"
definition data_path :: bytes where "data_path = ''expected/data.json''"
definition shapes_path :: bytes where "shapes_path = ''expected/operation-shapes.json''"
definition manifest_path :: bytes where "manifest_path = ''expected/package.json''"
definition assessment_path :: bytes where "assessment_path = ''expected/assessment.json''"
definition handoff_path :: bytes where "handoff_path = ''expected/review-handoff.json''"
definition browser_path :: bytes where "browser_path = ''expected/browser.json''"
definition package_max_files :: nat where "package_max_files = 512"
definition max_sources :: nat where "max_sources = 33"
definition max_api_sources :: nat where "max_api_sources = 32"
definition runtime_source_kind :: bytes where "runtime_source_kind = ''runtime-function''"
definition runtime_source_id :: bytes where "runtime_source_id = ''udon-runtime-functions''"
definition trust_digest_version :: bytes where "trust_digest_version = ''openudon.handoff-package-digest.v1''"

lemmas path_consts = workflow_path_def data_path_def shapes_path_def manifest_path_def
  assessment_path_def handoff_path_def browser_path_def

subsection \<open>Parts\<close>

definition record_digest_valid :: "bytes \<Rightarrow> bool" where
  "record_digest_valid value =
     (if length value \<noteq> 64 \<or> to_lower value \<noteq> value then False else list_all is_lower_hex value)"

definition public_path :: "(bytes \<Rightarrow> bytes option) \<Rightarrow> bytes \<Rightarrow> bool" where
  "public_path clean value =
     (clean value = Some value \<and> length value \<le> 256 \<and> \<not> has_suffix (to_lower value) ''.hcl''
      \<and> \<not> sublist ''.icot'' value \<and> \<not> has_prefix value ''browser/'' \<and> \<not> has_prefix value ''browser-'')"

definition artifact_valid :: "(bytes \<Rightarrow> bytes option) \<Rightarrow> package_artifact \<Rightarrow> bool" where
  "artifact_valid clean a = (public_path clean (ar_path a) \<and> record_digest_valid (ar_sha256 a))"

definition scope_valid :: "(bytes \<Rightarrow> bytes option) \<Rightarrow> bytes \<Rightarrow> bool" where
  "scope_valid clean scope = (clean scope = Some scope \<and> length scope \<le> 2048)"

definition kind_valid :: "bytes \<Rightarrow> bool" where
  "kind_valid kind =
     (kind \<in> {''openapi'', ''google-discovery'', ''aws-smithy'', ''asyncapi'', ''graphql'', ''openrpc'',
              ''grpc-protobuf'', ''odata'', runtime_source_kind, ''browser-profile''})"

subsection \<open>Manifest\<close>

definition reserved_paths :: "bytes list" where
  "reserved_paths =
     [workflow_path, data_path, shapes_path, manifest_path, assessment_path, handoff_path]"

text \<open>The loop over the sources: the names and paths seen and the three counters.\<close>

fun scan_sources ::
  "(bytes \<Rightarrow> bytes option) \<Rightarrow> bytes list \<Rightarrow> bytes list \<Rightarrow> nat \<Rightarrow> nat \<Rightarrow> nat \<Rightarrow> package_source list
     \<Rightarrow> (bytes list \<times> nat) option" where
  "scan_sources clean ids paths api runtime browser [] = Some (paths, browser)"
| "scan_sources clean ids paths api runtime browser (s # ss) =
     (if \<not> is_identifier (so_id s) \<or> \<not> kind_valid (so_kind s) \<or> \<not> artifact_valid clean (so_artifact s)
         \<or> so_id s \<in> set ids \<or> ar_path (so_artifact s) \<in> set paths
         \<or> \<not> has_prefix (ar_path (so_artifact s)) (''sources/'' @ so_kind s @ ''/'') then None
      else
        (let is_runtime = (so_kind s = runtime_source_kind);
             runtime' = (if is_runtime then runtime + 1 else runtime);
             api' = (if is_runtime then api else api + 1);
             browser' = (if so_kind s = ''browser-profile'' \<and> \<not> is_runtime then browser + 1 else browser)
         in if is_runtime \<and> so_id s \<noteq> runtime_source_id then None
            else if max_api_sources < api' \<or> 1 < runtime' then None
            else scan_sources clean (so_id s # ids) (ar_path (so_artifact s) # paths) api' runtime' browser' ss))"

fun scan_reviews ::
  "(bytes \<Rightarrow> bytes option) \<Rightarrow> bytes list \<Rightarrow> bytes \<Rightarrow> package_artifact list \<Rightarrow> bool" where
  "scan_reviews clean paths previous [] = True"
| "scan_reviews clean paths previous (a # as) =
     (if \<not> artifact_valid clean a \<or> ar_path a \<in> set paths \<or> ar_path a \<le> previous
         \<or> \<not> has_prefix (ar_path a) ''expected/browser-review/'' then False
      else scan_reviews clean (ar_path a # paths) (ar_path a) as)"

definition manifest_head_valid :: "(bytes \<Rightarrow> bytes option) \<Rightarrow> package_manifest \<Rightarrow> bool" where
  "manifest_head_valid clean m =
     (\<not> (pm_version m \<noteq> package_version \<or> \<not> scope_valid clean (pm_scope m)
         \<or> pm_shape_version m \<noteq> shape_version \<or> ar_path (pm_workflow m) \<noteq> workflow_path
         \<or> ar_path (pm_data m) \<noteq> data_path \<or> ar_path (pm_shapes m) \<noteq> shapes_path
         \<or> \<not> artifact_valid clean (pm_workflow m) \<or> \<not> artifact_valid clean (pm_data m)
         \<or> \<not> artifact_valid clean (pm_shapes m)))"

definition validate_manifest :: "(bytes \<Rightarrow> bytes option) \<Rightarrow> package_manifest \<Rightarrow> bool" where
  "validate_manifest clean m =
     (if \<not> manifest_head_valid clean m then False
      else case pm_sources m of
        None \<Rightarrow> False
      | Some sources \<Rightarrow>
          if max_sources < length sources then False
          else case scan_sources clean [] reserved_paths 0 0 0 sources of
            None \<Rightarrow> False
          | Some (paths, browser) \<Rightarrow>
              if (0 < browser) \<noteq> (pm_browser m \<noteq> None) \<or> pm_browser m = None \<and> pm_reviews m \<noteq> None
                then False
              else case pm_browser m of
                None \<Rightarrow> True
              | Some b \<Rightarrow>
                  (let reviews = (case pm_reviews m of None \<Rightarrow> [] | Some rs \<Rightarrow> rs)
                   in if ar_path b \<noteq> browser_path \<or> \<not> artifact_valid clean b \<or> ar_path b \<in> set paths
                         \<or> 128 < length reviews then False
                      else scan_reviews clean (ar_path b # paths) [] reviews))"

definition manifest_files :: "package_manifest \<Rightarrow> package_artifact list" where
  "manifest_files m =
     [pm_workflow m, pm_data m, pm_shapes m]
     @ map so_artifact (case pm_sources m of None \<Rightarrow> [] | Some ss \<Rightarrow> ss)
     @ (case pm_browser m of
          None \<Rightarrow> []
        | Some b \<Rightarrow> b # (case pm_reviews m of None \<Rightarrow> [] | Some rs \<Rightarrow> rs))"

definition input_artifacts ::
  "(bytes \<Rightarrow> bytes option) \<Rightarrow> package_manifest \<Rightarrow> package_artifact list option" where
  "input_artifacts clean m =
     (if \<not> validate_manifest clean m then None else Some (sort_key ar_path (manifest_files m)))"

definition input_digest ::
  "(bytes \<Rightarrow> bytes option) \<Rightarrow> (bytes \<Rightarrow> bytes option) \<Rightarrow> package_manifest \<Rightarrow> bytes option" where
  "input_digest clean clean_input m =
     (case input_artifacts clean m of
        None \<Rightarrow> None
      | Some files \<Rightarrow>
          (case digest_files clean_input (pm_scope m) trust_digest_version
                  (map (\<lambda>f. \<lparr>df_path = ar_path f, df_sha256 = ar_sha256 f\<rparr>) files) of
             Inl _ \<Rightarrow> None
           | Inr d \<Rightarrow> Some d))"

subsection \<open>Handoff and assessment\<close>

fun scan_artifacts ::
  "(bytes \<Rightarrow> bytes option) \<Rightarrow> package_handoff \<Rightarrow> bytes list \<Rightarrow> bytes \<Rightarrow> package_artifact list
     \<Rightarrow> bytes list option" where
  "scan_artifacts clean h paths previous [] = Some paths"
| "scan_artifacts clean h paths previous (f # fs) =
     (if \<not> artifact_valid clean f \<or> ar_path f \<in> set paths \<or> ar_path f \<le> previous
         \<or> ar_path f = handoff_path then None
      else if ar_path f = manifest_path \<and> ar_sha256 f \<noteq> ph_manifest h
              \<or> ar_path f = assessment_path \<and> ar_sha256 f \<noteq> ph_assessment h then None
      else scan_artifacts clean h (ar_path f # paths) (ar_path f) fs)"

fun scan_credentials :: "bytes list \<Rightarrow> bytes list \<Rightarrow> bool" where
  "scan_credentials seen [] = True"
| "scan_credentials seen (n # ns) =
     (if \<not> is_identifier n \<or> n \<in> set seen then False else scan_credentials (n # seen) ns)"

definition validate_package_handoff :: "(bytes \<Rightarrow> bytes option) \<Rightarrow> package_handoff \<Rightarrow> bool" where
  "validate_package_handoff clean h =
     (if ph_version h \<noteq> package_handoff_version \<or> \<not> scope_valid clean (ph_scope h)
         \<or> \<not> record_digest_valid (ph_inputs h) \<or> \<not> record_digest_valid (ph_manifest h)
         \<or> \<not> record_digest_valid (ph_assessment h) \<or> ph_review_state h \<noteq> ''review_required''
         \<or> length (ph_artifacts h) < 5 \<or> package_max_files < length (ph_artifacts h) then False
      else case ph_credentials h of
        None \<Rightarrow> False
      | Some names \<Rightarrow>
          if 64 < length names then False
          else case scan_artifacts clean h [] [] (ph_artifacts h) of
            None \<Rightarrow> False
          | Some paths \<Rightarrow>
              if \<not> list_all (\<lambda>p. p \<in> set paths)
                     [workflow_path, data_path, shapes_path, manifest_path, assessment_path] then False
              else scan_credentials [] names)"

definition outcome_known :: "bytes \<Rightarrow> bool" where
  "outcome_known s = (s \<in> {''compatible'', ''incompatible'', ''indeterminate''})"

definition code_char :: "char \<Rightarrow> bool" where
  "code_char c = (is_lower c \<or> is_digit c \<or> c \<in> set ''._-'')"

definition finding_valid :: "(bytes \<Rightarrow> bytes option) \<Rightarrow> finding \<Rightarrow> bool" where
  "finding_valid clean f =
     (if length (fi_code f) = 0 \<or> 64 < length (fi_code f) \<or> fi_path f \<noteq> [] \<and> \<not> public_path clean (fi_path f)
         \<or> \<not> outcome_known (fi_outcome f) then False
      else list_all code_char (fi_code f))"

definition validate_assessment :: "(bytes \<Rightarrow> bytes option) \<Rightarrow> assessment \<Rightarrow> bool" where
  "validate_assessment clean a =
     (if am_version a \<noteq> assessment_version \<or> \<not> scope_valid clean (am_scope a)
         \<or> \<not> record_digest_valid (am_inputs a) \<or> \<not> record_digest_valid (am_manifest a) then False
      else case am_findings a of
        None \<Rightarrow> False
      | Some fs \<Rightarrow>
          if 128 < length fs then False
          else if \<not> outcome_known (am_outcome a) then False
          else list_all (finding_valid clean) fs)"


subsection \<open>Documents\<close>

definition artifact_json :: "package_artifact \<Rightarrow> json" where
  "artifact_json a = JObj [(''path'', JStr (ar_path a)), (''sha256'', JStr (ar_sha256 a))]"

definition source_json :: "package_source \<Rightarrow> json" where
  "source_json s =
     JObj [(''id'', JStr (so_id s)), (''kind'', JStr (so_kind s)), (''artifact'', artifact_json (so_artifact s))]"

definition manifest_json :: "package_manifest \<Rightarrow> json" where
  "manifest_json m =
     JObj ([(''version'', JStr (pm_version m)), (''scope'', JStr (pm_scope m)),
            (''workflow'', artifact_json (pm_workflow m)), (''data'', artifact_json (pm_data m)),
            (''shapes'', artifact_json (pm_shapes m)), (''shape_version'', JStr (pm_shape_version m)),
            (''sources'', opt_array source_json (pm_sources m))]
           @ (case pm_browser m of None \<Rightarrow> [] | Some b \<Rightarrow> [(''browser'', artifact_json b)])
           @ (case pm_reviews m of
                None \<Rightarrow> []
              | Some rs \<Rightarrow> if rs = [] then [] else [(''browser_reviews'', JArr (map artifact_json rs))]))"

definition package_handoff_json :: "package_handoff \<Rightarrow> json" where
  "package_handoff_json h =
     JObj [(''version'', JStr (ph_version h)), (''scope'', JStr (ph_scope h)),
           (''inputs_sha256'', JStr (ph_inputs h)), (''manifest_sha256'', JStr (ph_manifest h)),
           (''assessment_sha256'', JStr (ph_assessment h)),
           (''artifacts'', JArr (map artifact_json (ph_artifacts h))),
           (''review_state'', JStr (ph_review_state h)), (''credentials'', opt_array JStr (ph_credentials h))]"

definition finding_json :: "finding \<Rightarrow> json" where
  "finding_json f =
     JObj [(''code'', JStr (fi_code f)), (''path'', JStr (fi_path f)), (''outcome'', JStr (fi_outcome f))]"

definition assessment_json :: "assessment \<Rightarrow> json" where
  "assessment_json a =
     JObj [(''version'', JStr (am_version a)), (''scope'', JStr (am_scope a)),
           (''inputs_sha256'', JStr (am_inputs a)), (''manifest_sha256'', JStr (am_manifest a)),
           (''outcome'', JStr (am_outcome a)), (''findings'', opt_array finding_json (am_findings a)),
           (''truncated'', JBool (am_truncated a))]"

definition marshal_manifest :: "(bytes \<Rightarrow> bytes option) \<Rightarrow> package_manifest \<Rightarrow> bytes option" where
  "marshal_manifest clean m = (if \<not> validate_manifest clean m then None else Some (marshal (manifest_json m)))"

definition marshal_handoff :: "(bytes \<Rightarrow> bytes option) \<Rightarrow> package_handoff \<Rightarrow> bytes option" where
  "marshal_handoff clean h =
     (if \<not> validate_package_handoff clean h then None else Some (marshal (package_handoff_json h)))"

definition marshal_assessment :: "(bytes \<Rightarrow> bytes option) \<Rightarrow> assessment \<Rightarrow> bytes option" where
  "marshal_assessment clean a =
     (if \<not> validate_assessment clean a then None else Some (marshal (assessment_json a)))"

definition artifact_fields :: gofields where
  "artifact_fields = [(''path'', False, GString), (''sha256'', False, GString)]"

definition source_fields :: gofields where
  "source_fields =
     [(''id'', False, GString), (''kind'', False, GString), (''artifact'', False, GStruct artifact_fields)]"

definition manifest_fields :: gofields where
  "manifest_fields =
     [(''version'', False, GString), (''scope'', False, GString),
      (''workflow'', False, GStruct artifact_fields), (''data'', False, GStruct artifact_fields),
      (''shapes'', False, GStruct artifact_fields), (''shape_version'', False, GString),
      (''sources'', False, GSlice (GStruct source_fields)),
      (''browser'', True, GPtr (GStruct artifact_fields)),
      (''browser_reviews'', True, GSlice (GStruct artifact_fields))]"

definition package_handoff_fields :: gofields where
  "package_handoff_fields =
     [(''version'', False, GString), (''scope'', False, GString), (''inputs_sha256'', False, GString),
      (''manifest_sha256'', False, GString), (''assessment_sha256'', False, GString),
      (''artifacts'', False, GSlice (GStruct artifact_fields)), (''review_state'', False, GString),
      (''credentials'', False, GSlice GString)]"

definition finding_fields :: gofields where
  "finding_fields = [(''code'', False, GString), (''path'', False, GString), (''outcome'', False, GString)]"

definition assessment_fields :: gofields where
  "assessment_fields =
     [(''version'', False, GString), (''scope'', False, GString), (''inputs_sha256'', False, GString),
      (''manifest_sha256'', False, GString), (''outcome'', False, GString),
      (''findings'', False, GSlice (GStruct finding_fields)), (''truncated'', False, GBool)]"

definition list_of_json :: "(json \<Rightarrow> 'a) \<Rightarrow> json \<Rightarrow> 'a list option" where
  "list_of_json f j = (case j of JArr xs \<Rightarrow> Some (map f xs) | _ \<Rightarrow> None)"

definition artifact_of_json :: "json \<Rightarrow> package_artifact" where
  "artifact_of_json j =
     \<lparr>ar_path = str_of (field_value artifact_fields ''path'' j),
      ar_sha256 = str_of (field_value artifact_fields ''sha256'' j)\<rparr>"

definition source_of_json :: "json \<Rightarrow> package_source" where
  "source_of_json j =
     \<lparr>so_id = str_of (field_value source_fields ''id'' j), so_kind = str_of (field_value source_fields ''kind'' j),
      so_artifact = artifact_of_json (field_value source_fields ''artifact'' j)\<rparr>"

definition manifest_of_json :: "json \<Rightarrow> package_manifest" where
  "manifest_of_json j =
     (let v = (\<lambda>name. field_value manifest_fields name j)
      in \<lparr>pm_version = str_of (v ''version''), pm_scope = str_of (v ''scope''),
          pm_workflow = artifact_of_json (v ''workflow''), pm_data = artifact_of_json (v ''data''),
          pm_shapes = artifact_of_json (v ''shapes''), pm_shape_version = str_of (v ''shape_version''),
          pm_sources = list_of_json source_of_json (v ''sources''),
          pm_browser = (if v ''browser'' = JNull then None else Some (artifact_of_json (v ''browser''))),
          pm_reviews = list_of_json artifact_of_json (v ''browser_reviews'')\<rparr>)"

definition package_handoff_of_json :: "json \<Rightarrow> package_handoff" where
  "package_handoff_of_json j =
     (let v = (\<lambda>name. field_value package_handoff_fields name j)
      in \<lparr>ph_version = str_of (v ''version''), ph_scope = str_of (v ''scope''),
          ph_inputs = str_of (v ''inputs_sha256''), ph_manifest = str_of (v ''manifest_sha256''),
          ph_assessment = str_of (v ''assessment_sha256''),
          ph_artifacts = map artifact_of_json (elements (v ''artifacts'')),
          ph_review_state = str_of (v ''review_state''),
          ph_credentials = list_of_json str_of (v ''credentials'')\<rparr>)"

definition finding_of_json :: "json \<Rightarrow> finding" where
  "finding_of_json j =
     (let v = (\<lambda>name. str_of (field_value finding_fields name j))
      in \<lparr>fi_code = v ''code'', fi_path = v ''path'', fi_outcome = v ''outcome''\<rparr>)"

definition assessment_of_json :: "json \<Rightarrow> assessment" where
  "assessment_of_json j =
     (let v = (\<lambda>name. field_value assessment_fields name j)
      in \<lparr>am_version = str_of (v ''version''), am_scope = str_of (v ''scope''),
          am_inputs = str_of (v ''inputs_sha256''), am_manifest = str_of (v ''manifest_sha256''),
          am_outcome = str_of (v ''outcome''), am_findings = list_of_json finding_of_json (v ''findings''),
          am_truncated = bool_of (v ''truncated'')\<rparr>)"

text \<open>
  \<^verbatim>\<open>recordShape\<close> walks a document as \<^verbatim>\<open>closedShape\<close> of \<^verbatim>\<open>browsercontract\<close> does: no nulls, every
  field under its exact name, and no others.
\<close>

definition record_shape :: "goty \<Rightarrow> json \<Rightarrow> bool" where
  "record_shape t j = closed_shape t j"

definition decode_record :: "goty \<Rightarrow> bytes \<Rightarrow> json option" where
  "decode_record t data =
     (case decode_strict t data of
        Inl _ \<Rightarrow> None
      | Inr j \<Rightarrow> if record_shape t j then Some j else None)"

definition parse_manifest :: "(bytes \<Rightarrow> bytes option) \<Rightarrow> bytes \<Rightarrow> package_manifest option" where
  "parse_manifest clean data =
     (case decode_record (GStruct manifest_fields) data of
        None \<Rightarrow> None
      | Some j \<Rightarrow>
          (let m = manifest_of_json j in if \<not> validate_manifest clean m then None else Some m))"

definition parse_handoff :: "(bytes \<Rightarrow> bytes option) \<Rightarrow> bytes \<Rightarrow> package_handoff option" where
  "parse_handoff clean data =
     (case decode_record (GStruct package_handoff_fields) data of
        None \<Rightarrow> None
      | Some j \<Rightarrow>
          (let h = package_handoff_of_json j in if \<not> validate_package_handoff clean h then None else Some h))"

definition parse_assessment :: "(bytes \<Rightarrow> bytes option) \<Rightarrow> bytes \<Rightarrow> assessment option" where
  "parse_assessment clean data =
     (case decode_record (GStruct assessment_fields) data of
        None \<Rightarrow> None
      | Some j \<Rightarrow>
          (let a = assessment_of_json j in if \<not> validate_assessment clean a then None else Some a))"

end
