(* ===== verification/Package_Inventory.thy ===== *)
theory Package_Inventory
  imports Package_Records
begin

text \<open>
  What the validators of the package records accept, the sorted inventory of inputs and the
  digest over it.
\<close>

subsection \<open>Digests and scans\<close>

lemma record_digest_plain: "record_digest_valid s \<longleftrightarrow> plain_sha256 s"
  by (auto simp: record_digest_valid_def plain_sha256_def list_all_iff to_lower_id_iff lower_hex_iff)

definition source_path :: "package_source \<Rightarrow> bytes" where
  "source_path s = ar_path (so_artifact s)"

definition runtime_source :: "package_source \<Rightarrow> bool" where
  "runtime_source s = (so_kind s = runtime_source_kind)"

definition browser_source :: "package_source \<Rightarrow> bool" where
  "browser_source s = (so_kind s = ''browser-profile'')"

definition source_ok :: "(bytes \<Rightarrow> bytes option) \<Rightarrow> package_source \<Rightarrow> bool" where
  "source_ok clean s =
     (is_identifier (so_id s) \<and> kind_valid (so_kind s) \<and> artifact_valid clean (so_artifact s)
      \<and> has_prefix (source_path s) (''sources/'' @ so_kind s @ ''/'')
      \<and> (runtime_source s \<longrightarrow> so_id s = runtime_source_id))"

lemma kinds_differ: "runtime_source_kind \<noteq> ''browser-profile''"
  by (simp add: runtime_source_kind_def)

lemma browser_not_runtime: "browser_source s \<Longrightarrow> \<not> runtime_source s"
  by (simp add: browser_source_def runtime_source_def runtime_source_kind_def)

lemma scan_sources_iff:
  "api \<le> max_api_sources \<Longrightarrow> runtime \<le> 1 \<Longrightarrow>
   scan_sources clean ids paths api runtime browser ss = Some (paths', browser') \<longleftrightarrow>
     (\<forall>s \<in> set ss. source_ok clean s) \<and> fresh ids (map so_id ss) \<and> fresh paths (map source_path ss)
     \<and> api + length (filter (\<lambda>s. \<not> runtime_source s) ss) \<le> max_api_sources
     \<and> runtime + length (filter runtime_source ss) \<le> 1
     \<and> paths' = rev (map source_path ss) @ paths \<and> browser' = browser + length (filter browser_source ss)"
proof (induction ss arbitrary: ids paths api runtime browser)
  case (Cons s ss)
  let ?api = "if runtime_source s then api else api + 1"
  let ?runtime = "if runtime_source s then runtime + 1 else runtime"
  let ?browser = "if browser_source s then browser + 1 else browser"
  have step: "scan_sources clean ids paths api runtime browser (s # ss) = Some (paths', browser') \<longleftrightarrow>
      source_ok clean s \<and> so_id s \<notin> set ids \<and> source_path s \<notin> set paths
      \<and> ?api \<le> max_api_sources \<and> ?runtime \<le> 1
      \<and> scan_sources clean (so_id s # ids) (source_path s # paths) ?api ?runtime ?browser ss = Some (paths', browser')"
    using kinds_differ
    by (auto simp: source_ok_def source_path_def runtime_source_def browser_source_def Let_def not_less
        split: if_split_asm)
  show ?case
  proof (cases "?api \<le> max_api_sources \<and> ?runtime \<le> 1")
    case True
    then show ?thesis
      unfolding step using Cons.IH [of ?api ?runtime "so_id s # ids" "source_path s # paths" ?browser]
      by (cases "runtime_source s"; cases "browser_source s") (auto simp: fresh_Cons dest: browser_not_runtime)
  next
    case False
    then show ?thesis unfolding step by (cases "runtime_source s") auto
  qed
qed auto

lemma scan_reviews_iff:
  "scan_reviews clean paths previous as \<longleftrightarrow>
     (\<forall>a \<in> set as. artifact_valid clean a \<and> has_prefix (ar_path a) ''expected/browser-review/'')
     \<and> fresh paths (map ar_path as) \<and> sorted_wrt (<) (previous # map ar_path as)"
proof (induction as arbitrary: paths previous)
  case (Cons a as)
  show ?case
    by (auto simp: Cons.IH fresh_Cons not_le simp del: sorted_wrt.simps(2)) (auto simp: sorted_wrt2)
qed simp


subsection \<open>Manifests\<close>

definition manifest_sources :: "package_manifest \<Rightarrow> package_source list" where
  "manifest_sources m = (case pm_sources m of None \<Rightarrow> [] | Some ss \<Rightarrow> ss)"

definition manifest_reviews :: "package_manifest \<Rightarrow> package_artifact list" where
  "manifest_reviews m = (case pm_reviews m of None \<Rightarrow> [] | Some rs \<Rightarrow> rs)"

definition sources_ok :: "(bytes \<Rightarrow> bytes option) \<Rightarrow> package_source list \<Rightarrow> bool" where
  "sources_ok clean ss =
     ((\<forall>s \<in> set ss. source_ok clean s) \<and> distinct (map so_id ss)
      \<and> distinct (reserved_paths @ map source_path ss)
      \<and> length (filter (\<lambda>s. \<not> runtime_source s) ss) \<le> 32 \<and> length (filter runtime_source ss) \<le> 1)"

definition browser_ok :: "(bytes \<Rightarrow> bytes option) \<Rightarrow> package_manifest \<Rightarrow> bool" where
  "browser_ok clean m =
     (case pm_browser m of
        None \<Rightarrow> pm_reviews m = None \<and> (\<forall>s \<in> set (manifest_sources m). \<not> browser_source s)
      | Some b \<Rightarrow>
          (\<exists>s \<in> set (manifest_sources m). browser_source s) \<and> ar_path b = browser_path \<and> artifact_valid clean b
          \<and> length (manifest_reviews m) \<le> 128
          \<and> (\<forall>a \<in> set (manifest_reviews m).
               artifact_valid clean a \<and> has_prefix (ar_path a) ''expected/browser-review/'')
          \<and> sorted_wrt (<) (map ar_path (manifest_reviews m)))"

lemma reserved_distinct: "distinct reserved_paths"
  by (simp add: reserved_paths_def path_consts)

lemma source_path_prefix: "source_ok clean s \<Longrightarrow> prefix ''sources/'' (source_path s)"
  unfolding source_ok_def has_prefix_def by (metis append_prefixD)

lemma source_paths_prefix:
  "sources_ok clean ss \<Longrightarrow> p \<in> set (map source_path ss) \<Longrightarrow> prefix ''sources/'' p"
  using source_path_prefix by (auto simp: sources_ok_def)

lemma browser_path_fresh:
  assumes "sources_ok clean ss"
  shows "browser_path \<notin> set (rev (map source_path ss) @ reserved_paths)"
proof -
  have "browser_path \<notin> set reserved_paths" by (simp add: reserved_paths_def path_consts)
  moreover have "\<not> prefix ''sources/'' browser_path" by (simp add: browser_path_def)
  ultimately show ?thesis using source_paths_prefix [OF assms, of browser_path] by auto
qed

lemma review_path_fresh:
  assumes "sources_ok clean ss" "has_prefix p ''expected/browser-review/''"
  shows "p \<notin> set (browser_path # rev (map source_path ss) @ reserved_paths)"
proof -
  have "\<not> (prefix ''sources/'' p)" using assms(2) by (auto simp: has_prefix_def prefix_def)
  moreover have "p \<notin> set (browser_path # reserved_paths)"
    using assms(2) by (auto simp: has_prefix_def prefix_def reserved_paths_def path_consts)
  ultimately show ?thesis using source_paths_prefix [OF assms(1), of p] by auto
qed

lemma sorted_from_Nil: "(\<forall>a \<in> set as. has_prefix (ar_path a) ''expected/browser-review/'') \<Longrightarrow>
    sorted_wrt (<) ([] # map ar_path as) \<longleftrightarrow> sorted_wrt (<) (map ar_path as)"
  by (auto simp: has_prefix_def prefix_def)

lemma scan_sources_start:
  "scan_sources clean [] reserved_paths 0 0 0 ss = Some (paths, n) \<longleftrightarrow>
     sources_ok clean ss \<and> paths = rev (map source_path ss) @ reserved_paths
     \<and> n = length (filter browser_source ss)"
proof -
  have "fresh reserved_paths (map source_path ss) \<longleftrightarrow> distinct (reserved_paths @ map source_path ss)"
    using reserved_distinct by (auto simp: fresh_def)
  then show ?thesis
    by (auto simp: scan_sources_iff sources_ok_def max_api_sources_def)
qed

lemma scan_reviews_start:
  assumes "sources_ok clean ss"
  shows "scan_reviews clean (browser_path # rev (map source_path ss) @ reserved_paths) [] as \<longleftrightarrow>
     (\<forall>a \<in> set as. artifact_valid clean a \<and> has_prefix (ar_path a) ''expected/browser-review/'')
     \<and> sorted_wrt (<) (map ar_path as)"
proof -
  have "fresh (browser_path # rev (map source_path ss) @ reserved_paths) (map ar_path as)"
    if "\<forall>a \<in> set as. has_prefix (ar_path a) ''expected/browser-review/''" "sorted_wrt (<) (map ar_path as)"
  proof -
    have "ar_path a \<notin> set (browser_path # rev (map source_path ss) @ reserved_paths)" if "a \<in> set as" for a
      by (rule review_path_fresh [OF assms]) (use that \<open>\<forall>a \<in> set as. _ a\<close> in blast)
    then have "set (map ar_path as) \<inter> set (browser_path # rev (map source_path ss) @ reserved_paths) = {}"
      unfolding disjoint_iff set_map by blast
    then show ?thesis using that(2) unfolding fresh_def strict_sorted_iff by blast
  qed
  then show ?thesis using sorted_from_Nil [of as] by (auto simp: scan_reviews_iff)
qed

lemma validate_manifest_iff:
  "validate_manifest clean m \<longleftrightarrow>
     manifest_head_valid clean m \<and> pm_sources m \<noteq> None \<and> length (manifest_sources m) \<le> 33
     \<and> sources_ok clean (manifest_sources m) \<and> browser_ok clean m"
proof (cases "manifest_head_valid clean m \<and> pm_sources m \<noteq> None \<and> length (manifest_sources m) \<le> 33")
  case True
  then obtain ss where ss: "pm_sources m = Some ss" "manifest_sources m = ss" "length ss \<le> 33"
    by (auto simp: manifest_sources_def)
  have count: "0 < length (filter browser_source ss) \<longleftrightarrow> (\<exists>s \<in> set ss. browser_source s)"
    by (auto simp: filter_empty_conv)
  show ?thesis
  proof (cases "scan_sources clean [] reserved_paths 0 0 0 ss")
    case None
    then show ?thesis using True ss scan_sources_start [of clean ss] by (auto simp: validate_manifest_def)
  next
    case (Some r)
    obtain paths n where r: "r = (paths, n)" by (cases r)
    note facts = Some [unfolded r scan_sources_start]
    show ?thesis
      using True ss facts browser_path_fresh [of clean ss] count scan_reviews_start [of clean ss]
      by (cases "pm_browser m")
        (auto simp: validate_manifest_def Some r max_sources_def browser_ok_def Let_def
          manifest_reviews_def [symmetric] not_less)
  qed
next
  case False
  then show ?thesis
    by (cases "pm_sources m") (auto simp: validate_manifest_def manifest_sources_def max_sources_def)
qed

text \<open>
  C32. A manifest is valid exactly when its head names the fixed artifacts at their fixed paths,
  its sources have different names and different unreserved paths under the directory of their
  kind, at most 32 of them outside the runtime and at most one inside, and the browser
  supplement is there exactly for browser sources, with ascending reviews under their own
  directory.
\<close>

theorem validate_manifest_accepts:
  "validate_manifest clean m \<longleftrightarrow>
     manifest_head_valid clean m \<and> pm_sources m \<noteq> None \<and> length (manifest_sources m) \<le> 33
     \<and> sources_ok clean (manifest_sources m) \<and> browser_ok clean m"
  by (rule validate_manifest_iff)


subsection \<open>The inventory of inputs\<close>

definition browser_files :: "package_manifest \<Rightarrow> package_artifact list" where
  "browser_files m = (case pm_browser m of None \<Rightarrow> [] | Some b \<Rightarrow> b # manifest_reviews m)"

lemma manifest_files_parts:
  "manifest_files m = [pm_workflow m, pm_data m, pm_shapes m] @ map so_artifact (manifest_sources m) @ browser_files m"
  by (cases "pm_browser m")
    (simp_all add: manifest_files_def manifest_sources_def browser_files_def manifest_reviews_def)

lemma browser_files_ok:
  assumes "browser_ok clean m"
  shows "\<forall>a \<in> set (browser_files m). artifact_valid clean a
      \<and> (ar_path a = browser_path \<or> has_prefix (ar_path a) ''expected/browser-review/'')"
    and "distinct (map ar_path (browser_files m))" "length (browser_files m) \<le> 129"
proof -
  have b: "\<not> has_prefix browser_path ''expected/browser-review/''"
    by (simp add: browser_path_def has_prefix_def)
  show "\<forall>a \<in> set (browser_files m). artifact_valid clean a
      \<and> (ar_path a = browser_path \<or> has_prefix (ar_path a) ''expected/browser-review/'')"
    "length (browser_files m) \<le> 129"
    using assms by (auto simp: browser_ok_def browser_files_def split: option.splits)
  show "distinct (map ar_path (browser_files m))"
  proof (cases "pm_browser m")
    case (Some a)
    have "ar_path a = browser_path" "distinct (map ar_path (manifest_reviews m))"
      "\<forall>a \<in> set (manifest_reviews m). has_prefix (ar_path a) ''expected/browser-review/''"
      using assms by (auto simp: browser_ok_def Some strict_sorted_iff)
    moreover from this have "browser_path \<notin> ar_path ` set (manifest_reviews m)" using b by force
    ultimately show ?thesis by (simp add: browser_files_def Some)
  qed (simp add: browser_files_def)
qed

lemma browser_file_unreserved:
  assumes "sources_ok clean ss" "ar_path a = browser_path \<or> has_prefix (ar_path a) ''expected/browser-review/''"
  shows "ar_path a \<notin> set (map source_path ss @ reserved_paths)"
  using assms(2)
proof
  assume "ar_path a = browser_path"
  then show ?thesis using browser_path_fresh [OF assms(1)] by simp
next
  assume "has_prefix (ar_path a) ''expected/browser-review/''"
  then show ?thesis using review_path_fresh [OF assms(1)] by simp
qed

lemma manifest_paths_distinct:
  assumes "validate_manifest clean m"
  shows "distinct ([manifest_path, assessment_path, handoff_path] @ map ar_path (manifest_files m))"
proof -
  note v = assms [unfolded validate_manifest_iff]
  have fixed: "map ar_path [pm_workflow m, pm_data m, pm_shapes m] = [workflow_path, data_path, shapes_path]"
    using v by (simp add: manifest_head_valid_def)
  have src: "distinct (reserved_paths @ map source_path (manifest_sources m))"
    using v by (simp add: sources_ok_def)
  have br: "ar_path a \<notin> set (map source_path (manifest_sources m) @ reserved_paths)"
    if "a \<in> set (browser_files m)" for a
    using browser_file_unreserved v browser_files_ok(1) that by blast
  have d: "distinct (map ar_path (browser_files m))" using browser_files_ok(2) v by blast
  have disjoint: "set (reserved_paths @ map source_path (manifest_sources m)) \<inter> set (map ar_path (browser_files m)) = {}"
    using br unfolding disjoint_iff set_map set_append by blast
  have "distinct ((reserved_paths @ map source_path (manifest_sources m)) @ map ar_path (browser_files m))"
    using src d disjoint unfolding distinct_append by blast
  moreover have "mset ([manifest_path, assessment_path, handoff_path] @ map ar_path (manifest_files m))
      = mset ((reserved_paths @ map source_path (manifest_sources m)) @ map ar_path (browser_files m))"
    using fixed by (simp add: manifest_files_parts reserved_paths_def comp_def source_path_def [abs_def])
  ultimately show ?thesis by (metis mset_eq_imp_distinct_iff)
qed

lemma manifest_files_valid:
  assumes "validate_manifest clean m" "a \<in> set (manifest_files m)"
  shows "artifact_valid clean a"
proof -
  note v = assms(1) [unfolded validate_manifest_iff]
  from assms(2) consider "a \<in> set [pm_workflow m, pm_data m, pm_shapes m]"
    | s where "s \<in> set (manifest_sources m)" "a = so_artifact s" | "a \<in> set (browser_files m)"
    unfolding manifest_files_parts by fastforce
  then show ?thesis
  proof cases
    case 1
    then show ?thesis using v by (auto simp: manifest_head_valid_def)
  next
    case 2
    then show ?thesis using v by (auto simp: sources_ok_def source_ok_def)
  next
    case 3
    then show ?thesis using v browser_files_ok(1) by blast
  qed
qed

lemma manifest_files_bound: "validate_manifest clean m \<Longrightarrow> length (manifest_files m) \<le> 165"
  using browser_files_ok(3) [of clean m] by (simp add: validate_manifest_iff manifest_files_parts)

text \<open>
  C33. The inventory of a valid manifest lists every input exactly once, in strictly ascending
  order of the paths: at most 165 valid artifacts, none of them a report or the handoff of the
  package itself.
\<close>

theorem input_artifacts_inventory:
  assumes "input_artifacts clean m = Some files"
  shows "sorted_wrt (<) (map ar_path files) \<and> mset files = mset (manifest_files m) \<and> length files \<le> 165
    \<and> list_all (\<lambda>f. artifact_valid clean f \<and> ar_path f \<notin> {manifest_path, assessment_path, handoff_path}) files"
proof -
  have v: "validate_manifest clean m" and files: "files = sort_key ar_path (manifest_files m)"
    using assms by (auto simp: input_artifacts_def split: if_split_asm)
  have perm: "mset files = mset (manifest_files m)" by (simp add: files)
  have d: "distinct (map ar_path (manifest_files m))"
    "set [manifest_path, assessment_path, handoff_path] \<inter> set (map ar_path (manifest_files m)) = {}"
    using manifest_paths_distinct [OF v] unfolding distinct_append by blast+
  have "distinct (map ar_path files)" using d(1) perm by (metis mset_eq_imp_distinct_iff mset_map)
  then have "sorted_wrt (<) (map ar_path files)" by (simp add: strict_sorted_iff files)
  moreover have "length files \<le> 165" using manifest_files_bound [OF v] by (simp add: files)
  moreover have sets: "set files = set (manifest_files m)" by (simp add: files)
  have "ar_path f \<notin> {manifest_path, assessment_path, handoff_path}" if "f \<in> set (manifest_files m)" for f
  proof -
    have "ar_path f \<in> set (map ar_path (manifest_files m))" using that by simp
    then have "ar_path f \<notin> set [manifest_path, assessment_path, handoff_path]"
      using d(2) by (meson disjoint_iff)
    then show ?thesis by simp
  qed
  then have "list_all (\<lambda>f. artifact_valid clean f
      \<and> ar_path f \<notin> {manifest_path, assessment_path, handoff_path}) files"
    using manifest_files_valid [OF v] unfolding list_all_iff sets by blast
  ultimately show ?thesis using perm by blast
qed

subsection \<open>The digest of the inputs\<close>

definition as_digest_file :: "package_artifact \<Rightarrow> digest_file" where
  "as_digest_file f = \<lparr>df_path = ar_path f, df_sha256 = ar_sha256 f\<rparr>"

lemma artifact_clean: "artifact_valid clean a \<Longrightarrow> clean (ar_path a) = Some (ar_path a)"
  by (simp add: artifact_valid_def public_path_def)

lemma input_digest_eq:
  assumes "validate_manifest clean m"
  shows "input_digest clean clean_input m =
    (case digest_files clean_input (pm_scope m) trust_digest_version
        (map as_digest_file (sort_key ar_path (manifest_files m))) of Inl _ \<Rightarrow> None | Inr d \<Rightarrow> Some d)"
  using assms by (simp add: input_digest_def input_artifacts_def as_digest_file_def [abs_def])

lemma input_digest_exists:
  assumes v: "validate_manifest clean m"
    and agree: "\<And>p q. clean p = Some q \<Longrightarrow> clean_input p = Some q"
  shows "input_digest clean clean_input m \<noteq> None"
proof -
  let ?fs = "sort_key ar_path (manifest_files m)"
  have clean: "clean_input (ar_path a) = Some (ar_path a)" if "a \<in> set (manifest_files m)" for a
    by (rule agree [OF artifact_clean [OF manifest_files_valid [OF v that]]])
  have ok: "\<forall>f \<in> set (map as_digest_file ?fs). file_ok clean_input f"
    using clean manifest_files_valid [OF v]
    by (auto simp: as_digest_file_def file_ok_def artifact_valid_def record_digest_plain)
  have "map (\<lambda>f. the (clean_input (df_path f))) (map as_digest_file ?fs) = map ar_path ?fs"
    using clean by (simp add: as_digest_file_def)
  moreover have "distinct (map ar_path ?fs)"
    using manifest_paths_distinct [OF v] by (metis distinct_append mset_eq_imp_distinct_iff mset_map mset_sort)
  ultimately have "distinct (map (\<lambda>f. the (clean_input (df_path f))) (map as_digest_file ?fs))" by (simp only:)
  moreover have "length (pm_scope m) \<le> 2048" "length trust_digest_version \<le> 128" "length ?fs \<le> 1024"
    using v manifest_files_bound [OF v]
    by (simp_all add: validate_manifest_iff manifest_head_valid_def scope_valid_def trust_digest_version_def)
  ultimately show ?thesis
    using ok by (simp add: input_digest_eq [OF v] digest_files_def normalize_files_start)
qed

text \<open>
  C34. A valid manifest always has an input digest: the bounds and the order that validation
  establishes are what the digest asks for, when the two cleanings of paths agree.
\<close>

theorem input_digest_defined:
  assumes v: "validate_manifest clean m"
    and agree: "\<And>p q. clean p = Some q \<Longrightarrow> clean_input p = Some q"
  shows "input_digest clean clean_input m \<noteq> None"
  using assms by (rule input_digest_exists)

definition utf8_manifest :: "(bytes \<Rightarrow> bytes option) \<Rightarrow> package_manifest \<Rightarrow> bool" where
  "utf8_manifest clean_input m =
     utf8_inventory clean_input (pm_scope m) trust_digest_version
       (map as_digest_file (sort_key ar_path (manifest_files m)))"

lemma entries_subset:
  assumes valid: "validate_manifest clean m" "validate_manifest clean n"
    and agree: "\<And>p q. clean p = Some q \<Longrightarrow> clean_input p = Some q"
    and normal: "\<And>p q. clean_input p = Some q \<Longrightarrow> normal_path q"
    and entries: "file_entry clean_input s ` as_digest_file ` set (manifest_files m)
        \<subseteq> file_entry clean_input s ` as_digest_file ` set (manifest_files n)"
  shows "set (manifest_files m) \<subseteq> set (manifest_files n)"
proof
  fix a
  assume a: "a \<in> set (manifest_files m)"
  then obtain b where b: "b \<in> set (manifest_files n)"
    and same: "file_entry clean_input s (as_digest_file a) = file_entry clean_input s (as_digest_file b)"
    using entries by blast
  have ca: "clean_input (ar_path a) = Some (ar_path a)" and cb: "clean_input (ar_path b) = Some (ar_path b)"
    using agree artifact_clean manifest_files_valid valid a b by blast+
  have "ar_path a = ar_path b"
    by (rule entry_path_inj [of clean_input s "as_digest_file a" "as_digest_file b"])
      (use same ca cb normal in \<open>simp_all add: as_digest_file_def\<close>)
  moreover have "ar_sha256 a = ar_sha256 b"
    using arg_cong [OF same, of df_sha256] by (simp add: file_entry_def as_digest_file_def Let_def)
  ultimately have "a = b" by simp
  then show "a \<in> set (manifest_files n)" using b by simp
qed

text \<open>
  C35. The input digest binds the inputs: two manifests with one input digest have one scope and
  the same artifacts under the same digests, unless two different texts with one SHA-256 value
  are at hand. Three conditions: the scope and the paths of both manifests are valid UTF-8
  (validation has no such check, and \<^verbatim>\<open>json.Marshal\<close> maps other bytes to the replacement character);
  the cleaning that validation uses agrees with the cleaning of the inputs; and the latter yields
  paths without empty, dot and dot-dot elements.
\<close>

theorem input_digest_binds:
  assumes "input_digest clean clean_input m = Some d" "input_digest clean clean_input n = Some d"
    and agree: "\<And>p q. clean p = Some q \<Longrightarrow> clean_input p = Some q"
    and normal: "\<And>p q. clean_input p = Some q \<Longrightarrow> normal_path q"
    and names: "utf8_manifest clean_input m" "utf8_manifest clean_input n"
  shows "digest_scope (pm_scope m) = digest_scope (pm_scope n) \<and> set (manifest_files m) = set (manifest_files n)
    \<or> (\<exists>s t. s \<noteq> t \<and> sha256 s = sha256 t)"
proof (cases "\<exists>s t. s \<noteq> t \<and> sha256 s = sha256 t")
  case False
  let ?F = "\<lambda>m. map as_digest_file (sort_key ar_path (manifest_files m))"
  have v: "validate_manifest clean m" "validate_manifest clean n"
    using assms(1,2) by (auto simp: input_digest_def input_artifacts_def split: if_split_asm)
  have d: "digest_files clean_input (pm_scope m) trust_digest_version (?F m) = Inr d"
    "digest_files clean_input (pm_scope n) trust_digest_version (?F n) = Inr d"
    using assms(1,2) by (auto simp: input_digest_eq [OF v(1)] input_digest_eq [OF v(2)] split: sum.split_asm)
  have scope: "digest_scope (pm_scope m) = digest_scope (pm_scope n)"
    and files: "mset (map (file_entry clean_input (digest_scope (pm_scope m))) (?F m))
        = mset (map (file_entry clean_input (digest_scope (pm_scope n))) (?F n))"
    using digest_files_same [OF d names [unfolded utf8_manifest_def]] False by blast+
  have sets: "file_entry clean_input (digest_scope (pm_scope m)) ` as_digest_file ` set (manifest_files m)
      = file_entry clean_input (digest_scope (pm_scope m)) ` as_digest_file ` set (manifest_files n)"
    using mset_eq_setD [OF files] by (simp add: scope image_image)
  note subset = entries_subset [where clean = clean and clean_input = clean_input
      and s = "digest_scope (pm_scope m)"]
  have "set (manifest_files m) \<subseteq> set (manifest_files n)"
    by (rule subset [OF v]) (erule agree normal | simp add: sets)+
  moreover have "set (manifest_files n) \<subseteq> set (manifest_files m)"
    by (rule subset [OF v(2,1)]) (erule agree normal | simp add: sets)+
  ultimately show ?thesis using scope by blast
qed blast

subsection \<open>A manifest with a browser supplement\<close>

definition sample_artifact :: "bytes \<Rightarrow> package_artifact" where
  "sample_artifact path = \<lparr>ar_path = path, ar_sha256 = replicate 64 CHR ''a''\<rparr>"

definition sample_package :: package_manifest where
  "sample_package =
     \<lparr>pm_version = package_version, pm_scope = ''orders'', pm_workflow = sample_artifact workflow_path,
      pm_data = sample_artifact data_path, pm_shapes = sample_artifact shapes_path,
      pm_shape_version = shape_version,
      pm_sources = Some
        [\<lparr>so_id = ''shop'', so_kind = ''openapi'', so_artifact = sample_artifact ''sources/openapi/shop.yaml''\<rparr>,
         \<lparr>so_id = ''login'', so_kind = ''browser-profile'',
          so_artifact = sample_artifact ''sources/browser-profile/login.json''\<rparr>,
         \<lparr>so_id = runtime_source_id, so_kind = runtime_source_kind,
          so_artifact = sample_artifact ''sources/runtime-function/catalog.json''\<rparr>],
      pm_browser = Some (sample_artifact browser_path),
      pm_reviews = Some [sample_artifact ''expected/browser-review/login.json'']\<rparr>"

lemma sample_package_valid: "validate_manifest plain_clean sample_package"
  by code_simp

lemma utf8_manifest_set:
  "utf8_manifest clean m \<longleftrightarrow>
     utf8_valid (digest_version trust_digest_version) \<and> utf8_valid (digest_scope (pm_scope m))
     \<and> list_all (\<lambda>a. utf8_valid (df_path (file_entry clean (digest_scope (pm_scope m)) (as_digest_file a))))
          (manifest_files m)"
  by (simp add: utf8_manifest_def utf8_inventory_def list_all_iff)

lemma sample_package_utf8: "utf8_manifest plain_clean sample_package"
  unfolding utf8_manifest_set by code_simp

theorem input_artifacts_inventory_witness:
  "\<exists>files. input_artifacts plain_clean sample_package = Some files \<and> sorted_wrt (<) (map ar_path files)
     \<and> mset files = mset (manifest_files sample_package)"
proof -
  have "input_artifacts plain_clean sample_package
      = Some (sort_key ar_path (manifest_files sample_package))"
    by (simp add: input_artifacts_def sample_package_valid)
  from input_artifacts_inventory [OF this] this show ?thesis by blast
qed

theorem input_digest_defined_witness: "input_digest plain_clean plain_clean sample_package \<noteq> None"
  by (rule input_digest_defined [OF sample_package_valid])

definition reordered_package :: package_manifest where
  "reordered_package = sample_package\<lparr>pm_sources := map_option rev (pm_sources sample_package)\<rparr>"

lemma reordered_facts:
  "validate_manifest plain_clean reordered_package" "utf8_manifest plain_clean reordered_package"
  "sort_key ar_path (manifest_files reordered_package) = sort_key ar_path (manifest_files sample_package)"
proof -
  show v: "validate_manifest plain_clean reordered_package" by code_simp
  have files: "mset (manifest_files reordered_package) = mset (manifest_files sample_package)"
    by (simp add: reordered_package_def sample_package_def manifest_files_def)
  have sets: "list_all P (manifest_files reordered_package) = list_all P (manifest_files sample_package)" for P
    using mset_eq_setD [OF files] by (simp add: list_all_iff)
  show "utf8_manifest plain_clean reordered_package"
    using sample_package_utf8 unfolding utf8_manifest_set sets by (simp add: reordered_package_def)
  have "distinct (map ar_path (manifest_files reordered_package))"
    using manifest_paths_distinct [OF v] unfolding distinct_append by blast
  then show "sort_key ar_path (manifest_files reordered_package) = sort_key ar_path (manifest_files sample_package)"
    by (intro sort_key_inj_key_eq)
      (use files in \<open>simp_all add: distinct_map\<close>)
qed

theorem input_digest_binds_witness:
  "digest_scope (pm_scope sample_package) = digest_scope (pm_scope reordered_package)
     \<and> set (manifest_files sample_package) = set (manifest_files reordered_package)
   \<or> (\<exists>s t. s \<noteq> t \<and> sha256 s = sha256 t)"
proof -
  obtain d where d: "input_digest plain_clean plain_clean sample_package = Some d"
    using input_digest_exists [OF sample_package_valid, of plain_clean] by auto
  have "pm_scope reordered_package = pm_scope sample_package" by (simp add: reordered_package_def)
  then have r: "input_digest plain_clean plain_clean reordered_package = Some d"
    using d by (simp add: input_digest_eq sample_package_valid reordered_facts)
  show ?thesis
    by (rule input_digest_binds [OF d r _ plain_clean_normal sample_package_utf8 reordered_facts(2)])
qed

end
