(* ===== verification/Package_Documents.thy ===== *)
theory Package_Documents
  imports Package_Inventory
begin

text \<open>
  What the validators of the handoff and the assessment accept, and the round trips of the
  three package records through their documents.
\<close>

subsection \<open>Handoff and assessment\<close>

definition handoff_artifacts_ok :: "(bytes \<Rightarrow> bytes option) \<Rightarrow> package_handoff \<Rightarrow> bool" where
  "handoff_artifacts_ok clean h =
     ((\<forall>f \<in> set (ph_artifacts h). artifact_valid clean f \<and> ar_path f \<noteq> handoff_path
        \<and> (ar_path f = manifest_path \<longrightarrow> ar_sha256 f = ph_manifest h)
        \<and> (ar_path f = assessment_path \<longrightarrow> ar_sha256 f = ph_assessment h))
      \<and> sorted_wrt (<) ([] # map ar_path (ph_artifacts h))
      \<and> {workflow_path, data_path, shapes_path, manifest_path, assessment_path}
          \<subseteq> ar_path ` set (ph_artifacts h))"

lemma scan_artifacts_iff:
  "scan_artifacts clean h paths previous fs = Some paths' \<longleftrightarrow>
     (\<forall>f \<in> set fs. artifact_valid clean f \<and> ar_path f \<noteq> handoff_path
        \<and> (ar_path f = manifest_path \<longrightarrow> ar_sha256 f = ph_manifest h)
        \<and> (ar_path f = assessment_path \<longrightarrow> ar_sha256 f = ph_assessment h))
     \<and> fresh paths (map ar_path fs) \<and> sorted_wrt (<) (previous # map ar_path fs)
     \<and> paths' = rev (map ar_path fs) @ paths"
proof (induction fs arbitrary: paths previous)
  case (Cons f fs)
  show ?case
    by (auto simp: Cons.IH fresh_Cons not_le simp del: sorted_wrt.simps(2)) (auto simp: sorted_wrt2)
qed auto

lemma scan_credentials_iff:
  "scan_credentials seen ns \<longleftrightarrow> (\<forall>n \<in> set ns. is_identifier n) \<and> fresh seen ns"
  by (induction ns arbitrary: seen) (auto simp: fresh_Cons)

definition credentials_ok :: "package_handoff \<Rightarrow> bool" where
  "credentials_ok h =
     (case ph_credentials h of
        None \<Rightarrow> False
      | Some names \<Rightarrow> length names \<le> 64 \<and> (\<forall>n \<in> set names. is_identifier n) \<and> distinct names)"

definition handoff_head_ok :: "(bytes \<Rightarrow> bytes option) \<Rightarrow> package_handoff \<Rightarrow> bool" where
  "handoff_head_ok clean h =
     (ph_version h = package_handoff_version \<and> scope_valid clean (ph_scope h)
      \<and> plain_sha256 (ph_inputs h) \<and> plain_sha256 (ph_manifest h) \<and> plain_sha256 (ph_assessment h)
      \<and> ph_review_state h = ''review_required'' \<and> length (ph_artifacts h) \<le> 512)"

lemma five_paths:
  assumes "{workflow_path, data_path, shapes_path, manifest_path, assessment_path} \<subseteq> ar_path ` set fs"
  shows "5 \<le> length fs"
proof -
  have "card {workflow_path, data_path, shapes_path, manifest_path, assessment_path} = 5"
    by (simp add: path_consts)
  moreover have "card (ar_path ` set fs) \<le> length fs"
    by (metis card_image_le card_length finite_set order.trans)
  ultimately show ?thesis using card_mono [OF _ assms] by simp
qed

lemma validate_handoff_iff:
  "validate_package_handoff clean h \<longleftrightarrow>
     handoff_head_ok clean h \<and> handoff_artifacts_ok clean h \<and> credentials_ok h"
proof (cases "\<exists>names. ph_credentials h = Some names \<and> length names \<le> 64")
  case True
  then obtain names where names: "ph_credentials h = Some names" "length names \<le> 64" by blast
  have five: "\<not> length (ph_artifacts h) < 5" if "handoff_artifacts_ok clean h"
    using five_paths [of "ph_artifacts h"] that by (simp add: handoff_artifacts_ok_def)
  have scan: "(case scan_artifacts clean h [] [] (ph_artifacts h) of
        None \<Rightarrow> False
      | Some paths \<Rightarrow> list_all (\<lambda>p. p \<in> set paths)
           [workflow_path, data_path, shapes_path, manifest_path, assessment_path])
      \<longleftrightarrow> handoff_artifacts_ok clean h"
  proof (cases "scan_artifacts clean h [] [] (ph_artifacts h)")
    case None
    have "\<not> handoff_artifacts_ok clean h"
    proof
      assume "handoff_artifacts_ok clean h"
      then have "scan_artifacts clean h [] [] (ph_artifacts h) = Some (rev (map ar_path (ph_artifacts h)) @ [])"
        unfolding scan_artifacts_iff by (simp add: handoff_artifacts_ok_def strict_sorted_iff)
      with None show False by simp
    qed
    with None show ?thesis by simp
  next
    case (Some paths)
    from this [unfolded scan_artifacts_iff]
    have facts: "paths = rev (map ar_path (ph_artifacts h))" "sorted_wrt (<) ([] # map ar_path (ph_artifacts h))"
      "\<forall>f \<in> set (ph_artifacts h). artifact_valid clean f \<and> ar_path f \<noteq> handoff_path
         \<and> (ar_path f = manifest_path \<longrightarrow> ar_sha256 f = ph_manifest h)
         \<and> (ar_path f = assessment_path \<longrightarrow> ar_sha256 f = ph_assessment h)"
      by simp_all
    show ?thesis using facts(2,3) unfolding Some handoff_artifacts_ok_def by (simp add: facts(1))
  qed
  have "\<not> 64 < length names" using names(2) by simp
  then show ?thesis
    using five scan
    by (auto simp: validate_package_handoff_def names(1) credentials_ok_def handoff_head_ok_def record_digest_plain
        package_max_files_def scan_credentials_iff not_less split: option.splits if_splits)
next
  case False
  then show ?thesis
    by (cases "ph_credentials h") (auto simp: validate_package_handoff_def credentials_ok_def)
qed


text \<open>
  C36. A handoff is valid exactly when its head is that of a reviewed package with full digests,
  its artifacts ascend by path, are valid, leave out the handoff itself, include the five fixed
  files and give the manifest and the assessment the digests of the head, and its credentials
  are at most 64 different names.
\<close>

theorem validate_handoff_accepts:
  "validate_package_handoff clean h \<longleftrightarrow>
     handoff_head_ok clean h \<and> handoff_artifacts_ok clean h \<and> credentials_ok h"
  by (rule validate_handoff_iff)

subsection \<open>Documents of the types\<close>

lemmas record_tables = artifact_fields_def source_fields_def manifest_fields_def package_handoff_fields_def
  finding_fields_def assessment_fields_def

lemma artifact_shaped [simp]: "shaped (GStruct artifact_fields) (artifact_json a)"
  unfolding artifact_json_def by (rule shaped_struct) (simp_all add: record_tables ex_bool_eq)

lemma source_shaped [simp]: "shaped (GStruct source_fields) (source_json s)"
  unfolding source_json_def by (rule shaped_struct) (simp_all add: source_fields_def ex_bool_eq)

lemma finding_shaped [simp]: "shaped (GStruct finding_fields) (finding_json f)"
  unfolding finding_json_def by (rule shaped_struct) (simp_all add: record_tables ex_bool_eq)

lemma handoff_shaped:
  "ph_credentials h = Some names \<Longrightarrow> shaped (GStruct package_handoff_fields) (package_handoff_json h)"
  unfolding package_handoff_json_def
  by (rule shaped_struct) (simp_all add: package_handoff_fields_def opt_array_def ex_bool_eq)

lemma assessment_shaped:
  "am_findings a = Some fs \<Longrightarrow> shaped (GStruct assessment_fields) (assessment_json a)"
  unfolding assessment_json_def
  by (rule shaped_struct) (simp_all add: assessment_fields_def opt_array_def ex_bool_eq)

lemma manifest_shaped:
  "pm_sources m = Some ss \<Longrightarrow> shaped (GStruct manifest_fields) (manifest_json m)"
  unfolding manifest_json_def
  by (rule shaped_struct)
    (auto simp: manifest_fields_def opt_array_def ex_bool_eq split: option.splits if_splits)

lemma list_of_map [simp]: "list_of_json f (JArr xs) = Some (map f xs)" "list_of_json f JNull = None"
  by (simp_all add: list_of_json_def)

lemma artifact_read [simp]: "artifact_of_json (artifact_json a) = a"
  by (cases a) (simp add: artifact_of_json_def artifact_json_def field_value_exact artifact_fields_def str_of_def)

lemma source_read [simp]: "source_of_json (source_json s) = s"
  by (cases s) (simp add: source_of_json_def source_json_def field_value_exact source_fields_def str_of_def)

lemma finding_read [simp]: "finding_of_json (finding_json f) = f"
  by (cases f) (simp add: finding_of_json_def finding_json_def field_value_exact finding_fields_def str_of_def)

lemma package_handoff_read: "ph_credentials h \<noteq> None \<Longrightarrow> package_handoff_of_json (package_handoff_json h) = h"
  by (cases h)
    (auto simp: package_handoff_of_json_def package_handoff_json_def Let_def field_value_exact
      package_handoff_fields_def str_of_def elements_def opt_array_def comp_def)

lemma assessment_read: "am_findings a \<noteq> None \<Longrightarrow> assessment_of_json (assessment_json a) = a"
  by (cases a)
    (auto simp: assessment_of_json_def assessment_json_def Let_def field_value_exact
      assessment_fields_def str_of_def bool_of_def opt_array_def comp_def)

text \<open>A manifest with an empty list of reviews is read back with none.\<close>

definition tidy_manifest :: "package_manifest \<Rightarrow> package_manifest" where
  "tidy_manifest m = (if pm_reviews m = Some [] then m\<lparr>pm_reviews := None\<rparr> else m)"

lemma artifact_not_null [simp]: "artifact_json a \<noteq> JNull"
  by (simp add: artifact_json_def)

lemma manifest_read: "pm_sources m \<noteq> None \<Longrightarrow> manifest_of_json (manifest_json m) = tidy_manifest m"
  by (cases m; cases "pm_browser m"; cases "pm_reviews m")
    (auto simp: manifest_of_json_def manifest_json_def Let_def field_value_exact manifest_fields_def str_of_def
      opt_array_def comp_def tidy_manifest_def)


subsection \<open>Valid records are within the limits of a document\<close>

lemma sum_bound: "(\<And>x. x \<in> set xs \<Longrightarrow> f x \<le> b) \<Longrightarrow> sum_list (map f xs) \<le> int (length xs) * b" for b :: int
  by (induction xs) (force simp: algebra_simps)+

lemma array_bound:
  assumes "\<And>x. x \<in> set xs \<Longrightarrow> print_bound (f x) \<le> b" "length xs \<le> n" "0 \<le> b"
  shows "print_bound (JArr (map f xs)) \<le> 2 + int n * (b + 1)"
proof -
  have "sum_list (map (\<lambda>x. print_bound (f x) + 1) xs) \<le> int (length xs) * (b + 1)"
    by (rule sum_bound) (use assms(1) in force)
  also have "\<dots> \<le> int n * (b + 1)" using assms(2,3) by (intro mult_right_mono) auto
  finally show ?thesis by (simp add: comp_def)
qed

lemma array_nodes:
  assumes "\<And>x. x \<in> set xs \<Longrightarrow> node_count (f x) \<le> b" "length xs \<le> n" "0 \<le> b"
  shows "node_count (JArr (map f xs)) \<le> 1 + int n * b"
proof -
  have "sum_list (map (\<lambda>x. node_count (f x)) xs) \<le> int (length xs) * b"
    by (rule sum_bound) (use assms(1) in force)
  also have "\<dots> \<le> int n * b" using assms(2,3) by (intro mult_right_mono) auto
  finally show ?thesis by (simp add: comp_def)
qed

lemma artifact_bound: "artifact_valid clean a \<Longrightarrow> print_bound (artifact_json a) \<le> 2100"
  by (auto simp: artifact_valid_def public_path_def record_digest_plain plain_sha256_def artifact_json_def)

lemma artifact_nodes [simp]: "node_count (artifact_json a) = 3" "depth_of (artifact_json a) = 1"
  by (simp_all add: artifact_json_def)

lemma identifier_length: "is_identifier s \<Longrightarrow> length s \<le> 128"
  by (simp add: is_identifier_def split: if_split_asm)

lemma kind_length: "kind_valid k \<Longrightarrow> length k \<le> 20"
  by (auto simp: kind_valid_def runtime_source_kind_def)

lemma source_bound: "source_ok clean s \<Longrightarrow> print_bound (source_json s) \<le> 3500"
  using identifier_length [of "so_id s"] kind_length [of "so_kind s"] artifact_bound [of clean "so_artifact s"]
  by (simp add: source_ok_def source_json_def)

lemma source_nodes [simp]: "node_count (source_json s) = 6" "depth_of (source_json s) = 2"
  by (simp_all add: source_json_def)

lemma decode_record_print:
  assumes "printable j" "shaped t j" "print_bound j \<le> max_bytes" "depth_of j \<le> max_depth" "node_count j \<le> max_nodes"
  shows "decode_record t (marshal j) = Some j"
  using decode_print [OF assms(1) _ assms(3-5), of t True] assms(2)
  by (simp add: decode_record_def record_shape_def shaped_def marshal_def)

lemma handoff_limits:
  assumes "validate_package_handoff clean h"
  shows "print_bound (package_handoff_json h) \<le> max_bytes" "depth_of (package_handoff_json h) \<le> max_depth"
    "node_count (package_handoff_json h) \<le> max_nodes"
proof -
  note v = assms [unfolded validate_handoff_iff]
  obtain names where names: "ph_credentials h = Some names" "length names \<le> 64" "\<forall>n \<in> set names. length n \<le> 128"
    using v by (auto simp: credentials_ok_def identifier_length split: option.splits)
  have len: "length (ph_artifacts h) \<le> 512" "length (ph_scope h) \<le> 2048" "length (ph_inputs h) = 64"
    "length (ph_manifest h) = 64" "length (ph_assessment h) = 64"
    "ph_version h = package_handoff_version" "ph_review_state h = ''review_required''"
    using v by (simp_all add: handoff_head_ok_def scope_valid_def plain_sha256_def)
  have "print_bound (JArr (map artifact_json (ph_artifacts h))) \<le> 2 + int 512 * (2100 + 1)"
    by (rule array_bound) (use v len artifact_bound in \<open>auto simp: handoff_artifacts_ok_def\<close>)
  moreover have "print_bound (JArr (map JStr names)) \<le> 2 + int 64 * (770 + 1)"
    by (rule array_bound) (use names in auto)
  ultimately show "print_bound (package_handoff_json h) \<le> max_bytes"
    using len by (simp add: package_handoff_json_def opt_array_def names package_handoff_version_def max_bytes_def
        del: print_bound.simps(3))
  have "node_count (JArr (map artifact_json (ph_artifacts h))) \<le> 1 + int 512 * 3"
    "node_count (JArr (map JStr names)) \<le> 1 + int 64 * 1"
    by (rule array_nodes; use len names in simp)+
  then show "node_count (package_handoff_json h) \<le> max_nodes"
    by (simp add: package_handoff_json_def opt_array_def names max_nodes_def del: node_count.simps(1))
  show "depth_of (package_handoff_json h) \<le> max_depth"
    by (simp add: package_handoff_json_def opt_array_def names max_depth_def foldr_max_le)
qed


lemma assessment_limits:
  assumes "validate_assessment clean a"
  shows "print_bound (assessment_json a) \<le> max_bytes" "depth_of (assessment_json a) \<le> max_depth"
    "node_count (assessment_json a) \<le> max_nodes"
proof -
  obtain fs where fs: "am_findings a = Some fs" "length fs \<le> 128" "\<forall>f \<in> set fs. finding_valid clean f"
    "outcome_known (am_outcome a)" "am_version a = assessment_version" "length (am_scope a) \<le> 2048"
    "length (am_inputs a) = 64" "length (am_manifest a) = 64"
    using assms by (auto simp: validate_assessment_def list_all_iff scope_valid_def record_digest_plain
        plain_sha256_def split: if_split_asm option.splits)
  have known: "length s \<le> 13" if "outcome_known s" for s using that by (auto simp: outcome_known_def)
  have finding: "print_bound (finding_json f) \<le> 2200" if "finding_valid clean f" for f
    using that known [of "fi_outcome f"]
    by (cases "fi_path f = []") (auto simp: finding_valid_def finding_json_def public_path_def split: if_split_asm)
  have "print_bound (JArr (map finding_json fs)) \<le> 2 + int 128 * (2200 + 1)"
    by (rule array_bound) (use fs finding in auto)
  then show "print_bound (assessment_json a) \<le> max_bytes"
    using fs known [of "am_outcome a"]
    by (simp add: assessment_json_def opt_array_def assessment_version_def max_bytes_def del: print_bound.simps(3))
  have "node_count (JArr (map finding_json fs)) \<le> 1 + int 128 * 4"
    by (rule array_nodes; use fs in \<open>simp add: finding_json_def\<close>)
  then show "node_count (assessment_json a) \<le> max_nodes"
    by (simp add: assessment_json_def opt_array_def fs(1) max_nodes_def del: node_count.simps(1))
  show "depth_of (assessment_json a) \<le> max_depth"
    by (simp add: assessment_json_def opt_array_def fs(1) max_depth_def foldr_max_le finding_json_def)
qed

lemma manifest_limits:
  assumes "validate_manifest clean m"
  shows "print_bound (manifest_json m) \<le> max_bytes" "depth_of (manifest_json m) \<le> max_depth"
    "node_count (manifest_json m) \<le> max_nodes"
proof -
  note v = assms [unfolded validate_manifest_iff]
  obtain ss where ss: "pm_sources m = Some ss" "length ss \<le> 33" "\<forall>s \<in> set ss. source_ok clean s"
    using v by (auto simp: manifest_sources_def sources_ok_def)
  have head: "pm_version m = package_version" "pm_shape_version m = shape_version" "length (pm_scope m) \<le> 2048"
    "artifact_valid clean (pm_workflow m)" "artifact_valid clean (pm_data m)" "artifact_valid clean (pm_shapes m)"
    using v by (simp_all add: manifest_head_valid_def scope_valid_def)
  define browser where
    "browser = (case pm_browser m of None \<Rightarrow> [] | Some b \<Rightarrow> [(''browser'', artifact_json b)])"
  define reviews where
    "reviews = (case pm_reviews m of
       None \<Rightarrow> []
     | Some rs \<Rightarrow> if rs = [] then [] else [(''browser_reviews'', JArr (map artifact_json rs))])"
  have valid: "\<forall>b. pm_browser m = Some b \<longrightarrow> artifact_valid clean b"
    "\<forall>rs. pm_reviews m = Some rs \<longrightarrow> length rs \<le> 128 \<and> (\<forall>a \<in> set rs. artifact_valid clean a)"
    using v by (auto simp: browser_ok_def manifest_reviews_def split: option.splits)
  have parts: "sum_list (map (\<lambda>m. 6 * int (length (fst m)) + 4 + print_bound (snd m)) browser) \<le> 2200"
    "sum_list (map (\<lambda>m. node_count (snd m)) browser) \<le> 3" "\<forall>m \<in> set browser. depth_of (snd m) \<le> 3"
    using valid(1) artifact_bound [of clean] by (auto simp: browser_def split: option.splits) force
  have more: "sum_list (map (\<lambda>m. 6 * int (length (fst m)) + 4 + print_bound (snd m)) reviews) \<le> 270000"
    "sum_list (map (\<lambda>m. node_count (snd m)) reviews) \<le> 385" "\<forall>m \<in> set reviews. depth_of (snd m) \<le> 3"
  proof -
    have b: "print_bound (JArr (map artifact_json rs)) \<le> 2 + int 128 * (2100 + 1)"
      "node_count (JArr (map artifact_json rs)) \<le> 1 + int 128 * 3" if "pm_reviews m = Some rs" for rs
      by (rule array_bound array_nodes; use valid(2) that artifact_bound in auto)+
    show "sum_list (map (\<lambda>m. 6 * int (length (fst m)) + 4 + print_bound (snd m)) reviews) \<le> 270000"
      "sum_list (map (\<lambda>m. node_count (snd m)) reviews) \<le> 385"
      using b by (auto simp: reviews_def split: option.splits simp del: print_bound.simps(3) node_count.simps(1))
    show "\<forall>m \<in> set reviews. depth_of (snd m) \<le> 3"
      by (auto simp: reviews_def foldr_max_le split: option.splits if_splits)
  qed
  have json: "manifest_json m = JObj ([(''version'', JStr (pm_version m)), (''scope'', JStr (pm_scope m)),
            (''workflow'', artifact_json (pm_workflow m)), (''data'', artifact_json (pm_data m)),
            (''shapes'', artifact_json (pm_shapes m)), (''shape_version'', JStr (pm_shape_version m)),
            (''sources'', JArr (map source_json ss))] @ browser @ reviews)"
    by (simp add: manifest_json_def browser_def reviews_def ss opt_array_def)
  have "print_bound (JArr (map source_json ss)) \<le> 2 + int 33 * (3500 + 1)"
    by (rule array_bound) (use ss source_bound in auto)
  moreover have "print_bound (artifact_json a) \<le> 2100" if "artifact_valid clean a" for a
    by (rule artifact_bound [OF that])
  ultimately show "print_bound (manifest_json m) \<le> max_bytes"
    using parts(1) more(1) head(3) head(4-6) [THEN artifact_bound]
    by (simp add: json head(1,2) package_version_def shape_version_def max_bytes_def del: print_bound.simps(3))
  have "node_count (JArr (map source_json ss)) \<le> 1 + int 33 * 6"
    by (rule array_nodes; use ss in simp)
  then show "node_count (manifest_json m) \<le> max_nodes"
    using parts(2) more(2) by (simp add: json max_nodes_def del: node_count.simps(1))
  have "depth_of (manifest_json m) \<le> 3 + 1"
    unfolding json by (rule object_depth) (use parts(3) more(3) in \<open>auto simp: foldr_max_le\<close>)
  then show "depth_of (manifest_json m) \<le> max_depth" by (simp add: max_depth_def)
qed


subsection \<open>Round trips\<close>

lemma tidy_files [simp]: "manifest_files (tidy_manifest m) = manifest_files m"
  by (cases "pm_browser m") (simp_all add: tidy_manifest_def manifest_files_def)

lemma tidy_valid:
  assumes "validate_manifest clean m"
  shows "validate_manifest clean (tidy_manifest m)"
  using assms unfolding validate_manifest_iff
  by (auto simp: tidy_manifest_def manifest_head_valid_def manifest_sources_def browser_ok_def manifest_reviews_def
      split: option.splits)

lemma assessment_roundtrip:
  assumes "marshal_assessment clean a = Some data" "printable (assessment_json a)"
  shows "parse_assessment clean data = Some a"
proof -
  have v: "validate_assessment clean a" and data: "data = marshal (assessment_json a)"
    using assms(1) by (simp_all add: marshal_assessment_def split: if_split_asm)
  obtain fs where fs: "am_findings a = Some fs"
    using v by (auto simp: validate_assessment_def split: if_split_asm option.splits)
  have "decode_record (GStruct assessment_fields) data = Some (assessment_json a)"
    unfolding data by (rule decode_record_print [OF assms(2) assessment_shaped [OF fs] assessment_limits [OF v]])
  then show ?thesis using v by (simp add: parse_assessment_def Let_def assessment_read fs)
qed

text \<open>
  C37. A manifest survives its document: what is written for a valid manifest is read back as
  that manifest, an empty list of reviews as none, when its strings are valid UTF-8. Validity
  alone keeps the document within the limits of strict decoding.
\<close>

theorem manifest_roundtrip:
  assumes "marshal_manifest clean m = Some data" "printable (manifest_json m)"
  shows "parse_manifest clean data = Some (tidy_manifest m)"
proof -
  have v: "validate_manifest clean m" and data: "data = marshal (manifest_json m)"
    using assms(1) by (simp_all add: marshal_manifest_def split: if_split_asm)
  obtain ss where ss: "pm_sources m = Some ss" using v by (auto simp: validate_manifest_iff)
  have "decode_record (GStruct manifest_fields) data = Some (manifest_json m)"
    unfolding data by (rule decode_record_print [OF assms(2) manifest_shaped [OF ss] manifest_limits [OF v]])
  then show ?thesis using tidy_valid [OF v] by (simp add: parse_manifest_def Let_def manifest_read ss)
qed

theorem manifest_roundtrip_witness:
  "\<exists>data. marshal_manifest plain_clean sample_package = Some data
     \<and> parse_manifest plain_clean data = Some (tidy_manifest sample_package)"
proof -
  have "marshal_manifest plain_clean sample_package = Some (marshal (manifest_json sample_package))"
    by (simp add: marshal_manifest_def sample_package_valid)
  moreover have "printable (manifest_json sample_package)" by code_simp
  ultimately show ?thesis using manifest_roundtrip by blast
qed

text \<open>
  A handoff survives its document: what is written for a valid handoff is read back as that
  handoff, when its strings are valid UTF-8.
\<close>

theorem handoff_record_roundtrip:
  assumes "marshal_handoff clean h = Some data" "printable (package_handoff_json h)"
  shows "parse_handoff clean data = Some h"
proof -
  have v: "validate_package_handoff clean h" and data: "data = marshal (package_handoff_json h)"
    using assms(1) by (simp_all add: marshal_handoff_def split: if_split_asm)
  obtain names where names: "ph_credentials h = Some names"
    using v by (auto simp: validate_handoff_iff credentials_ok_def split: option.splits)
  have "decode_record (GStruct package_handoff_fields) data = Some (package_handoff_json h)"
    unfolding data by (rule decode_record_print [OF assms(2) handoff_shaped [OF names] handoff_limits [OF v]])
  then show ?thesis using v by (simp add: parse_handoff_def Let_def package_handoff_read names)
qed

definition sample_package_handoff :: package_handoff where
  "sample_package_handoff =
     \<lparr>ph_version = package_handoff_version, ph_scope = ''orders'', ph_inputs = replicate 64 CHR ''b'',
      ph_manifest = replicate 64 CHR ''a'', ph_assessment = replicate 64 CHR ''a'',
      ph_artifacts = sort_key ar_path
        (map sample_artifact [workflow_path, data_path, shapes_path, manifest_path, assessment_path]),
      ph_review_state = ''review_required'', ph_credentials = Some [''shop-token'']\<rparr>"

theorem handoff_record_roundtrip_witness:
  "\<exists>data. marshal_handoff plain_clean sample_package_handoff = Some data
     \<and> parse_handoff plain_clean data = Some sample_package_handoff"
proof -
  have "validate_package_handoff plain_clean sample_package_handoff" by code_simp
  then have "marshal_handoff plain_clean sample_package_handoff
      = Some (marshal (package_handoff_json sample_package_handoff))"
    by (simp add: marshal_handoff_def)
  moreover have "printable (package_handoff_json sample_package_handoff)" by code_simp
  ultimately show ?thesis using handoff_record_roundtrip by blast
qed

end
