(* ===== verification/Run_Evidence.thy ===== *)
theory Run_Evidence
  imports Browser_Evidence Udon_Report Authority
begin

text \<open>
  Package \<^verbatim>\<open>runevidence\<close>, \<^verbatim>\<open>types.go\<close>, \<^verbatim>\<open>validate.go\<close> and \<^verbatim>\<open>async.go\<close>: the evidence document of a
  run outside the browser path, its validator and the bundles of asynchronous evidence. The
  payload types of a bundle and their validators belong to the module
  \<^verbatim>\<open>github.com/OpenUdon/evidence/async\<close>; they are the parameter \<^verbatim>\<open>lib\<close>.
\<close>

subsection \<open>Types\<close>

record evidence_gate =
  ga_name :: bytes
  ga_status :: bytes

record evidence_executor =
  xe_invoked :: bool
  xe_mode :: bytes
  xe_runner_path :: bytes
  xe_argv :: "bytes list"
  xe_report_path :: bytes
  xe_report_sha256 :: bytes
  xe_report_size :: int

record async_file =
  af_path :: bytes
  af_digest :: bytes
  af_records :: int
  af_purpose :: bytes

text \<open>The browser part of an evidence document is refused unread; it is kept as its document.\<close>

record run_evidence =
  re_step_execution :: "observation_v5 option"
  re_version :: bytes
  re_run_id :: bytes
  re_created_at :: bytes
  re_scope :: bytes
  re_tier :: bytes
  re_dry_run :: bool
  re_approval_state :: bytes
  re_package :: bytes
  re_handoff :: bytes
  re_approval :: bytes
  re_run_config :: bytes
  re_run_config_path :: bytes
  re_package_root :: bytes
  re_workdir :: bytes
  re_stage_kind :: bytes
  re_stage_path :: bytes
  re_workflow_path :: bytes
  re_package_paths :: "bytes list"
  re_api_paths :: "bytes list"
  re_credentials :: "bytes list"
  re_env_names :: "bytes list"
  re_browser :: "json option"
  re_gates :: "evidence_gate list"
  re_executor :: evidence_executor
  re_async_files :: "async_file list"
  re_broker :: "authority option"

record async_record =
  ax_kind :: bytes
  ax_request :: "json option"
  ax_response :: "json option"
  ax_status :: "json option"
  ax_confirmation :: "json option"

record async_bundle =
  ab_version :: bytes
  ab_records :: "async_record list"

record async_library =
  al_request_type :: goty
  al_response_type :: goty
  al_status_type :: goty
  al_confirmation_type :: goty
  al_request_valid :: "json \<Rightarrow> bool"
  al_response_valid :: "json \<Rightarrow> bool"
  al_status_valid :: "json \<Rightarrow> bool"
  al_confirmation_valid :: "json \<Rightarrow> bool"

definition run_version :: bytes where "run_version = ''openudon.run-evidence.v2''"
definition step_run_version :: bytes where "step_run_version = ''openudon.run-evidence.v3''"
definition broker_run_version :: bytes where "broker_run_version = ''openudon.run-evidence.v4''"
definition legacy_run_version :: bytes where "legacy_run_version = ''openudon.run-evidence.v1''"
definition async_version :: bytes where "async_version = ''openudon.async-evidence-bundle.v1''"

lemmas run_versions = run_version_def step_run_version_def broker_run_version_def legacy_run_version_def

datatype evidence_error =
    EvBrowser
  | EvBroker
  | EvVersion
  | EvScope
  | EvPackage
  | EvConfigPath
  | EvWorkdir
  | EvDigests
  | EvGate
  | EvDuplicateGate bytes
  | EvMissingGate bytes
  | EvDryPosture
  | EvExecutorGate
  | EvNotInvoked
  | EvStage
  | EvMode bytes
  | EvStepExecution
  | EvObservation v5_error
  | EvPosture
  | EvLegacySteps

subsection \<open>Gates\<close>

text \<open>The loop builds the map from trimmed names to trimmed statuses, the last entry first here.\<close>

fun gate_statuses :: "(bytes \<times> bytes) list \<Rightarrow> evidence_gate list \<Rightarrow> evidence_error + (bytes \<times> bytes) list" where
  "gate_statuses st [] = Inr st"
| "gate_statuses st (g # gs) =
     (let name = trim_space (ga_name g); status = trim_space (ga_status g)
      in if name = [] \<or> (status \<noteq> ''pass'' \<and> status \<noteq> ''fail'') then Inl EvGate
         else if map_of st name \<noteq> None then Inl (EvDuplicateGate name)
         else gate_statuses ((name, status) # st) gs)"

definition required_gates :: "bytes list" where
  "required_gates =
     [''handoff_package'', ''manifest_policy'', ''stored_quality'', ''current_quality'', ''approval'',
      ''run_config'', ''staged_digest'']"

definition validate_posture :: "run_evidence \<Rightarrow> bytes option \<Rightarrow> evidence_error + unit" where
  "validate_posture e gate =
     (if re_dry_run e then
        fail_if (gate \<noteq> None \<or> xe_invoked (re_executor e) \<or> xe_mode (re_executor e) \<noteq> ''dry-run''
                 \<or> re_stage_kind e \<noteq> ''dry-run'') EvDryPosture
      else if gate = None \<or> (gate \<noteq> Some ''pass'' \<and> gate \<noteq> Some ''fail'') then Inl EvExecutorGate
      else if \<not> xe_invoked (re_executor e) then Inl EvNotInvoked
      else if xe_mode (re_executor e) = ''internal-runner'' then
        fail_if (re_stage_kind e \<noteq> ''executor'') EvStage
      else if xe_mode (re_executor e) = ''external-runner'' then
        fail_if (re_stage_kind e \<noteq> ''preflight'') EvStage
      else Inl (EvMode (xe_mode (re_executor e))))"

definition validate_gates :: "run_evidence \<Rightarrow> evidence_error + unit" where
  "validate_gates e =
     (case gate_statuses [] (re_gates e) of
        Inl x \<Rightarrow> Inl x
      | Inr statuses \<Rightarrow>
          (case find (\<lambda>n. map_of statuses n \<noteq> Some ''pass'') required_gates of
             Some n \<Rightarrow> Inl (EvMissingGate n)
           | None \<Rightarrow> validate_posture e (map_of statuses ''executor_invocation'')))"

subsection \<open>Broker evidence\<close>

definition same_identities :: "step_v5 list \<Rightarrow> operation list \<Rightarrow> bool" where
  "same_identities steps ops =
     list_all2 (\<lambda>s p. \<not> (step_id s \<noteq> op_step_id p \<or> operation_id s \<noteq> op_operation_id p
                        \<or> invocation_id s \<noteq> op_invocation_id p)) steps ops"

definition validate_broker_evidence :: "run_evidence \<Rightarrow> bool" where
  "validate_broker_evidence e =
     (if re_version e \<noteq> broker_run_version then re_broker e = None
      else case re_broker e of
        None \<Rightarrow> False
      | Some a \<Rightarrow>
          (case re_step_execution e of
             None \<Rightarrow> False
           | Some ob \<Rightarrow>
               if validate_authority a \<noteq> Inr () \<or> au_run_id a \<noteq> re_run_id e \<or> au_package a \<noteq> re_package e
                  \<or> au_handoff a \<noteq> re_handoff e \<or> re_browser e \<noteq> None \<or> re_env_names e \<noteq> []
                  \<or> length (obs_steps ob) \<noteq> length (au_operations a) then False
               else same_identities (obs_steps ob) (au_operations a)))"

subsection \<open>The validator\<close>

definition full_digests :: "run_evidence \<Rightarrow> bool" where
  "full_digests e =
     (\<not> (trim_space (re_run_id e) = [] \<or> \<not> valid_sha256 (re_package e) \<or> \<not> valid_sha256 (re_handoff e)
         \<or> \<not> valid_sha256 (re_approval e) \<or> \<not> valid_sha256 (re_run_config e)))"

definition validate_step_execution :: "run_evidence \<Rightarrow> evidence_error + unit" where
  "validate_step_execution e =
     (if re_version e = step_run_version \<or> re_version e = broker_run_version then
        (case re_step_execution e of
           None \<Rightarrow> Inl EvStepExecution
         | Some ob \<Rightarrow>
             if re_browser e \<noteq> None then Inl EvStepExecution
             else case validate_observation_v5 ob of
               Inl x \<Rightarrow> Inl (EvObservation x)
             | Inr _ \<Rightarrow>
                 fail_if (obs_run_id ob \<noteq> re_run_id e \<or> re_dry_run e \<noteq> (obs_state ob = ''dry_run'')) EvPosture)
      else fail_if (re_step_execution e \<noteq> None) EvLegacySteps)"

definition validate_run_evidence :: "run_evidence \<Rightarrow> evidence_error + unit" where
  "validate_run_evidence e =
     first_error
       [fail_if (re_browser e \<noteq> None) EvBrowser,
        fail_if (\<not> validate_broker_evidence e) EvBroker,
        fail_if (re_version e \<noteq> run_version \<and> re_version e \<noteq> step_run_version
                 \<and> re_version e \<noteq> broker_run_version \<and> re_version e \<noteq> legacy_run_version) EvVersion,
        fail_if (trim_space (re_scope e) = []) EvScope,
        fail_if (trim_space (re_package e) = []) EvPackage,
        fail_if (trim_space (re_run_config_path e) = []) EvConfigPath,
        fail_if (trim_space (re_workdir e) = []) EvWorkdir,
        (if re_version e = run_version \<or> re_version e = step_run_version \<or> re_version e = broker_run_version
         then first_error [fail_if (\<not> full_digests e) EvDigests, validate_gates e]
         else Inr ()),
        validate_step_execution e]"

subsection \<open>Asynchronous evidence\<close>

definition payload_count :: "async_record \<Rightarrow> nat" where
  "payload_count r =
     (if ax_request r \<noteq> None then 1 else 0) + (if ax_response r \<noteq> None then 1 else 0)
     + (if ax_status r \<noteq> None then 1 else 0) + (if ax_confirmation r \<noteq> None then 1 else 0)"

definition only_payload :: "async_record \<Rightarrow> json option \<Rightarrow> (json \<Rightarrow> bool) \<Rightarrow> bool" where
  "only_payload r payload valid =
     (case payload of None \<Rightarrow> False | Some p \<Rightarrow> if payload_count r \<noteq> 1 then False else valid p)"

definition async_record_valid :: "async_library \<Rightarrow> async_record \<Rightarrow> bool" where
  "async_record_valid lib r =
     (if ax_kind r = ''execution_request'' then only_payload r (ax_request r) (al_request_valid lib)
      else if ax_kind r = ''execution_response'' then only_payload r (ax_response r) (al_response_valid lib)
      else if ax_kind r = ''status_observation'' then only_payload r (ax_status r) (al_status_valid lib)
      else if ax_kind r = ''confirmation_read_observation''
        then only_payload r (ax_confirmation r) (al_confirmation_valid lib)
      else False)"

definition validate_async_bundle :: "async_library \<Rightarrow> async_bundle \<Rightarrow> bool" where
  "validate_async_bundle lib b =
     (if ab_version b \<noteq> async_version then False
      else if ab_records b = [] then False
      else list_all (async_record_valid lib) (ab_records b))"

end
