(* ===== verification/Run_Verify.thy ===== *)
theory Run_Verify
  imports Run_Evidence
begin

text \<open>
  Package \<^verbatim>\<open>runevidence\<close>, \<^verbatim>\<open>verify.go\<close> and \<^verbatim>\<open>signature.go\<close>: reading an evidence document, its
  signature and the verification of a supplied snapshot. Parameters: \<^verbatim>\<open>clean\<close> for
  \<^verbatim>\<open>artifact.CleanRelativePath\<close>, \<^verbatim>\<open>lib\<close> for the asynchronous payloads, \<^verbatim>\<open>broker_wire\<close> for the JSON
  schema validator, and \<^verbatim>\<open>keys\<close> for the PEM, PKIX, base64 and Ed25519 functions.
\<close>

subsection \<open>The document\<close>

definition broker_binding_fields :: gofields where
  "broker_binding_fields =
     [(''name'', False, GString), (''revision'', False, GString), (''kind'', False, GString),
      (''in'', False, GString), (''parameter'', False, GString)]"

definition broker_operation_fields :: gofields where
  "broker_operation_fields =
     [(''step_id'', False, GString), (''operation_id'', False, GString), (''invocation_id'', False, GString),
      (''method'', False, GString), (''origin'', False, GString), (''constraints_sha256'', False, GString),
      (''bindings'', True, GSlice (GStruct broker_binding_fields))]"

definition broker_fields :: gofields where
  "broker_fields =
     [(''version'', False, GString), (''run_id'', False, GString), (''owner_id'', False, GString),
      (''agent_id'', False, GString), (''grant_id'', False, GString),
      (''grant_revision_sha256'', False, GString), (''occurrence_id'', False, GString),
      (''package_sha256'', False, GString), (''handoff_sha256'', False, GString),
      (''inputs_sha256'', False, GString), (''executor_sha256'', False, GString),
      (''policy_sha256'', False, GString), (''approved_at'', False, GString),
      (''expires_at'', False, GString), (''operations'', False, GSlice (GStruct broker_operation_fields))]"

definition gate_fields :: gofields where
  "gate_fields = [(''name'', False, GString), (''status'', False, GString)]"

definition run_executor_fields :: gofields where
  "run_executor_fields =
     [(''invoked'', False, GBool), (''mode'', False, GString), (''runner_path'', True, GString),
      (''argv'', True, GSlice GString), (''report_path'', True, GString),
      (''report_sha256'', True, GString), (''report_size'', True, GInt)]"

definition async_file_fields :: gofields where
  "async_file_fields =
     [(''path'', False, GString), (''digest'', False, GString), (''records'', False, GInt),
      (''purpose'', False, GString)]"

definition environment_fields :: gofields where
  "environment_fields = [(''name'', False, GString), (''environment'', False, GString)]"

definition replay_fields :: gofields where
  "replay_fields =
     [(''driver_path'', True, GString), (''driver_args'', True, GSlice GString),
      (''driver_environment'', True, GSlice GString), (''protocol'', False, GString),
      (''registration_input_ui'', True, GBool), (''registration_input_service'', True, GString),
      (''registration_input_token_env'', True, GString),
      (''registration_input_expected_env'', True, GString),
      (''credential_environment'', True, GSlice (GStruct environment_fields)),
      (''session_environment'', True, GSlice (GStruct environment_fields)),
      (''approved_operations'', True, GSlice GString), (''approved_authentication'', True, GSlice GString),
      (''approved_registration'', True, GSlice GString), (''attested_registration'', True, GSlice GString),
      (''registration_attestation_sha256'', True, GString)]"

definition run_evidence_fields :: gofields where
  "run_evidence_fields =
     [(''step_execution'', True, GPtr (GStruct observation_fields)), (''version'', False, GString),
      (''run_id'', False, GString), (''created_at'', False, GString), (''scope'', False, GString),
      (''tier'', False, GString), (''dry_run'', False, GBool), (''approval_state'', False, GString),
      (''package_sha256'', False, GString), (''handoff_sha256'', False, GString),
      (''approval_sha256'', False, GString), (''run_config_sha256'', False, GString),
      (''run_config_path'', False, GString), (''package_root'', False, GString),
      (''workdir'', False, GString), (''stage_kind'', False, GString), (''stage_path'', False, GString),
      (''workflow_path'', False, GString), (''package_paths'', False, GSlice GString),
      (''api_source_paths'', True, GSlice GString), (''credential_bindings'', True, GSlice GString),
      (''credential_env_names'', True, GSlice GString), (''browser'', True, GPtr (GStruct replay_fields)),
      (''gates'', False, GSlice (GStruct gate_fields)), (''executor'', False, GStruct run_executor_fields),
      (''async_evidence_files'', True, GSlice (GStruct async_file_fields)),
      (''broker'', True, GPtr (GStruct broker_fields))]"

definition pointer_of :: "(json \<Rightarrow> 'a) \<Rightarrow> json \<Rightarrow> 'a option" where
  "pointer_of f j = (if j = JNull then None else Some (f j))"

definition broker_binding_of_json :: "json \<Rightarrow> binding" where
  "broker_binding_of_json j =
     (let f = (\<lambda>name. str_of (field_value broker_binding_fields name j))
      in \<lparr>bd_name = f ''name'', bd_revision = f ''revision'', bd_kind = f ''kind'', bd_in = f ''in'',
          bd_parameter = f ''parameter''\<rparr>)"

definition broker_operation_of_json :: "json \<Rightarrow> operation" where
  "broker_operation_of_json j =
     (let v = (\<lambda>name. field_value broker_operation_fields name j); f = (\<lambda>name. str_of (v name))
      in \<lparr>op_step_id = f ''step_id'', op_operation_id = f ''operation_id'',
          op_invocation_id = f ''invocation_id'', op_method = f ''method'', op_origin = f ''origin'',
          op_constraints = f ''constraints_sha256'',
          op_bindings = map broker_binding_of_json (elements (v ''bindings''))\<rparr>)"

definition broker_of_json :: "json \<Rightarrow> authority" where
  "broker_of_json j =
     (let v = (\<lambda>name. field_value broker_fields name j); f = (\<lambda>name. str_of (v name))
      in \<lparr>au_version = f ''version'', au_run_id = f ''run_id'', au_owner_id = f ''owner_id'',
          au_agent_id = f ''agent_id'', au_grant_id = f ''grant_id'',
          au_grant_revision = f ''grant_revision_sha256'', au_occurrence_id = f ''occurrence_id'',
          au_package = f ''package_sha256'', au_handoff = f ''handoff_sha256'',
          au_inputs = f ''inputs_sha256'', au_executor = f ''executor_sha256'',
          au_policy = f ''policy_sha256'', au_approved_at = f ''approved_at'',
          au_expires_at = f ''expires_at'',
          au_operations = map broker_operation_of_json (elements (v ''operations''))\<rparr>)"

definition gate_of_json :: "json \<Rightarrow> evidence_gate" where
  "gate_of_json j =
     \<lparr>ga_name = str_of (field_value gate_fields ''name'' j),
      ga_status = str_of (field_value gate_fields ''status'' j)\<rparr>"

definition run_executor_of_json :: "json \<Rightarrow> evidence_executor" where
  "run_executor_of_json j =
     (let v = (\<lambda>name. field_value run_executor_fields name j)
      in \<lparr>xe_invoked = bool_of (v ''invoked''), xe_mode = str_of (v ''mode''),
          xe_runner_path = str_of (v ''runner_path''), xe_argv = strings_of (v ''argv''),
          xe_report_path = str_of (v ''report_path''), xe_report_sha256 = str_of (v ''report_sha256''),
          xe_report_size = int_of_json (v ''report_size'')\<rparr>)"

definition async_file_of_json :: "json \<Rightarrow> async_file" where
  "async_file_of_json j =
     (let v = (\<lambda>name. field_value async_file_fields name j)
      in \<lparr>af_path = str_of (v ''path''), af_digest = str_of (v ''digest''),
          af_records = int_of_json (v ''records''), af_purpose = str_of (v ''purpose'')\<rparr>)"

definition run_evidence_of_json :: "json \<Rightarrow> run_evidence" where
  "run_evidence_of_json j =
     (let v = (\<lambda>name. field_value run_evidence_fields name j); f = (\<lambda>name. str_of (v name));
          l = (\<lambda>name. strings_of (v name))
      in \<lparr>re_step_execution = pointer_of observation_of_json (v ''step_execution''),
          re_version = f ''version'', re_run_id = f ''run_id'', re_created_at = f ''created_at'',
          re_scope = f ''scope'', re_tier = f ''tier'', re_dry_run = bool_of (v ''dry_run''),
          re_approval_state = f ''approval_state'', re_package = f ''package_sha256'',
          re_handoff = f ''handoff_sha256'', re_approval = f ''approval_sha256'',
          re_run_config = f ''run_config_sha256'', re_run_config_path = f ''run_config_path'',
          re_package_root = f ''package_root'', re_workdir = f ''workdir'',
          re_stage_kind = f ''stage_kind'', re_stage_path = f ''stage_path'',
          re_workflow_path = f ''workflow_path'', re_package_paths = l ''package_paths'',
          re_api_paths = l ''api_source_paths'', re_credentials = l ''credential_bindings'',
          re_env_names = l ''credential_env_names'', re_browser = pointer_of id (v ''browser''),
          re_gates = map gate_of_json (elements (v ''gates'')),
          re_executor = run_executor_of_json (v ''executor''),
          re_async_files = map async_file_of_json (elements (v ''async_evidence_files'')),
          re_broker = pointer_of broker_of_json (v ''broker'')\<rparr>)"

definition async_record_fields :: "async_library \<Rightarrow> gofields" where
  "async_record_fields lib =
     [(''kind'', False, GString), (''execution_request'', True, GPtr (al_request_type lib)),
      (''execution_response'', True, GPtr (al_response_type lib)),
      (''status_observation'', True, GPtr (al_status_type lib)),
      (''confirmation_read_observation'', True, GPtr (al_confirmation_type lib))]"

definition async_bundle_fields :: "async_library \<Rightarrow> gofields" where
  "async_bundle_fields lib =
     [(''version'', False, GString), (''records'', False, GSlice (GStruct (async_record_fields lib)))]"

definition async_record_of_json :: "async_library \<Rightarrow> json \<Rightarrow> async_record" where
  "async_record_of_json lib j =
     (let p = (\<lambda>name. pointer_of id (field_value (async_record_fields lib) name j))
      in \<lparr>ax_kind = str_of (field_value (async_record_fields lib) ''kind'' j),
          ax_request = p ''execution_request'', ax_response = p ''execution_response'',
          ax_status = p ''status_observation'', ax_confirmation = p ''confirmation_read_observation''\<rparr>)"

definition async_bundle_of_json :: "async_library \<Rightarrow> json \<Rightarrow> async_bundle" where
  "async_bundle_of_json lib j =
     \<lparr>ab_version = str_of (field_value (async_bundle_fields lib) ''version'' j),
      ab_records = map (async_record_of_json lib)
        (elements (field_value (async_bundle_fields lib) ''records'' j))\<rparr>"

subsection \<open>Signatures\<close>

record signature =
  sg_version :: bytes
  sg_algorithm :: bytes
  sg_fingerprint :: bytes
  sg_evidence :: bytes
  sg_public_key :: bytes
  sg_signature :: bytes

record pem_block =
  pb_type :: bytes
  pb_bytes :: bytes
  pb_rest :: bytes

record key_library =
  kl_pem :: "bytes \<Rightarrow> pem_block option"
  kl_pkix :: "bytes \<Rightarrow> bytes option"
  kl_base64 :: "bytes \<Rightarrow> bytes option"
  kl_verify :: "bytes \<Rightarrow> bytes \<Rightarrow> bytes \<Rightarrow> bool"

definition signature_fields :: gofields where
  "signature_fields =
     [(''version'', False, GString), (''algorithm'', False, GString), (''key_fingerprint'', False, GString),
      (''evidence_sha256'', False, GString), (''public_key_pem'', False, GString),
      (''signature_base64'', False, GString)]"

definition signature_of_json :: "json \<Rightarrow> signature" where
  "signature_of_json j =
     (let f = (\<lambda>name. str_of (field_value signature_fields name j))
      in \<lparr>sg_version = f ''version'', sg_algorithm = f ''algorithm'', sg_fingerprint = f ''key_fingerprint'',
          sg_evidence = f ''evidence_sha256'', sg_public_key = f ''public_key_pem'',
          sg_signature = f ''signature_base64''\<rparr>)"

definition signature_version :: bytes where
  "signature_version = ''openudon.run-evidence-signature.v1''"

text \<open>The digest as bytes, which the hexadecimal text spells out.\<close>

definition word_bytes :: "32 word \<Rightarrow> bytes" where
  "word_bytes w = map (\<lambda>k. char_of (uint w div 256 ^ k mod 256)) [3, 2, 1, 0]"

definition sha256_raw :: "bytes \<Rightarrow> bytes" where
  "sha256_raw s = concat (map word_bytes (sha_words s))"

definition parse_public_key :: "key_library \<Rightarrow> bytes \<Rightarrow> (bytes \<times> bytes) option" where
  "parse_public_key keys data =
     (case kl_pem keys data of
        None \<Rightarrow> None
      | Some b \<Rightarrow>
          if length (trim_space (pb_rest b)) \<noteq> 0 \<or> pb_type b \<noteq> ''PUBLIC KEY'' then None
          else map_option (\<lambda>key. (key, pb_bytes b)) (kl_pkix keys (pb_bytes b)))"

definition fingerprint :: "bytes \<Rightarrow> bytes" where
  "fingerprint der = ''sha256:'' @ sha256 der"

definition signature_max_bytes :: int where "signature_max_bytes = 1048576"
definition key_max_bytes :: int where "key_max_bytes = 65536"

definition verify_signature :: "key_library \<Rightarrow> bytes \<Rightarrow> bytes \<Rightarrow> bytes \<Rightarrow> bool" where
  "verify_signature keys evidence envelope trusted =
     (if max_bytes < int (length evidence) \<or> signature_max_bytes < int (length envelope)
         \<or> key_max_bytes < int (length trusted) then False
      else case decode_strict (GStruct signature_fields) envelope of
        Inl _ \<Rightarrow> False
      | Inr j \<Rightarrow>
          (let s = signature_of_json j
           in if sg_version s \<noteq> signature_version \<or> sg_algorithm s \<noteq> ''ed25519'' then False
              else case parse_public_key keys (sg_public_key s) of
                None \<Rightarrow> False
              | Some (key, der) \<Rightarrow>
                  if fingerprint der \<noteq> sg_fingerprint s then False
                  else if sha256 evidence \<noteq> sg_evidence s then False
                  else case kl_base64 keys (sg_signature s) of
                    None \<Rightarrow> False
                  | Some sig \<Rightarrow>
                      if \<not> kl_verify keys key (sha256_raw evidence) sig then False
                      else if trusted \<noteq> [] then
                        (case parse_public_key keys trusted of
                           None \<Rightarrow> False
                         | Some (_, trusted_der) \<Rightarrow> fingerprint trusted_der = sg_fingerprint s)
                      else True))"


subsection \<open>Verification\<close>

record run_identity =
  id_run_id :: bytes
  id_package :: bytes
  id_handoff :: bytes
  id_approval :: bytes
  id_run_config :: bytes

text \<open>The artifacts are a map: entries with different paths, in the order a range visits them.\<close>

record run_request =
  rr_evidence :: bytes
  rr_artifacts :: "(bytes \<times> bytes) list"
  rr_expected :: "run_identity option"
  rr_inventory :: "inventory_v5 option"
  rr_signature :: bytes
  rr_key :: bytes
  rr_require :: bool

record run_result =
  rv_evidence :: run_evidence
  rv_sha256 :: bytes
  rv_signature :: bool
  rv_trusted :: bool
  rv_legacy :: bool

datatype verify_error = UnsupportedBrowser | RunCanceled | InvalidEvidence

definition run_max_artifacts :: nat where "run_max_artifacts = 1024"
definition run_max_total :: int where "run_max_total = 67108864"

definition safe_path :: "(bytes \<Rightarrow> bytes option) \<Rightarrow> bytes \<Rightarrow> bool" where
  "safe_path clean p = (clean p = Some p \<and> length p \<le> 2048 \<and> trim_space p = p)"

fun artifacts_bounded :: "(bytes \<Rightarrow> bytes option) \<Rightarrow> int \<Rightarrow> (bytes \<times> bytes) list \<Rightarrow> bool" where
  "artifacts_bounded clean used [] = True"
| "artifacts_bounded clean used ((path, data) # rest) =
     (if \<not> safe_path clean path \<or> max_bytes < int (length data) then False
      else if run_max_total < used + int (length data) then False
      else artifacts_bounded clean (used + int (length data)) rest)"

definition gate_status :: "run_evidence \<Rightarrow> bytes \<Rightarrow> bytes" where
  "gate_status e name =
     (case find (\<lambda>g. ga_name g = name) (re_gates e) of None \<Rightarrow> [] | Some g \<Rightarrow> ga_status g)"

definition async_purpose :: bytes where
  "async_purpose = ''openudon_run_async_execution_forwarding''"

text \<open>One reference to a file of asynchronous evidence, with its bytes.\<close>

definition async_file_valid :: "async_library \<Rightarrow> (bytes \<times> bytes) list \<Rightarrow> async_file \<Rightarrow> bool" where
  "async_file_valid lib artifacts ref =
     (case map_of artifacts (af_path ref) of
        None \<Rightarrow> False
      | Some data \<Rightarrow>
          if ''sha256:'' @ sha256 data \<noteq> af_digest ref then False
          else case decode_strict (GStruct (async_bundle_fields lib)) data of
            Inl _ \<Rightarrow> False
          | Inr j \<Rightarrow>
              (let b = async_bundle_of_json lib j
               in \<not> (int (length (ab_records b)) \<noteq> af_records ref \<or> \<not> validate_async_bundle lib b)))"

fun scan_async ::
  "(bytes \<Rightarrow> bytes option) \<Rightarrow> (nat \<Rightarrow> bool) \<Rightarrow> async_library \<Rightarrow> (bytes \<times> bytes) list \<Rightarrow> nat \<Rightarrow> bytes list
     \<Rightarrow> async_file list \<Rightarrow> verify_error + nat \<times> bytes list" where
  "scan_async clean ended lib artifacts n seen [] = Inr (n, seen)"
| "scan_async clean ended lib artifacts n seen (ref # rest) =
     (if ended n then Inl RunCanceled
      else if \<not> safe_path clean (af_path ref) \<or> af_path ref \<in> set seen \<or> af_records ref < 1
              \<or> max_nodes < af_records ref \<or> af_purpose ref \<noteq> async_purpose then Inl InvalidEvidence
      else if \<not> async_file_valid lib artifacts ref then Inl InvalidEvidence
      else scan_async clean ended lib artifacts (n + 1) (af_path ref # seen) rest)"

text \<open>The executor report, with the paths seen before and after.\<close>

definition claims_success :: "run_evidence \<Rightarrow> bool" where
  "claims_success e = (\<not> re_dry_run e \<and> gate_status e ''executor_invocation'' = ''pass'')"

definition report_agrees :: "run_evidence \<Rightarrow> bytes \<Rightarrow> bool" where
  "report_agrees e data =
     (case re_step_execution e of
        Some ob \<Rightarrow>
          (let observed = observe_v5 (observation_inventory ob) data
           in \<not> (obs_state ob \<noteq> ''validated'' \<or> observed \<noteq> ob
                 \<or> claims_success e \<and> obs_report_status observed \<noteq> ''success''))
      | None \<Rightarrow>
          (case decode_report data of
             Inl _ \<Rightarrow> False
           | Inr r \<Rightarrow> \<not> (claims_success e \<and> rp_status r \<noteq> ''success'')))"

definition report_checked ::
  "(bytes \<Rightarrow> bytes option) \<Rightarrow> (bytes \<times> bytes) list \<Rightarrow> run_evidence \<Rightarrow> bytes list \<Rightarrow> bytes list option" where
  "report_checked clean artifacts e seen =
     (let x = re_executor e
      in if re_version e = legacy_run_version then
           (if xe_report_path x \<noteq> [] \<or> xe_report_sha256 x \<noteq> [] \<or> xe_report_size x \<noteq> 0 then None else Some seen)
         else if xe_report_path x = [] then
           (if xe_report_sha256 x \<noteq> [] \<or> xe_report_size x \<noteq> 0 \<or> claims_success e
               \<or> (case re_step_execution e of None \<Rightarrow> False | Some ob \<Rightarrow> obs_state ob = ''validated'') then None else Some seen)
         else case map_of artifacts (xe_report_path x) of
           None \<Rightarrow> None
         | Some data \<Rightarrow>
             if \<not> safe_path clean (xe_report_path x) \<or> xe_report_path x \<in> set seen
                \<or> int (length data) \<noteq> xe_report_size x \<or> sha256 data \<noteq> xe_report_sha256 x then None
             else if \<not> report_agrees e data then None
             else Some (xe_report_path x # seen))"

definition identity_of :: "run_evidence \<Rightarrow> run_identity" where
  "identity_of e =
     \<lparr>id_run_id = re_run_id e, id_package = re_package e, id_handoff = re_handoff e,
      id_approval = re_approval e, id_run_config = re_run_config e\<rparr>"

definition inventory_expected :: "run_evidence \<Rightarrow> inventory_v5 option \<Rightarrow> bool" where
  "inventory_expected e expected =
     (case expected of
        None \<Rightarrow> True
      | Some i \<Rightarrow>
          validate_inventory_v5 i = Inr ()
          \<and> (case re_step_execution e of None \<Rightarrow> False | Some ob \<Rightarrow> i = observation_inventory ob))"

definition signature_accepted :: "key_library \<Rightarrow> run_request \<Rightarrow> run_evidence \<Rightarrow> bool" where
  "signature_accepted keys q e =
     (let asked = (rr_signature q \<noteq> [] \<or> rr_require q \<or> rr_key q \<noteq> [])
      in if re_version e = legacy_run_version then \<not> asked
         else if asked then verify_signature keys (rr_evidence q) (rr_signature q) (rr_key q)
         else True)"

definition request_bounded :: "(bytes \<Rightarrow> bytes option) \<Rightarrow> run_request \<Rightarrow> bool" where
  "request_bounded clean q =
     (\<not> (max_bytes < int (length (rr_evidence q)) \<or> run_max_artifacts < length (rr_artifacts q)
         \<or> signature_max_bytes < int (length (rr_signature q)) \<or> key_max_bytes < int (length (rr_key q)))
      \<and> artifacts_bounded clean (int (length (rr_evidence q))) (rr_artifacts q))"

text \<open>The checks of the decoded document that are not about files.\<close>

definition evidence_accepted ::
  "key_library \<Rightarrow> (bytes \<Rightarrow> bool) \<Rightarrow> run_request \<Rightarrow> run_evidence \<Rightarrow> verify_error + unit" where
  "evidence_accepted keys broker_wire q e =
     (case validate_run_evidence e of
        Inl x \<Rightarrow> Inl (if x = EvBrowser then UnsupportedBrowser else InvalidEvidence)
      | Inr _ \<Rightarrow>
          first_error
            [fail_if (re_version e = broker_run_version \<and> \<not> broker_wire (rr_evidence q)) InvalidEvidence,
             fail_if (case rr_expected q of None \<Rightarrow> False | Some x \<Rightarrow> x \<noteq> identity_of e) InvalidEvidence,
             fail_if (\<not> inventory_expected e (rr_inventory q)) InvalidEvidence,
             fail_if (\<not> signature_accepted keys q e) InvalidEvidence])"

definition run_result_of :: "run_request \<Rightarrow> run_evidence \<Rightarrow> run_result" where
  "run_result_of q e =
     \<lparr>rv_evidence = e, rv_sha256 = sha256 (rr_evidence q), rv_signature = (rr_signature q \<noteq> []),
      rv_trusted = (rr_key q \<noteq> []), rv_legacy = (re_version e = legacy_run_version)\<rparr>"

definition verify_run ::
  "(bytes \<Rightarrow> bytes option) \<Rightarrow> async_library \<Rightarrow> key_library \<Rightarrow> (bytes \<Rightarrow> bool) \<Rightarrow> (nat \<Rightarrow> bool) option
     \<Rightarrow> run_request \<Rightarrow> verify_error + run_result" where
  "verify_run clean lib keys broker_wire ctx q =
     (case ctx of
        None \<Rightarrow> Inl InvalidEvidence
      | Some ended \<Rightarrow>
          if ended 0 then Inl RunCanceled
          else if \<not> request_bounded clean q then Inl InvalidEvidence
          else case decode_strict (GStruct run_evidence_fields) (rr_evidence q) of
            Inl _ \<Rightarrow> Inl InvalidEvidence
          | Inr j \<Rightarrow>
              (let e = run_evidence_of_json j
               in case evidence_accepted keys broker_wire q e of
                    Inl x \<Rightarrow> Inl x
                  | Inr _ \<Rightarrow>
                      (case scan_async clean ended lib (rr_artifacts q) 1 [] (re_async_files e) of
                         Inl x \<Rightarrow> Inl x
                       | Inr (n, seen) \<Rightarrow>
                           (case report_checked clean (rr_artifacts q) e seen of
                              None \<Rightarrow> Inl InvalidEvidence
                            | Some seen' \<Rightarrow>
                                if length seen' \<noteq> length (rr_artifacts q) then Inl InvalidEvidence
                                else if ended n then Inl RunCanceled
                                else Inr (run_result_of q e)))))"

end
