(* ===== verification/Run_Binding.thy ===== *)
theory Run_Binding
  imports Run_Verify
begin

text \<open>
  What validated and verified run evidence establishes, and a gap between the two readings of a
  gate name.
\<close>

subsection \<open>Validated evidence\<close>

definition trimmed :: "evidence_gate \<Rightarrow> bytes \<times> bytes" where
  "trimmed g = (trim_space (ga_name g), trim_space (ga_status g))"

lemma gate_statuses_Inr:
  "gate_statuses st gs = Inr st' \<Longrightarrow>
     st' = rev (map trimmed gs) @ st \<and> fresh (map fst st) (map (\<lambda>g. fst (trimmed g)) gs)
     \<and> (\<forall>g \<in> set gs. fst (trimmed g) \<noteq> [] \<and> snd (trimmed g) \<in> {''pass'', ''fail''})"
proof (induction gs arbitrary: st)
  case (Cons g gs)
  let ?n = "trim_space (ga_name g)" and ?s = "trim_space (ga_status g)"
  have ok: "?n \<noteq> []" "?s \<in> {''pass'', ''fail''}" "?n \<notin> fst ` set st"
    and rest: "gate_statuses ((?n, ?s) # st) gs = Inr st'"
    using Cons.prems by (auto simp: Let_def map_of_eq_None_iff split: if_split_asm)
  from Cons.IH [OF rest] ok show ?case by (simp add: trimmed_def fresh_Cons)
qed simp

text \<open>The gates as the validator reads them: different trimmed names, each a pass or a fail.\<close>

definition gate_of :: "run_evidence \<Rightarrow> bytes \<Rightarrow> bytes option" where
  "gate_of e name = map_of (map trimmed (re_gates e)) name"

lemma validated_gates:
  assumes "validate_gates e = Inr ()"
  shows "distinct (map (\<lambda>g. fst (trimmed g)) (re_gates e))"
    and "\<forall>n \<in> set required_gates. gate_of e n = Some ''pass''"
    and "validate_posture e (gate_of e ''executor_invocation'') = Inr ()"
proof -
  obtain st where st: "gate_statuses [] (re_gates e) = Inr st"
    and req: "find (\<lambda>n. map_of st n \<noteq> Some ''pass'') required_gates = None"
    and posture: "validate_posture e (map_of st ''executor_invocation'') = Inr ()"
    using assms by (auto simp: validate_gates_def split: sum.split_asm option.split_asm)
  note facts = gate_statuses_Inr [OF st]
  show distinct: "distinct (map (\<lambda>g. fst (trimmed g)) (re_gates e))" using facts by simp
  then have "map_of st = map_of (map trimmed (re_gates e))"
    using facts by (subst map_of_inject_set) (simp_all add: rev_map [symmetric] comp_def)
  then have same: "map_of st n = gate_of e n" for n by (simp add: gate_of_def)
  show "\<forall>n \<in> set required_gates. gate_of e n = Some ''pass''"
    using req by (simp add: find_None_iff same)
  show "validate_posture e (gate_of e ''executor_invocation'') = Inr ()" using posture by (simp add: same)
qed

lemma validated_modern:
  assumes "validate_run_evidence e = Inr ()" "re_version e \<noteq> legacy_run_version"
  shows "full_digests e" "validate_gates e = Inr ()"
proof -
  have "accepts (validate_run_evidence e)" using assms(1) by simp
  then have "re_version e \<in> {run_version, step_run_version, broker_run_version}"
    "accepts (if re_version e = run_version \<or> re_version e = step_run_version \<or> re_version e = broker_run_version
         then first_error [fail_if (\<not> full_digests e) EvDigests, validate_gates e]
         else Inr ())"
    using assms(2) unfolding validate_run_evidence_def accepts_first_error by auto
  then have "accepts (first_error [fail_if (\<not> full_digests e) EvDigests, validate_gates e])"
    by (auto split: if_split_asm)
  then have "full_digests e" "accepts (validate_gates e)" by simp_all
  then show "full_digests e" "validate_gates e = Inr ()" by (simp_all add: accepts_unit_iff)
qed

text \<open>
  C40. Valid evidence that is not of the legacy version has full digests and different gates,
  passes all seven review gates, and states one posture: a dry run has no invoked executor and
  no executor gate, and any other run an invoked executor, its gate and the stage that belongs
  to its mode.
\<close>

theorem validated_posture:
  assumes "validate_run_evidence e = Inr ()" "re_version e \<noteq> legacy_run_version"
  shows "full_digests e \<and> distinct (map (\<lambda>g. fst (trimmed g)) (re_gates e))
    \<and> list_all (\<lambda>n. gate_of e n = Some ''pass'') required_gates
    \<and> (if re_dry_run e
       then gate_of e ''executor_invocation'' = None \<and> \<not> xe_invoked (re_executor e)
         \<and> xe_mode (re_executor e) = ''dry-run'' \<and> re_stage_kind e = ''dry-run''
       else gate_of e ''executor_invocation'' \<in> {Some ''pass'', Some ''fail''} \<and> xe_invoked (re_executor e)
         \<and> (xe_mode (re_executor e), re_stage_kind e)
             \<in> {(''internal-runner'', ''executor''), (''external-runner'', ''preflight'')})"
proof -
  note gates = validated_gates [OF validated_modern(2) [OF assms]]
  have "list_all (\<lambda>n. gate_of e n = Some ''pass'') required_gates" using gates(2) by (simp add: list_all_iff)
  moreover have "if re_dry_run e
       then gate_of e ''executor_invocation'' = None \<and> \<not> xe_invoked (re_executor e)
         \<and> xe_mode (re_executor e) = ''dry-run'' \<and> re_stage_kind e = ''dry-run''
       else gate_of e ''executor_invocation'' \<in> {Some ''pass'', Some ''fail''} \<and> xe_invoked (re_executor e)
         \<and> (xe_mode (re_executor e), re_stage_kind e)
             \<in> {(''internal-runner'', ''executor''), (''external-runner'', ''preflight'')}"
    using gates(3) by (auto simp: validate_posture_def split: if_split_asm)
  ultimately show ?thesis using gates(1) validated_modern(1) [OF assms] by blast
qed

subsection \<open>Verified evidence\<close>

lemma scan_async_Inr:
  "scan_async clean ended lib artifacts n seen refs = Inr (n', seen') \<Longrightarrow>
     (\<forall>f \<in> set refs. async_file_valid lib artifacts f) \<and> fresh seen (map af_path refs)
     \<and> seen' = rev (map af_path refs) @ seen"
proof (induction refs arbitrary: n seen)
  case (Cons f refs)
  have ok: "af_path f \<notin> set seen" "async_file_valid lib artifacts f"
    and rest: "scan_async clean ended lib artifacts (n + 1) (af_path f # seen) refs = Inr (n', seen')"
    using Cons.prems by (auto split: if_split_asm)
  from Cons.IH [OF rest] ok show ?case by (simp add: fresh_Cons)
qed simp

lemma async_file_data:
  "async_file_valid lib artifacts f \<Longrightarrow>
     \<exists>data. map_of artifacts (af_path f) = Some data \<and> af_digest f = ''sha256:'' @ sha256 data"
  by (auto simp: async_file_valid_def split: option.split_asm if_split_asm)

definition report_paths :: "run_evidence \<Rightarrow> bytes list" where
  "report_paths e = (if xe_report_path (re_executor e) = [] then [] else [xe_report_path (re_executor e)])"

lemma report_checked_Some:
  assumes "report_checked clean artifacts e seen = Some seen'"
  shows "seen' = report_paths e @ seen" "set (report_paths e) \<inter> set seen = {}"
    and "xe_report_path (re_executor e) \<noteq> [] \<Longrightarrow> \<exists>data.
      map_of artifacts (xe_report_path (re_executor e)) = Some data
      \<and> xe_report_sha256 (re_executor e) = sha256 data \<and> report_agrees e data"
    and "claims_success e \<Longrightarrow> re_version e \<noteq> legacy_run_version \<Longrightarrow> xe_report_path (re_executor e) \<noteq> []"
  using assms by (auto simp: report_checked_def report_paths_def Let_def split: if_split_asm option.split_asm)

lemma verify_run_Inr:
  assumes "verify_run clean lib keys broker_wire ctx q = Inr r"
  obtains seen seen' where "r = run_result_of q (rv_evidence r)"
    "evidence_accepted keys broker_wire q (rv_evidence r) = Inr ()"
    "\<forall>f \<in> set (re_async_files (rv_evidence r)). async_file_valid lib (rr_artifacts q) f"
    "distinct (map af_path (re_async_files (rv_evidence r)))"
    "seen = rev (map af_path (re_async_files (rv_evidence r)))"
    "report_checked clean (rr_artifacts q) (rv_evidence r) seen = Some seen'"
    "length seen' = length (rr_artifacts q)"
proof -
  obtain ended e n seen seen' where e: "evidence_accepted keys broker_wire q e = Inr ()"
    and scan: "scan_async clean ended lib (rr_artifacts q) 1 [] (re_async_files e) = Inr (n, seen)"
    and report: "report_checked clean (rr_artifacts q) e seen = Some seen'"
    and count: "length seen' = length (rr_artifacts q)" and r: "r = run_result_of q e"
    using assms
    by (auto simp: verify_run_def Let_def split: if_split_asm option.split_asm sum.split_asm prod.split_asm)
  have "rv_evidence r = e" by (simp add: r run_result_of_def)
  with e scan_async_Inr [OF scan] report count r show ?thesis
    by (intro that [of seen seen']) (simp_all add: fresh_def)
qed

lemma accepted_valid:
  assumes "evidence_accepted keys broker_wire q e = Inr ()"
  shows "validate_run_evidence e = Inr ()" "\<forall>x. rr_expected q = Some x \<longrightarrow> x = identity_of e"
    "signature_accepted keys q e"
    "re_version e = broker_run_version \<Longrightarrow> broker_wire (rr_evidence q)"
proof -
  show v: "validate_run_evidence e = Inr ()"
    using assms by (auto simp: evidence_accepted_def split: sum.split_asm)
  have "accepts (evidence_accepted keys broker_wire q e)" using assms by simp
  then show "\<forall>x. rr_expected q = Some x \<longrightarrow> x = identity_of e" "signature_accepted keys q e"
    "re_version e = broker_run_version \<Longrightarrow> broker_wire (rr_evidence q)"
    unfolding evidence_accepted_def v by (auto simp: accepts_first_error)
qed

lemma referenced_artifacts:
  assumes "verify_run clean lib keys broker_wire ctx q = Inr r" "distinct (map fst (rr_artifacts q))"
  shows "set (map fst (rr_artifacts q))
    = set (map af_path (re_async_files (rv_evidence r)) @ report_paths (rv_evidence r))"
  using assms(1)
proof (rule verify_run_Inr)
  fix seen seen'
  let ?e = "rv_evidence r" and ?keys = "map fst (rr_artifacts q)"
  assume async: "\<forall>f \<in> set (re_async_files ?e). async_file_valid lib (rr_artifacts q) f"
    and distinct: "distinct (map af_path (re_async_files ?e))"
    and seen: "seen = rev (map af_path (re_async_files ?e))"
    and report: "report_checked clean (rr_artifacts q) ?e seen = Some seen'"
    and count: "length seen' = length (rr_artifacts q)"
  note facts = report_checked_Some [OF report]
  have known: "p \<in> set ?keys" if "map_of (rr_artifacts q) p = Some data" for p data
    using map_of_SomeD [OF that] by force
  have "af_path f \<in> set ?keys" if "f \<in> set (re_async_files ?e)" for f
    using async_file_data async known that by blast
  moreover have "set (report_paths ?e) \<subseteq> set ?keys"
    using facts(3) known by (auto simp: report_paths_def split: if_split_asm)
  ultimately have "set seen' \<subseteq> set ?keys" by (auto simp: facts(1) seen)
  moreover have "distinct seen'" using facts(1,2) distinct by (auto simp: seen report_paths_def)
  ultimately have "set seen' = set ?keys"
    using count assms(2) by (intro card_subset_eq) (simp_all add: distinct_card del: set_map)
  then show ?thesis by (auto simp: facts(1) seen)
qed

lemma verify_run_decoded:
  assumes "verify_run clean lib keys broker_wire ctx q = Inr r"
  shows "\<exists>j. decode_strict (GStruct run_evidence_fields) (rr_evidence q) = Inr j
    \<and> r = run_result_of q (run_evidence_of_json j)"
  using assms
  by (auto simp: verify_run_def Let_def split: if_split_asm option.split_asm sum.split_asm prod.split_asm)

lemma artifacts_recorded:
  assumes "verify_run clean lib keys broker_wire ctx q = Inr r"
  shows "\<forall>f \<in> set (re_async_files (rv_evidence r)). \<exists>data.
      (af_path f, data) \<in> set (rr_artifacts q) \<and> af_digest f = ''sha256:'' @ sha256 data"
    and "\<forall>p \<in> set (report_paths (rv_evidence r)). \<exists>data.
      (p, data) \<in> set (rr_artifacts q) \<and> xe_report_sha256 (re_executor (rv_evidence r)) = sha256 data
      \<and> report_agrees (rv_evidence r) data"
proof -
  let ?e = "rv_evidence r"
  obtain seen seen' where async: "\<forall>f \<in> set (re_async_files ?e). async_file_valid lib (rr_artifacts q) f"
    and report: "report_checked clean (rr_artifacts q) ?e seen = Some seen'"
    using assms by (rule verify_run_Inr) blast
  show "\<forall>f \<in> set (re_async_files ?e). \<exists>data.
      (af_path f, data) \<in> set (rr_artifacts q) \<and> af_digest f = ''sha256:'' @ sha256 data"
    using async_file_data async map_of_SomeD by metis
  show "\<forall>p \<in> set (report_paths ?e). \<exists>data.
      (p, data) \<in> set (rr_artifacts q) \<and> xe_report_sha256 (re_executor ?e) = sha256 data
      \<and> report_agrees ?e data"
    using report_checked_Some(3) [OF report] map_of_SomeD
    by (fastforce simp: report_paths_def split: if_split_asm)
qed

text \<open>
  C38. Verified evidence is bound to what was supplied: the evidence in the result is the
  document decoded from the supplied bytes, beside the digest of these bytes and the facts on
  signature, key and version; it is valid, of the expected identity and accepted under
  the supplied signature; the artifacts, supplied under distinct paths, are exactly the files it
  references, and the digests it records are the digests of their bytes, the report agreeing with
  the recorded steps.
\<close>

theorem verified_run_binds:
  assumes "verify_run clean lib keys broker_wire ctx q = Inr r" "distinct (map fst (rr_artifacts q))"
  shows "(\<exists>j. decode_strict (GStruct run_evidence_fields) (rr_evidence q) = Inr j
        \<and> rv_evidence r = run_evidence_of_json j)
    \<and> rv_sha256 r = sha256 (rr_evidence q) \<and> rv_signature r = (rr_signature q \<noteq> [])
    \<and> rv_trusted r = (rr_key q \<noteq> []) \<and> rv_legacy r = (re_version (rv_evidence r) = legacy_run_version)
    \<and> validate_run_evidence (rv_evidence r) = Inr () \<and> signature_accepted keys q (rv_evidence r)
    \<and> (\<forall>x. rr_expected q = Some x \<longrightarrow> x = identity_of (rv_evidence r))
    \<and> set (map fst (rr_artifacts q))
        = set (map af_path (re_async_files (rv_evidence r)) @ report_paths (rv_evidence r))
    \<and> (\<forall>f \<in> set (re_async_files (rv_evidence r)). \<exists>data.
          (af_path f, data) \<in> set (rr_artifacts q) \<and> af_digest f = ''sha256:'' @ sha256 data)
    \<and> (\<forall>p \<in> set (report_paths (rv_evidence r)). \<exists>data.
          (p, data) \<in> set (rr_artifacts q) \<and> xe_report_sha256 (re_executor (rv_evidence r)) = sha256 data
          \<and> report_agrees (rv_evidence r) data)"
proof -
  obtain j where j: "decode_strict (GStruct run_evidence_fields) (rr_evidence q) = Inr j"
    and r: "r = run_result_of q (run_evidence_of_json j)"
    using verify_run_decoded [OF assms(1)] by blast
  have fields: "rv_evidence r = run_evidence_of_json j" "rv_sha256 r = sha256 (rr_evidence q)"
    "rv_signature r = (rr_signature q \<noteq> [])" "rv_trusted r = (rr_key q \<noteq> [])"
    "rv_legacy r = (re_version (rv_evidence r) = legacy_run_version)"
    by (simp_all add: r run_result_of_def)
  have accepted: "evidence_accepted keys broker_wire q (rv_evidence r) = Inr ()"
    using assms(1) by (rule verify_run_Inr)
  show ?thesis
    using j fields accepted_valid(1-3) [OF accepted] referenced_artifacts [OF assms]
      artifacts_recorded [OF assms(1)] by blast
qed

text \<open>
  C39. No success without a successful report. When verified evidence that is not of the legacy
  version says that its executor gate passed, in exactly these words, a supplied report with the
  recorded digest says success too.
\<close>

theorem success_is_reported:
  assumes "verify_run clean lib keys broker_wire ctx q = Inr r" "claims_success (rv_evidence r)"
    and "re_version (rv_evidence r) \<noteq> legacy_run_version"
  shows "\<exists>data. map_of (rr_artifacts q) (xe_report_path (re_executor (rv_evidence r))) = Some data
    \<and> xe_report_sha256 (re_executor (rv_evidence r)) = sha256 data
    \<and> (case re_step_execution (rv_evidence r) of
         Some ob \<Rightarrow> ob = observe_v5 (observation_inventory ob) data \<and> obs_report_status ob = ''success''
       | None \<Rightarrow> (\<exists>rep. decode_report data = Inr rep \<and> rp_status rep = ''success''))"
  using assms(1)
proof (rule verify_run_Inr)
  fix seen seen'
  assume report: "report_checked clean (rr_artifacts q) (rv_evidence r) seen = Some seen'"
  note facts = report_checked_Some [OF report]
  obtain data where "map_of (rr_artifacts q) (xe_report_path (re_executor (rv_evidence r))) = Some data"
    "xe_report_sha256 (re_executor (rv_evidence r)) = sha256 data" "report_agrees (rv_evidence r) data"
    using facts(3) facts(4) [OF assms(2,3)] by blast
  then show ?thesis
    using assms(2) by (auto simp: report_agrees_def Let_def split: option.splits sum.split_asm)
qed

end
