(* ===== verification/Run_Sample.thy ===== *)
theory Run_Sample
  imports Run_Binding Json_Conform
begin

text \<open>
  A verified run with a report: the witnesses of the properties of run evidence, and a run whose
  gate name carries a space.
\<close>

declare utf8_len.simps [simp del]

subsection \<open>The report\<close>

definition run_report_tree :: json where
  "run_report_tree =
     JObj [(''version'', JStr version_v2), (''status'', JStr ''success''),
           (''started_at'', JStr ''2026-01-01T00:00:00Z''), (''finished_at'', JStr ''2026-01-01T00:00:01Z''),
           (''workflow_path'', JStr ''w''), (''workflow_format'', JStr ''uws''), (''workdir'', JStr ''d'')]"

definition run_report :: bytes where
  "run_report = marshal run_report_tree"

lemma run_report_size: "int (length run_report) = 188"
  by code_simp

lemma run_report_decodes: "decode_strict (GStruct report_fields) run_report = Inr run_report_tree"
  unfolding run_report_def marshal_def
proof (rule decode_print)
  show "conforms (GStruct report_fields) run_report_tree"
    unfolding run_report_tree_def by (rule conforms_struct) (simp_all add: report_fields_def ex_bool_eq)
qed code_simp+

lemma run_report_checked:
  "check_report (legacy_report_of_json run_report_tree) run_report_tree = Inr ()"
  "rp_status (legacy_report_of_json run_report_tree) = ''success''"
  by code_simp+

lemma run_report_accepted: "decode_report run_report = Inr (legacy_report_of_json run_report_tree)"
  by (simp add: decode_report_def run_report_decodes Let_def run_report_checked)

subsection \<open>The evidence\<close>

definition gate_tree :: "evidence_gate \<Rightarrow> json" where
  "gate_tree g = JObj [(''name'', JStr (ga_name g)), (''status'', JStr (ga_status g))]"

definition passed :: "bytes \<Rightarrow> evidence_gate" where
  "passed name = \<lparr>ga_name = name, ga_status = ''pass''\<rparr>"

definition run_gates :: "evidence_gate list" where
  "run_gates = map passed (required_gates @ [''executor_invocation''])"

definition run_digest :: bytes where
  "run_digest = replicate 64 CHR ''a''"

definition run_executor :: "bytes \<Rightarrow> evidence_executor" where
  "run_executor h =
     \<lparr>xe_invoked = True, xe_mode = ''internal-runner'', xe_runner_path = [], xe_argv = [],
      xe_report_path = ''report.json'', xe_report_sha256 = h, xe_report_size = 188\<rparr>"

definition sample_run :: "bytes \<Rightarrow> run_evidence" where
  "sample_run h =
     \<lparr>re_step_execution = None, re_version = run_version, re_run_id = ''run-1'', re_created_at = [],
      re_scope = ''orders'', re_tier = ''sandbox'', re_dry_run = False, re_approval_state = [],
      re_package = run_digest, re_handoff = run_digest, re_approval = run_digest, re_run_config = run_digest,
      re_run_config_path = ''run.json'', re_package_root = [], re_workdir = ''work'',
      re_stage_kind = ''executor'', re_stage_path = [], re_workflow_path = [], re_package_paths = [],
      re_api_paths = [], re_credentials = [], re_env_names = [], re_browser = None, re_gates = run_gates,
      re_executor = run_executor h, re_async_files = [], re_broker = None\<rparr>"

definition run_executor_tree :: "bytes \<Rightarrow> json" where
  "run_executor_tree h =
     JObj [(''invoked'', JBool True), (''mode'', JStr ''internal-runner''),
           (''report_path'', JStr ''report.json''), (''report_sha256'', JStr h), (''report_size'', JNum ''188'')]"

definition run_head :: "(bytes \<times> json) list" where
  "run_head =
     [(''version'', JStr run_version), (''run_id'', JStr ''run-1''), (''scope'', JStr ''orders''),
      (''tier'', JStr ''sandbox''), (''dry_run'', JBool False), (''package_sha256'', JStr run_digest),
      (''handoff_sha256'', JStr run_digest), (''approval_sha256'', JStr run_digest),
      (''run_config_sha256'', JStr run_digest), (''run_config_path'', JStr ''run.json''),
      (''workdir'', JStr ''work''), (''stage_kind'', JStr ''executor''),
      (''gates'', JArr (map gate_tree run_gates))]"

definition run_tree :: "bytes \<Rightarrow> json" where
  "run_tree h = JObj (run_head @ [(''executor'', run_executor_tree h)])"

lemma gate_read: "gate_of_json (gate_tree g) = g"
  by (cases g) (simp add: gate_of_json_def gate_tree_def field_value_exact gate_fields_def str_of_def)

lemma executor_read: "run_executor_of_json (run_executor_tree h) = run_executor h"
proof -
  have "int_lexeme ''188'' = Some 188" by code_simp
  then show ?thesis
    by (simp add: run_executor_of_json_def run_executor_tree_def run_executor_def Let_def field_value_exact
        run_executor_fields_def str_of_def bool_of_def strings_of_def elements_def int_of_json_def)
qed

lemma run_read: "run_evidence_of_json (run_tree h) = sample_run h"
  by (simp add: run_evidence_of_json_def run_tree_def run_head_def sample_run_def Let_def field_value_exact
      run_evidence_fields_def str_of_def bool_of_def strings_of_def elements_def pointer_of_def executor_read
      comp_def gate_read)

lemma run_valid: "validate_run_evidence (sample_run h) = Inr ()"
  by code_simp

lemma run_blank_size:
  "print_bound (run_tree []) \<le> 10000 \<and> node_count (run_tree []) \<le> max_nodes \<and> printable (run_tree [])
   \<and> depth_of (run_tree []) \<le> max_depth"
  by code_simp

lemma executor_sizes:
  "print_bound (run_executor_tree h) = print_bound (run_executor_tree []) + 6 * int (length h)"
  "node_count (run_executor_tree h) = node_count (run_executor_tree [])"
  "depth_of (run_executor_tree h) = depth_of (run_executor_tree [])"
  "utf8_valid h \<Longrightarrow> printable (run_executor_tree []) \<Longrightarrow> printable (run_executor_tree h)"
  by (simp_all add: run_executor_tree_def)

lemma run_sizes:
  "print_bound (run_tree h) = print_bound (run_tree []) + 6 * int (length h)"
  "node_count (run_tree h) = node_count (run_tree [])" "depth_of (run_tree h) = depth_of (run_tree [])"
  "utf8_valid h \<Longrightarrow> printable (run_tree []) \<Longrightarrow> printable (run_tree h)"
  unfolding run_tree_def
  by (simp_all add: executor_sizes(1) [of h] executor_sizes(2) [of h] executor_sizes(3) [of h] executor_sizes(4))

lemma gate_conforms: "conforms (GStruct gate_fields) (gate_tree g)"
  unfolding gate_tree_def by (rule conforms_struct) (simp_all add: gate_fields_def ex_bool_eq)

lemma executor_conforms: "conforms (GStruct run_executor_fields) (run_executor_tree h)"
proof -
  have "conforms GInt (JNum ''188'')" by code_simp
  then show ?thesis
    unfolding run_executor_tree_def
    by (intro conforms_struct) (simp_all add: run_executor_fields_def ex_bool_eq)
qed

lemma run_conforms: "conforms (GStruct run_evidence_fields) (run_tree h)"
  unfolding run_tree_def run_head_def
  by (rule conforms_struct)
    (simp_all add: run_evidence_fields_def ex_bool_eq gate_conforms executor_conforms)

lemma run_decodes:
  assumes "plain_sha256 h"
  shows "decode_strict (GStruct run_evidence_fields) (marshal (run_tree h)) = Inr (run_tree h)"
    and "int (length (marshal (run_tree h))) \<le> 20000"
proof -
  have "utf8_valid h" by (rule ascii_piece) (use assms in \<open>auto simp: plain_sha256_def list_all_iff class_defs\<close>)
  then have p: "printable (run_tree h)" using run_blank_size run_sizes(4) by blast
  have bound: "print_bound (run_tree h) \<le> 20000"
    using run_blank_size assms by (simp add: run_sizes(1) [of h] plain_sha256_def)
  then show "int (length (marshal (run_tree h))) \<le> 20000"
    unfolding marshal_def using length_print order.trans by blast
  show "decode_strict (GStruct run_evidence_fields) (marshal (run_tree h)) = Inr (run_tree h)"
    unfolding marshal_def
    by (rule decode_print [OF p run_conforms])
      (use bound run_blank_size in \<open>simp_all add: run_sizes(2,3) [of h] max_bytes_def\<close>)
qed

subsection \<open>Its verification\<close>

definition sample_request :: run_request where
  "sample_request =
     \<lparr>rr_evidence = marshal (run_tree (sha256 run_report)), rr_artifacts = [(''report.json'', run_report)],
      rr_expected = Some (identity_of (sample_run [])), rr_inventory = None, rr_signature = [], rr_key = [],
      rr_require = False\<rparr>"

lemma report_path_safe: "safe_path Some ''report.json''"
  by code_simp

lemma sample_claims: "claims_success (sample_run h)" "re_version (sample_run h) \<noteq> legacy_run_version"
  by (simp_all add: claims_success_def sample_run_def gate_status_def run_gates_def required_gates_def passed_def
      run_versions)

lemma sample_report_checked:
  "report_checked Some [(''report.json'', run_report)] (sample_run (sha256 run_report)) [] = Some [''report.json'']"
proof -
  have "report_agrees (sample_run (sha256 run_report)) run_report"
    by (simp add: report_agrees_def sample_run_def run_report_accepted run_report_checked)
  then show ?thesis
    using run_report_size report_path_safe sample_claims(2) [of "sha256 run_report"]
    by (simp add: report_checked_def Let_def) (simp add: sample_run_def run_executor_def)
qed

lemma sample_verified:
  "verify_run Some lib keys broker_wire (Some (\<lambda>n. False)) sample_request
     = Inr (run_result_of sample_request (sample_run (sha256 run_report)))"
proof -
  let ?e = "sample_run (sha256 run_report)"
  have "identity_of (sample_run []) = identity_of ?e" by (simp add: identity_of_def sample_run_def)
  moreover have "re_version ?e \<noteq> broker_run_version" by (simp add: sample_run_def run_versions)
  ultimately have "evidence_accepted keys broker_wire sample_request ?e = Inr ()"
    using sample_claims(2) [of "sha256 run_report"]
    by (simp add: evidence_accepted_def run_valid sample_request_def inventory_expected_def signature_accepted_def
        fail_if_def)
  moreover have "request_bounded Some sample_request"
    using run_decodes(2) [OF sha256_plain, of run_report] run_report_size report_path_safe
    by (simp add: request_bounded_def sample_request_def max_bytes_def run_max_artifacts_def run_max_total_def
        signature_max_bytes_def key_max_bytes_def)
  moreover have "re_async_files ?e = []" by (simp add: sample_run_def)
  ultimately show ?thesis
    using sample_report_checked
    by (simp add: verify_run_def Let_def sample_request_def run_decodes(1) [OF sha256_plain] run_read)
qed

definition no_async :: async_library where
  "no_async =
     \<lparr>al_request_type = GStruct [], al_response_type = GStruct [], al_status_type = GStruct [],
      al_confirmation_type = GStruct [], al_request_valid = (\<lambda>j. True), al_response_valid = (\<lambda>j. True),
      al_status_valid = (\<lambda>j. True), al_confirmation_valid = (\<lambda>j. True)\<rparr>"

definition no_keys :: key_library where
  "no_keys =
     \<lparr>kl_pem = (\<lambda>s. None), kl_pkix = (\<lambda>s. None), kl_base64 = (\<lambda>s. None), kl_verify = (\<lambda>k m s. False)\<rparr>"

theorem validated_posture_witness:
  "full_digests (sample_run [])
   \<and> list_all (\<lambda>n. gate_of (sample_run []) n = Some ''pass'') required_gates
   \<and> xe_invoked (re_executor (sample_run []))"
proof -
  have "\<not> re_dry_run (sample_run [])" by (simp add: sample_run_def)
  then show ?thesis using validated_posture [OF run_valid sample_claims(2), of "[]"] by simp
qed

theorem verified_run_binds_witness:
  "\<exists>r. verify_run Some no_async no_keys (\<lambda>data. True) (Some (\<lambda>n. False)) sample_request = Inr r
     \<and> (\<exists>j. decode_strict (GStruct run_evidence_fields) (rr_evidence sample_request) = Inr j
          \<and> rv_evidence r = run_evidence_of_json j)
     \<and> rv_evidence r = sample_run (sha256 run_report)
     \<and> set (map fst (rr_artifacts sample_request)) = set (report_paths (rv_evidence r))
     \<and> report_agrees (rv_evidence r) run_report"
proof -
  let ?r = "run_result_of sample_request (sample_run (sha256 run_report))"
  have v: "verify_run Some no_async no_keys (\<lambda>data. True) (Some (\<lambda>n. False)) sample_request = Inr ?r"
    by (rule sample_verified)
  have e: "rv_evidence ?r = sample_run (sha256 run_report)" by (simp add: run_result_of_def)
  have d: "distinct (map fst (rr_artifacts sample_request))" by (simp add: sample_request_def)
  have paths: "report_paths (sample_run (sha256 run_report)) = [''report.json'']"
    "re_async_files (sample_run (sha256 run_report)) = []"
    by (simp_all add: report_paths_def sample_run_def run_executor_def)
  note binds = verified_run_binds [OF v d]
  have "report_agrees (rv_evidence ?r) run_report"
    using binds unfolding e paths by (simp add: sample_request_def)
  moreover have "set (map fst (rr_artifacts sample_request)) = set (report_paths (rv_evidence ?r))"
    unfolding e paths by (simp add: sample_request_def)
  moreover have "\<exists>j. decode_strict (GStruct run_evidence_fields) (rr_evidence sample_request) = Inr j
      \<and> rv_evidence ?r = run_evidence_of_json j"
    using binds by blast
  ultimately show ?thesis using v e by blast
qed

theorem success_is_reported_witness:
  "\<exists>rep. decode_report run_report = Inr rep \<and> rp_status rep = ''success''
     \<and> xe_report_sha256 (re_executor (sample_run (sha256 run_report))) = sha256 run_report"
proof -
  let ?r = "run_result_of sample_request (sample_run (sha256 run_report))"
  have v: "verify_run Some no_async no_keys (\<lambda>data. True) (Some (\<lambda>n. False)) sample_request = Inr ?r"
    by (rule sample_verified)
  have e: "rv_evidence ?r = sample_run (sha256 run_report)" by (simp add: run_result_of_def)
  have "xe_report_path (re_executor (sample_run (sha256 run_report))) = ''report.json''"
    "re_step_execution (sample_run (sha256 run_report)) = None"
    by (simp_all add: sample_run_def run_executor_def)
  with success_is_reported [OF v, unfolded e, OF sample_claims] show ?thesis
    by (simp add: sample_request_def)
qed

subsection \<open>A padded gate name\<close>

definition padded_run :: run_evidence where
  "padded_run = (sample_run [])
     \<lparr>re_gates := map passed (required_gates @ ['' executor_invocation'']),
      re_executor := (run_executor [])\<lparr>xe_report_path := [], xe_report_size := 0\<rparr>\<rparr>"

text \<open>
  The validator trims the names of gates, the lookup that decides whether a report is owed does
  not. Evidence whose executor gate is called with a leading space validates as a run whose
  executor gate passed, and no report is asked for.
\<close>

theorem padded_gate_owes_no_report:
  "validate_run_evidence padded_run = Inr () \<and> gate_of padded_run ''executor_invocation'' = Some ''pass''
   \<and> \<not> re_dry_run padded_run \<and> report_checked Some [] padded_run [] = Some []"
  by code_simp

end
