(* ===== verification/Transaction_Wire.thy ===== *)
theory Transaction_Wire
  imports Browser_Transaction Go_Decode
begin

text \<open>
  Package \<^verbatim>\<open>browsertransaction\<close>, the documents: the scan for repeated names, \<^verbatim>\<open>Decode\<close> and
  \<^verbatim>\<open>DecodeVerified\<close>. The decoder matches names up to case and merges repeated fields, the scan
  looks for exact repetitions only; the model follows both.
\<close>

definition candidate_fields :: gofields where
  "candidate_fields =
     [(''kind'', False, GString), (''schema'', False, GString), (''source_sha256'', False, GString),
      (''review_sha256'', False, GString)]"

definition provenance_fields :: gofields where
  "provenance_fields =
     [(''producer'', False, GString), (''result_version'', False, GString),
      (''result_sha256'', False, GString), (''observed_at'', False, GString),
      (''expires_at'', False, GString), (''origins'', False, GSlice GString)]"

definition binding_fields :: gofields where
  "binding_fields = [(''slot'', False, GString), (''binding'', False, GString)]"

definition preparation_fields :: gofields where
  "preparation_fields = [(''package_sha256'', False, GString), (''qualification_sha256'', False, GString)]"

definition promotion_fields :: gofields where
  "promotion_fields = [(''generation_sha256'', False, GString)]"

definition failure_fields :: gofields where
  "failure_fields = [(''class'', False, GString), (''code'', False, GString)]"

definition transaction_fields :: gofields where
  "transaction_fields =
     [(''version'', False, GString), (''id'', False, GString), (''kind'', False, GString),
      (''state'', False, GString), (''candidates'', False, GSlice (GStruct candidate_fields)),
      (''provenance'', False, GStruct provenance_fields),
      (''credential_bindings'', False, GSlice (GStruct binding_fields)), (''session'', True, GString),
      (''preparation'', True, GPtr (GStruct preparation_fields)),
      (''promotion'', True, GPtr (GStruct promotion_fields)),
      (''failure'', True, GPtr (GStruct failure_fields))]"

definition texts_of :: "json \<Rightarrow> bytes list" where
  "texts_of j = map str_of (elements j)"

text \<open>A nil slice and a nil pointer show as null.\<close>

definition present :: "(json \<Rightarrow> 'a) \<Rightarrow> json \<Rightarrow> 'a option" where
  "present f j = (if j = JNull then None else Some (f j))"

definition candidate_of_json :: "json \<Rightarrow> candidate" where
  "candidate_of_json j =
     (let f = (\<lambda>name. str_of (field_value candidate_fields name j))
      in \<lparr>ca_kind = f ''kind'', ca_schema = f ''schema'', ca_source = f ''source_sha256'',
          ca_review = f ''review_sha256''\<rparr>)"

definition provenance_of_json :: "json \<Rightarrow> provenance" where
  "provenance_of_json j =
     (let v = (\<lambda>name. field_value provenance_fields name j); f = (\<lambda>name. str_of (v name))
      in \<lparr>pv_producer = f ''producer'', pv_result_version = f ''result_version'',
          pv_result_sha256 = f ''result_sha256'', pv_observed_at = f ''observed_at'',
          pv_expires_at = f ''expires_at'', pv_origins = texts_of (v ''origins'')\<rparr>)"

definition binding_of_json :: "json \<Rightarrow> credential_binding" where
  "binding_of_json j =
     \<lparr>cb_slot = str_of (field_value binding_fields ''slot'' j),
      cb_binding = str_of (field_value binding_fields ''binding'' j)\<rparr>"

definition preparation_of_json :: "json \<Rightarrow> preparation" where
  "preparation_of_json j =
     \<lparr>pr_package = str_of (field_value preparation_fields ''package_sha256'' j),
      pr_qualification = str_of (field_value preparation_fields ''qualification_sha256'' j)\<rparr>"

definition promotion_of_json :: "json \<Rightarrow> promotion" where
  "promotion_of_json j = \<lparr>pm_generation = str_of (field_value promotion_fields ''generation_sha256'' j)\<rparr>"

definition failure_of_json :: "json \<Rightarrow> failure" where
  "failure_of_json j =
     \<lparr>fl_class = str_of (field_value failure_fields ''class'' j),
      fl_code = str_of (field_value failure_fields ''code'' j)\<rparr>"

definition transaction_of_json :: "json \<Rightarrow> transaction" where
  "transaction_of_json j =
     (let v = (\<lambda>name. field_value transaction_fields name j); f = (\<lambda>name. str_of (v name))
      in \<lparr>tx_version = f ''version'', tx_id = f ''id'', tx_kind = f ''kind'', tx_state = f ''state'',
          tx_candidates = map candidate_of_json (elements (v ''candidates'')),
          tx_provenance = provenance_of_json (v ''provenance''),
          tx_bindings = present (\<lambda>x. map binding_of_json (elements x)) (v ''credential_bindings''),
          tx_session = f ''session'',
          tx_preparation = present preparation_of_json (v ''preparation''),
          tx_promotion = present promotion_of_json (v ''promotion''),
          tx_failure = present failure_of_json (v ''failure'')\<rparr>)"

subsection \<open>Decoding\<close>

definition tx_max_depth :: int where
  "tx_max_depth = 32"

text \<open>\<^verbatim>\<open>scanJSONValue\<close> over a well-formed document: nesting and exact repetitions.\<close>

fun scan_names :: "int \<Rightarrow> json \<Rightarrow> bool"
  and scan_name_members :: "int \<Rightarrow> bytes list \<Rightarrow> (bytes \<times> json) list \<Rightarrow> bool"
  and scan_name_elements :: "int \<Rightarrow> json list \<Rightarrow> bool"
where
  "scan_names depth j =
     (case j of
        JObj ms \<Rightarrow> if tx_max_depth \<le> depth then False else scan_name_members depth [] ms
      | JArr xs \<Rightarrow> if tx_max_depth \<le> depth then False else scan_name_elements depth xs
      | _ \<Rightarrow> True)"
| "scan_name_members depth seen [] = True"
| "scan_name_members depth seen (m # ms) =
     (if fst m \<in> set seen then False
      else if \<not> scan_names (depth + 1) (snd m) then False
      else scan_name_members depth (fst m # seen) ms)"
| "scan_name_elements depth [] = True"
| "scan_name_elements depth (x # xs) =
     (if \<not> scan_names (depth + 1) x then False else scan_name_elements depth xs)"

datatype tx_decode_error =
    TooLarge
  | NotUtf8
  | BadDocument
  | BadTransaction tx_error
  | DigestMismatch

definition decode_transaction :: "bytes \<Rightarrow> tx_decode_error + transaction" where
  "decode_transaction data =
     (if tx_max_bytes < int (length data) then Inl TooLarge
      else if \<not> utf8_valid data then Inl NotUtf8
      else case parse_json data of
        None \<Rightarrow> Inl BadDocument
      | Some j \<Rightarrow>
          if \<not> scan_names 0 j \<or> \<not> fits (GStruct transaction_fields) j then Inl BadDocument
          else
            (let t = transaction_of_json (received (GStruct transaction_fields) j)
             in case validate_transaction t of
                  Inl e \<Rightarrow> Inl (BadTransaction e)
                | Inr _ \<Rightarrow> Inr t))"

definition decode_verified :: "bytes \<Rightarrow> bytes \<Rightarrow> tx_decode_error + transaction" where
  "decode_verified data expected =
     (case decode_transaction data of
        Inl e \<Rightarrow> Inl e
      | Inr t \<Rightarrow>
          (case transaction_digest t of
             Inl e \<Rightarrow> Inl (BadTransaction e)
           | Inr actual \<Rightarrow>
               if \<not> valid_digest expected \<or> actual \<noteq> to_lower expected then Inl DigestMismatch
               else Inr t))"

subsection \<open>What the scan accepts\<close>

declare scan_names.simps [simp del]

lemma scan_names_iff:
  shows "depth \<le> tx_max_depth \<Longrightarrow>
      scan_names depth j \<longleftrightarrow> unambiguous GAny j \<and> depth + depth_of j \<le> tx_max_depth"
    and "depth < tx_max_depth \<Longrightarrow>
      scan_name_members depth seen ms \<longleftrightarrow>
        fresh seen (map fst ms) \<and> (\<forall>m \<in> set ms. unambiguous GAny (snd m))
        \<and> (\<forall>m \<in> set ms. depth + 1 + depth_of (snd m) \<le> tx_max_depth)"
    and "depth < tx_max_depth \<Longrightarrow>
      scan_name_elements depth xs \<longleftrightarrow>
        (\<forall>x \<in> set xs. unambiguous GAny x) \<and> (\<forall>x \<in> set xs. depth + 1 + depth_of x \<le> tx_max_depth)"
proof (induction depth j and depth seen ms and depth xs
    rule: scan_names_scan_name_members_scan_name_elements.induct)
  case (1 depth j)
  have limit: "depth + (1 + foldr max zs 0) \<le> tx_max_depth
      \<longleftrightarrow> depth < tx_max_depth \<and> (\<forall>z \<in> set zs. depth + 1 + z \<le> tx_max_depth)" for zs
    using foldr_max_le [of zs "tx_max_depth - depth - 1"] by auto
  show ?case
    using 1 by (cases j) (auto simp: scan_names.simps [of depth] limit fresh_def not_le)
qed (auto simp: fresh_def)

lemma scan_names_top: "scan_names 0 j \<longleftrightarrow> unambiguous GAny j \<and> depth_of j \<le> tx_max_depth"
  by (simp add: scan_names_iff(1) tx_max_depth_def)

subsection \<open>The round trip\<close>

lemmas transaction_tables = candidate_fields_def provenance_fields_def binding_fields_def
  preparation_fields_def promotion_fields_def failure_fields_def transaction_fields_def

lemma texts_of_strings [simp]: "texts_of (JArr (map JStr xs)) = xs"
  by (simp add: texts_of_def elements_def str_of_def comp_def)

lemma keys_optional: "map fst (optional_member k f x) = (if x = None then [] else [k])"
  by (simp add: optional_member_def split: option.split)

lemma in_optional: "m \<in> set (optional_member k f x) \<longleftrightarrow> (\<exists>v. x = Some v \<and> m = (k, f v))"
  by (auto simp: optional_member_def split: option.split)

lemma map_of_optional:
  "map_of (optional_member k f x @ ms) a = (if a = k \<and> x \<noteq> None then map_option f x else map_of ms a)"
  "map_of (optional_member k f x) a = (if a = k then map_option f x else None)"
  by (auto simp: optional_member_def split: option.split)

lemma candidate_neat: "neat (GStruct candidate_fields) (candidate_json c)"
  unfolding candidate_json_def by (rule neat_struct) (auto simp: transaction_tables)

lemma provenance_neat: "neat (GStruct provenance_fields) (provenance_json p)"
  unfolding provenance_json_def by (rule neat_struct) (auto simp: transaction_tables)

lemma binding_neat: "neat (GStruct binding_fields) (binding_json b)"
  unfolding binding_json_def by (rule neat_struct) (auto simp: transaction_tables)

lemma preparation_neat: "neat (GStruct preparation_fields) (preparation_json p)"
  unfolding preparation_json_def by (rule neat_struct) (auto simp: transaction_tables)

lemma promotion_neat: "neat (GStruct promotion_fields) (promotion_json p)"
  unfolding promotion_json_def by (rule neat_struct) (auto simp: transaction_tables)

lemma failure_neat: "neat (GStruct failure_fields) (failure_json f)"
  unfolding failure_json_def by (rule neat_struct) (auto simp: transaction_tables)

lemmas parts_neat = candidate_neat provenance_neat binding_neat preparation_neat promotion_neat failure_neat

lemma transaction_neat:
  assumes "tx_bindings t = Some bs"
  shows "neat (GStruct transaction_fields) (transaction_json t)"
  unfolding transaction_json_def assms
  by (rule neat_struct)
    (auto simp: transaction_fields_def keys_omit keys_optional in_optional omit_str_def parts_neat)

lemma candidate_read [simp]: "candidate_of_json (candidate_json c) = c"
  by (cases c) (simp add: candidate_of_json_def candidate_json_def Let_def field_value_exact candidate_fields_def str_of_def)

lemma provenance_read [simp]: "provenance_of_json (provenance_json p) = p"
  by (cases p) (simp add: provenance_of_json_def provenance_json_def Let_def field_value_exact provenance_fields_def str_of_def)

lemma binding_read [simp]: "binding_of_json (binding_json b) = b"
  by (cases b) (simp add: binding_of_json_def binding_json_def field_value_exact binding_fields_def str_of_def)

lemma preparation_read [simp]: "preparation_of_json (preparation_json p) = p"
  by (cases p) (simp add: preparation_of_json_def preparation_json_def field_value_exact preparation_fields_def str_of_def)

lemma promotion_read [simp]: "promotion_of_json (promotion_json p) = p"
  by (cases p) (simp add: promotion_of_json_def promotion_json_def field_value_exact promotion_fields_def str_of_def)

lemma failure_read [simp]: "failure_of_json (failure_json f) = f"
  by (cases f) (simp add: failure_of_json_def failure_json_def field_value_exact failure_fields_def str_of_def)

lemma parts_present: "preparation_json p \<noteq> JNull" "promotion_json q \<noteq> JNull" "failure_json f \<noteq> JNull"
  by (simp_all add: preparation_json_def promotion_json_def failure_json_def)

lemma present_option: "(\<And>x. g x \<noteq> JNull) \<Longrightarrow> (\<And>x. f (g x) = x) \<Longrightarrow>
    present f (case map_option g a of None \<Rightarrow> JNull | Some v \<Rightarrow> v) = a"
  by (cases a) (simp_all add: present_def)

lemma transaction_read: 
  assumes "tx_bindings t = Some bs"
  shows "transaction_of_json (transaction_json t) = t"
proof -
  have keys: "fst ` set (members (transaction_json t)) \<subseteq> fst ` set transaction_fields"
    by (auto simp: members_def transaction_json_def transaction_fields_def in_optional omit_str_def)
  have at: "field_value transaction_fields k (transaction_json t)
      = (case map_of (members (transaction_json t)) k of None \<Rightarrow> JNull | Some v \<Rightarrow> v)" for k
    using field_value_exact [OF keys, of k] by (simp add: transaction_json_def members_def)
  show ?thesis
    by (rule transaction.equality, simp_all only: transaction_of_json_def Let_def transaction.simps at)
      (simp_all add: members_def transaction_json_def assms str_of_def elements_def
        present_def comp_def map_of_omit map_of_optional parts_present
        del: map_of_append cong: if_cong split: option.split)
qed

lemma fold_max_le: "\<forall>z \<in> set zs. z \<le> b \<Longrightarrow> 0 \<le> b \<Longrightarrow> foldr max zs 0 \<le> b" for b :: int
  by (simp add: foldr_max_le)

lemma flat_depth:
  "depth_of (candidate_json c) = 1" "depth_of (binding_json b) = 1" "depth_of (preparation_json p) = 1"
  "depth_of (promotion_json q) = 1" "depth_of (failure_json f) = 1"
  by (simp_all add: candidate_json_def binding_json_def preparation_json_def promotion_json_def failure_json_def)

lemma array_depth: "\<forall>x \<in> set xs. depth_of x \<le> b \<Longrightarrow> 0 \<le> b \<Longrightarrow> depth_of (JArr xs) \<le> b + 1"
  by (simp add: foldr_max_le)

lemma provenance_depth: "depth_of (provenance_json p) \<le> 2"
proof -
  have "depth_of (JArr (map JStr (pv_origins p))) \<le> 0 + 1" by (rule array_depth) auto
  then have "depth_of (provenance_json p) \<le> 1 + 1"
    unfolding provenance_json_def by (intro object_depth) auto
  then show ?thesis by simp
qed

lemma transaction_depth: "depth_of (transaction_json t) \<le> 3"
proof -
  have "depth_of (JArr (map candidate_json (tx_candidates t))) \<le> 1 + 1"
    by (rule array_depth) (auto simp: flat_depth)
  moreover have "depth_of (JArr (map binding_json bs)) \<le> 1 + 1" for bs
    by (rule array_depth) (auto simp: flat_depth)
  ultimately have "depth_of (transaction_json t) \<le> 2 + 1"
    unfolding transaction_json_def
    by (intro object_depth)
      (use provenance_depth in \<open>auto simp: flat_depth omit_str_def optional_member_def split: option.splits\<close>)
  then show ?thesis by simp
qed

lemma decode_printed:
  assumes "accepts (validate_transaction t)" "int (length (marshal (transaction_json t))) \<le> tx_max_bytes"
  shows "decode_transaction (marshal (transaction_json t)) = Inr t"
proof -
  from assms(1) obtain bs where bs: "tx_bindings t = Some bs"
    by (auto simp: validate_transaction_accepts validate_bindings_accepts)
  note neat = transaction_neat [OF bs]
  note print = transaction_printable [OF assms(1)]
  have "utf8_valid (marshal (transaction_json t))"
    using outside_print [OF print] by (simp add: marshal_def outside_def)
  moreover have "parse_json (marshal (transaction_json t)) = Some (transaction_json t)"
    using parse_print [OF print] by (simp add: marshal_def)
  moreover have "scan_names 0 (transaction_json t)"
    using unambiguous_any [OF neat_facts(2) [OF neat]] transaction_depth [of t]
    by (simp add: scan_names_top tx_max_depth_def)
  ultimately show ?thesis
    using assms neat_facts(1) [OF neat] neat_received [OF neat] transaction_read [OF bs]
    by (simp add: decode_transaction_def accepts_unit_iff)
qed

text \<open>
  C6. The canonical bytes of a transaction decode to the transaction in canonical order, whose
  canonical bytes they are again; verified decoding accepts them under the digest of the
  transaction, and whatever expected digest they pass under is that digest up to letter case.
\<close>

theorem transaction_roundtrip:
  assumes "canonical_bytes t = Inr data"
  shows "decode_transaction data = Inr (canonical_order t) \<and> canonical_bytes (canonical_order t) = Inr data
     \<and> (\<exists>d. transaction_digest t = Inr d \<and> decode_verified data d = Inr (canonical_order t)
            \<and> (\<forall>e u. decode_verified data e = Inr u \<longrightarrow> to_lower e = d \<and> u = canonical_order t))"
proof -
  let ?c = "canonical_order t"
  from assms have c: "accepts (validate_transaction ?c)" "data = marshal (transaction_json ?c)"
    "int (length data) \<le> tx_max_bytes"
    by (auto simp: canonical_bytes_iff)
  have decoded: "decode_transaction data = Inr ?c" using decode_printed [OF c(1)] c(2,3) by simp
  have again: "canonical_bytes ?c = Inr data"
    using c accepted_canonical_order [OF c(1)]
    by (auto simp: canonical_bytes_iff validate_transaction_accepts validate_bindings_accepts)
  let ?d = "''sha256:'' @ sha256 data"
  have d: "transaction_digest t = Inr ?d" "transaction_digest ?c = Inr ?d"
    using assms again by (simp_all add: transaction_digest_def)
  have "to_lower ''sha256:'' = ''sha256:''" by code_simp
  then have low: "to_lower ?d = ?d" using sha256_lower [of data] by (simp only: to_lower_def map_append)
  have ok: "valid_digest ?d" by (simp only: valid_digest_prefix sha256_plain)
  have "decode_verified data ?d = Inr ?c"
    by (simp only: decode_verified_def decoded d(2) sum.case low ok) simp
  moreover have "decode_verified data e = Inr u \<Longrightarrow> to_lower e = ?d \<and> u = ?c" for e u
    using d(2) decoded by (auto simp: decode_verified_def split: if_splits)
  ultimately show ?thesis using decoded again d(1) by blast
qed

theorem transaction_roundtrip_witness:
  "\<exists>data. canonical_bytes shuffled_transaction = Inr data \<and> decode_transaction data = Inr sample_transaction"
proof -
  have "canonical_bytes shuffled_transaction = Inr (marshal (transaction_json sample_transaction))"
    using sample_accepts sample_size shuffled_order
    by (simp add: canonical_bytes_iff) (simp add: sample_transaction_def shuffled_transaction_def)
  from transaction_roundtrip [OF this] this show ?thesis by (simp add: shuffled_order)
qed

subsection \<open>A field under two spellings\<close>

text \<open>
  The scan compares names exactly, the decoder up to case: a document may say the state twice,
  and the second spelling decides.
\<close>

definition two_states :: json where
  "two_states = JObj (members (transaction_json sample_transaction) @ [(''State'', JStr ''reviewed'')])"

theorem second_spelling_decides:
  "decode_transaction (marshal two_states) = Inr (sample_transaction\<lparr>tx_state := ''reviewed''\<rparr>)"
proof -
  have "printable two_states" by code_simp
  then have "parse_json (marshal two_states) = Some two_states" "utf8_valid (marshal two_states)"
    using parse_print outside_print by (auto simp: marshal_def outside_def)
  moreover have "scan_names 0 two_states" "fits (GStruct transaction_fields) two_states"
    "transaction_of_json (received (GStruct transaction_fields) two_states)
       = sample_transaction\<lparr>tx_state := ''reviewed''\<rparr>"
    "int (length (marshal two_states)) \<le> tx_max_bytes"
    "validate_transaction (sample_transaction\<lparr>tx_state := ''reviewed''\<rparr>) = Inr ()"
    by code_simp+
  ultimately show ?thesis by (simp add: decode_transaction_def)
qed

end
