(* ===== verification/Transaction_Progress.thy ===== *)
theory Transaction_Progress
  imports Transaction_Wire
begin

text \<open>
  The lifecycle of a transaction is not stuck: from every open snapshot the transaction can be
  cancelled, and it can be brought to its promotion.
\<close>

definition advance :: "bytes \<Rightarrow> preparation option \<Rightarrow> promotion option \<Rightarrow> transaction \<Rightarrow> transaction" where
  "advance s prep prom t = t\<lparr>tx_state := s, tx_preparation := prep, tx_promotion := prom, tx_failure := None\<rparr>"

lemma advance_simps [simp]:
  "tx_state (advance s a b t) = s" "tx_preparation (advance s a b t) = a" "tx_promotion (advance s a b t) = b"
  "tx_failure (advance s a b t) = None" "clear_lifecycle (advance s a b t) = clear_lifecycle t"
  "advance s a b (advance s' a' b' t) = advance s a b t"
  by (simp_all add: advance_def clear_lifecycle_def)

definition preparation_valid :: "preparation \<Rightarrow> bool" where
  "preparation_valid p = (valid_digest (pr_package p) \<and> valid_digest (pr_qualification p))"

lemma advance_accepted:
  assumes "accepts (validate_transaction t)"
    and "valid_state s" "lifecycle_fields (advance s prep prom t)"
    and "\<forall>p. prep = Some p \<longrightarrow> preparation_valid p" "\<forall>q. prom = Some q \<longrightarrow> valid_digest (pm_generation q)"
  shows "accepts (validate_transaction (advance s prep prom t))"
proof -
  have "validate_version_composition (advance s prep prom t) = validate_version_composition t"
    by (simp add: validate_version_composition_def advance_def Let_def)
  moreover have "accepts (validate_lifecycle (advance s prep prom t))"
    using assms(3-5) by (auto simp: validate_lifecycle_accepts preparation_valid_def)
  ultimately show ?thesis
    using assms(1,2) unfolding validate_transaction_accepts by (auto simp: advance_def)
qed

text \<open>A snapshot from which the lifecycle goes on.\<close>

definition open_transaction :: "transaction \<Rightarrow> bool" where
  "open_transaction t =
     (accepts (validate_transaction t) \<and> \<not> final_state t \<and> accepts (canonical_identity (clear_lifecycle t)))"

lemma advance_step:
  assumes "open_transaction t" "valid_state s" "allowed_transition (tx_state t) s"
    and "lifecycle_fields (advance s prep prom t)"
    and "tx_preparation t = None \<and> (prep = None \<or> s = ''prepared'') \<or> tx_preparation t \<noteq> None \<and> prep = tx_preparation t"
    and "tx_promotion t = None"
    and "\<forall>p. prep = Some p \<longrightarrow> preparation_valid p" "\<forall>q. prom = Some q \<longrightarrow> valid_digest (pm_generation q)"
  shows "lifecycle_step t (advance s prep prom t)"
proof -
  have "accepts (validate_transaction (advance s prep prom t))"
    by (rule advance_accepted) (use assms in \<open>simp_all add: open_transaction_def\<close>)
  then have "accepts (validate_transition t (advance s prep prom t))"
    unfolding validate_transition_accepts using assms
    by (simp add: open_transaction_def same_identity_def)
  then show ?thesis by (simp add: lifecycle_step_iff accepts_unit_iff)
qed

lemma step_stays_open:
  assumes "lifecycle_step t u" "open_transaction t" "\<not> final_state u"
  shows "open_transaction u"
  using assms lifecycle_step_facts(2,3) [OF assms(1)] by (simp add: open_transaction_def)

lemma open_cases:
  assumes "open_transaction t"
  obtains "tx_state t \<in> {''candidate'', ''reviewed''}" "tx_preparation t = None" "tx_promotion t = None"
  | "tx_state t \<in> {''prepared'', ''indeterminate''}" "tx_preparation t \<noteq> None" "tx_promotion t = None"
proof -
  have "valid_state (tx_state t)" "lifecycle_fields t" "\<not> final_state t"
    using assms by (auto simp: open_transaction_def validate_transaction_accepts validate_lifecycle_accepts)
  then have "tx_state t \<in> {''candidate'', ''reviewed''} \<and> tx_preparation t = None \<and> tx_promotion t = None
    \<or> tx_state t \<in> {''prepared'', ''indeterminate''} \<and> tx_preparation t \<noteq> None \<and> tx_promotion t = None"
    by (auto simp: valid_state_def final_state_def lifecycle_fields_def Let_def)
  then show ?thesis using that by blast
qed

lemma kept_preparation_valid:
  "open_transaction t \<Longrightarrow> tx_preparation t = Some p \<Longrightarrow> preparation_valid p"
  by (auto simp: open_transaction_def validate_transaction_accepts validate_lifecycle_accepts preparation_valid_def)

lemmas lifecycle_tables = valid_state_def allowed_transition_def lifecycle_fields_def Let_def final_state_def

lemma can_cancel:
  assumes "open_transaction t"
  shows "lifecycle_step t (advance ''cancelled'' (tx_preparation t) None t)"
  using assms
  by (cases rule: open_cases; intro advance_step)
    (auto simp: lifecycle_tables kept_preparation_valid)

lemma can_promote:
  assumes "open_transaction t" "tx_state t \<in> {''prepared'', ''indeterminate''}" "valid_digest g"
  shows "lifecycle_step t (advance ''promoted'' (tx_preparation t) (Some \<lparr>pm_generation = g\<rparr>) t)"
  using assms(1)
  by (cases rule: open_cases; intro advance_step)
    (use assms in \<open>auto simp: lifecycle_tables kept_preparation_valid\<close>)

lemma can_prepare:
  assumes "open_transaction t" "tx_state t = ''reviewed''" "preparation_valid p"
  shows "lifecycle_step t (advance ''prepared'' (Some p) None t)"
  using assms(1)
  by (cases rule: open_cases; intro advance_step)
    (use assms in \<open>auto simp: lifecycle_tables kept_preparation_valid\<close>)

lemma can_review:
  assumes "open_transaction t" "tx_state t = ''candidate''"
  shows "lifecycle_step t (advance ''reviewed'' None None t)"
  using assms(1)
  by (cases rule: open_cases; intro advance_step)
    (use assms in \<open>auto simp: lifecycle_tables\<close>)

definition settled_preparation :: "preparation \<Rightarrow> transaction \<Rightarrow> preparation" where
  "settled_preparation p t = (case tx_preparation t of None \<Rightarrow> p | Some q \<Rightarrow> q)"

lemma reaches_promotion:
  assumes "open_transaction t" "preparation_valid p" "valid_digest g"
  shows "lifecycle_step\<^sup>*\<^sup>* t (advance ''promoted'' (Some (settled_preparation p t)) (Some \<lparr>pm_generation = g\<rparr>) t)"
proof -
  let ?done = "\<lambda>q. advance ''promoted'' (Some q) (Some \<lparr>pm_generation = g\<rparr>) t"
  have from_prepared: "lifecycle_step\<^sup>*\<^sup>* u (advance ''promoted'' (tx_preparation u) (Some \<lparr>pm_generation = g\<rparr>) u)"
    if "open_transaction u" "tx_state u \<in> {''prepared'', ''indeterminate''}" for u
    using can_promote [OF that assms(3)] by (rule r_into_rtranclp)
  have from_reviewed: "lifecycle_step\<^sup>*\<^sup>* u (advance ''promoted'' (Some p) (Some \<lparr>pm_generation = g\<rparr>) u)"
    if "open_transaction u" "tx_state u = ''reviewed''" for u
  proof -
    note s = can_prepare [OF that assms(2)]
    have "open_transaction (advance ''prepared'' (Some p) None u)"
      by (rule step_stays_open [OF s that(1)]) (simp add: final_state_def)
    from from_prepared [OF this] s show ?thesis by (simp add: converse_rtranclp_into_rtranclp)
  qed
  show ?thesis
    using assms(1)
  proof (cases rule: open_cases)
    case 1
    then show ?thesis
    proof (cases "tx_state t = ''reviewed''")
      case True
      then show ?thesis using from_reviewed [OF assms(1)] 1 by (simp add: settled_preparation_def)
    next
      case False
      then have c: "tx_state t = ''candidate''" using 1 by auto
      note s = can_review [OF assms(1) c]
      have "open_transaction (advance ''reviewed'' None None t)"
        by (rule step_stays_open [OF s assms(1)]) (simp add: final_state_def)
      from from_reviewed [OF this] s 1 show ?thesis
        by (simp add: converse_rtranclp_into_rtranclp settled_preparation_def)
    qed
  next
    case 2
    then show ?thesis using from_prepared [OF assms(1)] by (auto simp: settled_preparation_def)
  qed
qed

text \<open>
  C5. No open transaction is stuck. A valid snapshot that is not final, and whose identity fits the
  size limit, can be cancelled at once; and there is a run of accepted transitions from it to
  its promotion, with the preparation it already has or else the one that is given.
\<close>

theorem transaction_progress:
  assumes "accepts (validate_transaction t)" "\<not> final_state t"
    and "accepts (canonical_identity (clear_lifecycle t))"
    and "valid_digest a" "valid_digest b" "valid_digest g"
  shows "(\<exists>u. lifecycle_step t u \<and> tx_state u = ''cancelled'')
    \<and> (\<exists>u. lifecycle_step\<^sup>*\<^sup>* t u \<and> tx_state u = ''promoted''
         \<and> tx_promotion u = Some \<lparr>pm_generation = g\<rparr>
         \<and> tx_preparation u = (case tx_preparation t of
                                  None \<Rightarrow> Some \<lparr>pr_package = a, pr_qualification = b\<rparr>
                                | Some p \<Rightarrow> Some p))"
proof -
  have t: "open_transaction t" using assms(1-3) by (simp add: open_transaction_def)
  have "preparation_valid \<lparr>pr_package = a, pr_qualification = b\<rparr>"
    using assms(4,5) by (simp add: preparation_valid_def)
  from reaches_promotion [OF t this assms(6)] can_cancel [OF t] show ?thesis
    by (fastforce simp: settled_preparation_def split: option.splits)
qed

theorem transaction_progress_witness:
  "\<exists>u. lifecycle_step\<^sup>*\<^sup>* sample_transaction u \<and> tx_state u = ''promoted''"
proof -
  have "(clear_lifecycle sample_transaction)\<lparr>tx_state := ''candidate''\<rparr> = sample_transaction"
    by (simp add: clear_lifecycle_def sample_transaction_def)
  then have "accepts (canonical_identity (clear_lifecycle sample_transaction))"
    using sample_size by (simp add: canonical_identity_eq [OF sample_accepts] Let_def)
  moreover have "\<not> final_state sample_transaction" "valid_digest (''sha256:'' @ replicate 64 CHR ''7'')"
    by code_simp+
  ultimately show ?thesis
    using transaction_progress [OF sample_accepts, of "''sha256:'' @ replicate 64 CHR ''7''"
        "''sha256:'' @ replicate 64 CHR ''7''" "''sha256:'' @ replicate 64 CHR ''7''"] by blast
qed

end
