(* ===== verification/Transaction_Origin.thy ===== *)
theory Transaction_Origin
  imports Browser_Transaction
begin

text \<open>
  The origins of package \<^verbatim>\<open>browsertransaction\<close>: \<^verbatim>\<open>validOrigin\<close> rebuilds a canonical text from
  the parts of the parsed URL and compares it to its argument. Here the comparison is related
  to the parts themselves: the parser gives back the host that was written, so an accepted
  origin is its own canonical spelling.
\<close>

subsection \<open>The parser on the text of an origin\<close>

lemma unescape_length:
  "unescape f g s = Some t \<Longrightarrow> if CHR ''%'' \<in> set s then length t < length s else t = s"
proof (induction f g s arbitrary: t rule: unescape.induct)
  case (2 f g c s)
  show ?case
  proof (cases "c = CHR ''%''")
    case True
    with "2.prems" obtain a b s' t' where s: "s = a # b # s'" and t: "length t = Suc (length t')"
      and rest: "unescape f g s' = Some t'" and ok: "is_hex a \<and> is_hex b \<and> f [a, b]"
      by (auto split: list.splits if_splits)
    from "2.IH"(1) [OF True s refl ok rest] have "length t' \<le> length s'" by (auto split: if_splits)
    with True s t show ?thesis by simp
  next
    case False
    with "2.prems" obtain t' where t: "t = c # t'" and rest: "unescape f g s = Some t'"
      by (auto split: if_splits)
    have "\<not> (byte c < 128 \<and> \<not> g c)" using False "2.prems" by (auto split: if_splits)
    from "2.IH"(2) [OF False this rest] t False show ?thesis by (auto split: if_splits)
  qed
qed simp

lemma unescape_chars:
  assumes "\<And>a b. f [a, b] \<Longrightarrow> is_hex a \<Longrightarrow> is_hex b \<Longrightarrow> P (char_of (16 * hex_value a + hex_value b))"
    and "\<And>c. g c \<Longrightarrow> P c" "\<And>c. 128 \<le> byte c \<Longrightarrow> P c"
  shows "unescape f g s = Some t \<Longrightarrow> list_all P t"
  using assms
proof (induction f g s arbitrary: t rule: unescape.induct)
  case (2 f g c s)
  show ?case
  proof (cases "c = CHR ''%''")
    case True
    with "2.prems"(1) obtain a b s' t' where s: "s = a # b # s'"
      and t: "t = char_of (16 * hex_value a + hex_value b) # t'"
      and rest: "unescape f g s' = Some t'" and ok: "is_hex a \<and> is_hex b \<and> f [a, b]"
      by (auto split: list.splits if_splits)
    from "2.IH"(1) [OF True s refl ok rest "2.prems"(2-4)] ok t "2.prems"(2) show ?thesis by simp
  next
    case False
    with "2.prems"(1) obtain t' where t: "t = c # t'" and rest: "unescape f g s = Some t'"
      and g: "\<not> (byte c < 128 \<and> \<not> g c)"
      by (auto split: if_splits)
    have "P c" using g "2.prems"(3,4) by (cases "byte c < 128") auto
    with "2.IH"(2) [OF False g rest "2.prems"(2-4)] t show ?thesis by simp
  qed
qed simp

text \<open>Bytes that end or split the authority of a URL never occur in a parsed host.\<close>

definition host_byte :: "char \<Rightarrow> bool" where
  "host_byte c = (c \<notin> set ''/?#@'' \<and> \<not> ctl_byte c)"

lemma host_char_byte: "host_char c \<Longrightarrow> host_byte c"
  by (auto simp: host_char_def host_byte_def ctl_byte_def class_defs byte_def)

lemma high_byte: "128 \<le> byte c \<Longrightarrow> host_byte c"
  by (auto simp: host_byte_def ctl_byte_def byte_def)

lemma byte_of_code: "0 \<le> n \<Longrightarrow> n < 256 \<Longrightarrow> byte (char_of n) = n"
  by (simp add: byte_def)

lemma hex_pair_byte:
  assumes "is_hex a" "is_hex b"
  shows "byte (char_of (16 * hex_value a + hex_value b)) = 16 * hex_value a + hex_value b"
  using assms by (intro byte_of_code) (auto simp: hex_value_def class_defs)

lemma percent_byte: "host_byte (char_of (37 :: int))" "host_byte (char_of (32 :: int))"
  by code_simp+

lemma hex_25: "[a, b] = ''25'' \<Longrightarrow> 16 * hex_value a + hex_value b = 37"
  by (simp add: hex_value_def class_defs byte_def)

lemma unescape_host_bytes: "unescape_host s = Some t \<Longrightarrow> list_all host_byte t"
  unfolding unescape_host_def
proof (rule unescape_chars)
  fix a b assume e: "8 \<le> hex_value (hd [a, b]) \<or> [a, b] = ''25''" and h: "is_hex a" "is_hex b"
  show "host_byte (char_of (16 * hex_value a + hex_value b))"
  proof (cases "[a, b] = ''25''")
    case True
    then show ?thesis by (simp only: hex_25 percent_byte)
  next
    case False
    moreover have "0 \<le> hex_value b" using h by (auto simp: hex_value_def class_defs)
    ultimately have "128 \<le> 16 * hex_value a + hex_value b" using e by auto
    then show ?thesis using hex_pair_byte [OF h] by (intro high_byte) simp
  qed
qed (auto intro: host_char_byte high_byte)

lemma unescape_zone_bytes: "unescape_zone s = Some t \<Longrightarrow> list_all host_byte t"
  unfolding unescape_zone_def
proof (rule unescape_chars)
  fix a b assume e: "zone_escape [a, b]" and h: "is_hex a" "is_hex b"
  let ?v = "16 * hex_value a + hex_value b"
  from e consider "[a, b] = ''25''" | "?v = 32" | "128 \<le> ?v" | "host_char (char_of ?v)"
    by (auto simp: zone_escape_def Let_def)
  then show "host_byte (char_of ?v)"
  proof cases
    case 1
    then show ?thesis by (simp only: hex_25 percent_byte)
  next
    case 2
    then show ?thesis by (simp only: percent_byte)
  next
    case 3
    then show ?thesis using hex_pair_byte [OF h] by (intro high_byte) simp
  qed (rule host_char_byte)
qed (auto intro: host_char_byte high_byte)

lemma cut_at_spec:
  "cut_at c s = (l, r, found) \<Longrightarrow> c \<notin> set l \<and> (if found then s = l @ c # r else s = l \<and> r = [])"
  by (induction s arbitrary: l r found) (auto split: if_splits prod.splits)

lemma cut_last_Some: "cut_last c s = Some (l, r) \<Longrightarrow> s = l @ c # r \<and> c \<notin> set r"
proof -
  assume a: "cut_last c s = Some (l, r)"
  obtain x y found where c: "cut_at c (rev s) = (x, y, found)" by (cases "cut_at c (rev s)")
  with a have f: found "l = rev y" "r = rev x" by (auto simp: cut_last_def split: if_splits)
  with cut_at_spec [OF c] have "rev s = x @ c # y" "c \<notin> set x" by simp_all
  then have "rev (rev s) = rev (x @ c # y)" by simp
  then show ?thesis using f \<open>c \<notin> set x\<close> by simp
qed

lemma cut_last_None: "cut_last c s = None \<longleftrightarrow> c \<notin> set s"
proof -
  obtain x y found where c: "cut_at c (rev s) = (x, y, found)" by (cases "cut_at c (rev s)")
  then have "found \<longleftrightarrow> c \<in> set (rev s)"
    using cut_at_spec [OF c] by (cases found) auto
  with c show ?thesis by (simp add: cut_last_def)
qed

lemma cut_last_append: "c \<notin> set r \<Longrightarrow> cut_last c (l @ c # r) = Some (l, r)"
proof (cases "cut_last c (l @ c # r)")
  case None
  then show ?thesis by (simp add: cut_last_None)
next
  case (Some p)
  obtain a b where p: "p = (a, b)" by (metis surj_pair)
  assume r: "c \<notin> set r"
  from cut_last_Some [OF Some [unfolded p]] have e: "rev r @ c # rev l = rev b @ c # rev a" "c \<notin> set b"
    by (metis rev.simps(2) rev_append append.assoc append_Cons append_Nil, simp)
  from e(1) have "rev r = rev b \<and> rev l = rev a"
    by (subst (asm) append_sep_inj) (use e(2) r in auto)
  then show ?thesis using Some p by simp
qed


text \<open>Either nothing was escaped, and the host is the text, or the host is shorter.\<close>

definition unescaped :: "bytes \<Rightarrow> bytes \<Rightarrow> bool" where
  "unescaped s t =
     (list_all host_byte t \<and> (if CHR ''%'' \<in> set s then length t < length s else t = s))"

lemma unescaped_append: "unescaped a x \<Longrightarrow> unescaped b y \<Longrightarrow> unescaped (a @ b) (x @ y)"
  unfolding unescaped_def by (auto split: if_splits)

lemma unescaped_Cons: "unescaped s t \<Longrightarrow> host_byte c \<Longrightarrow> c \<noteq> CHR ''%'' \<Longrightarrow> unescaped (c # s) (c # t)"
  by (auto simp: unescaped_def split: if_splits)

lemma unescaped_host: "unescape_host s = Some t \<Longrightarrow> unescaped s t"
  using unescape_host_bytes unescape_length unfolding unescaped_def unescape_host_def by blast

lemma unescaped_zone: "unescape_zone s = Some t \<Longrightarrow> unescaped s t"
  using unescape_zone_bytes unescape_length unfolding unescaped_def unescape_zone_def by blast

lemma bracket_bytes: "host_byte CHR ''[''" "host_byte CHR '']''"
  by code_simp+

lemma bracketed_host_unescaped:
  assumes "bracketed_host s = Some t" "s = CHR ''['' # r"
  shows "unescaped s t"
proof -
  from assms(1) obtain l port where cut: "cut_last CHR '']'' s = Some (l, port)"
    by (auto simp: bracketed_host_def split: option.splits)
  then obtain name where s: "s = CHR ''['' # name @ CHR '']'' # port" and l: "tl l = name"
    using cut_last_Some [OF cut] assms(2) by (cases l) auto
  let ?plain = "case find_sub ''%25'' name of None \<Rightarrow> unescape_host name
    | Some z \<Rightarrow> Option.bind (unescape_host (take z name)) (\<lambda>a.
        Option.bind (unescape_zone (drop z name)) (\<lambda>b. Some (a @ b)))"
  from assms(1) have "Option.bind (unescape_host port) (\<lambda>p. Option.bind ?plain (\<lambda>n.
      case parse_addr n of Some (V6 gs zone) \<Rightarrow> Some (''['' @ n @ '']'' @ p) | _ \<Rightarrow> None)) = Some t"
    unfolding bracketed_host_def cut Let_def option.case prod.case l by (simp split: if_split_asm)
  then obtain p n where p: "unescape_host port = Some p" and n: "?plain = Some n"
    and v6: "(case parse_addr n of Some (V6 gs zone) \<Rightarrow> Some (''['' @ n @ '']'' @ p) | _ \<Rightarrow> None) = Some t"
    unfolding bind_eq_Some_conv by blast
  from v6 have t: "t = ''['' @ n @ '']'' @ p" by (simp split: option.split_asm addr.split_asm)
  have "unescaped name n"
  proof (cases "find_sub ''%25'' name")
    case None
    with n show ?thesis by (simp add: unescaped_host)
  next
    case (Some z)
    with n obtain a b where "unescape_host (take z name) = Some a" "unescape_zone (drop z name) = Some b"
      "n = a @ b" by (auto simp: bind_eq_Some_conv)
    then show ?thesis
      using unescaped_append [OF unescaped_host unescaped_zone, of "take z name" a "drop z name" b] by simp
  qed
  with unescaped_host [OF p] show ?thesis
    unfolding s t by (simp add: unescaped_Cons unescaped_append bracket_bytes)
qed

lemma parse_host_unescaped:
  assumes "parse_host s = Some t"
  shows "unescaped s t"
proof (cases "cut_last CHR ''['' s")
  case None
  with assms have "unescape_host s = Some t" by (auto simp: parse_host_def split: prod.splits if_splits)
  then show ?thesis by (rule unescaped_host)
next
  case (Some p)
  then obtain r where "cut_last CHR ''['' s = Some ([], r)" "bracketed_host s = Some t"
    using assms by (cases p) (auto simp: parse_host_def split: if_splits)
  then show ?thesis using cut_last_Some [of "CHR ''[''" s "[]" r] by (intro bracketed_host_unescaped) auto
qed

lemma parse_url_host_bytes:
  assumes "parse_url v = Some u"
  shows "list_all host_byte (u_host u)"
proof -
  have auth: "list_all host_byte h" if "parse_authority a = Some (b, h)" for a b h
    using that parse_host_unescaped
    by (auto simp: parse_authority_def unescaped_def split: option.split_asm if_splits)
  have "list_all host_byte (u_host w)" if "parse_hier scheme rest q f = Some w" for scheme rest q f w
    using that auth by (auto simp: parse_hier_def Let_def bind_eq_Some_conv split: if_splits)
  note hier = this
  obtain x frag f where cut: "cut_at CHR ''#'' v = (x, frag, f)" by (metis surj_pair)
  show ?thesis
  proof (cases "x = ''*''")
    case True
    then show ?thesis using assms by (auto simp: parse_url_def cut bind_eq_Some_conv split: if_splits)
  next
    case False
    with assms obtain scheme rest w z where w: "(case split_query rest of (r, query, force) \<Rightarrow>
        parse_hier (to_lower scheme) r query force) = Some w" and u: "u = w\<lparr>u_fragment := z\<rparr>"
      by (auto simp: parse_url_def cut bind_eq_Some_conv split: if_splits)
    obtain r q force where "split_query rest = (r, q, force)" by (metis surj_pair)
    with w u hier show ?thesis by auto
  qed
qed

lemma cut_at_absent: "c \<notin> set s \<Longrightarrow> cut_at c s = (s, [], False)"
  by (induction s) auto

lemma cut_at_plain:
  assumes "c \<notin> set s" shows "cut_at c (scheme @ s) = (case cut_at c scheme of (l, r, f) \<Rightarrow>
     if f then (l, r @ s, True) else (scheme @ s, [], False))"
  using assms by (induction scheme) (auto simp: cut_at_absent split: prod.splits)

definition bare_url :: "bytes \<Rightarrow> bytes \<Rightarrow> url" where
  "bare_url scheme h =
     \<lparr>u_scheme = scheme, u_user = False, u_host = h, u_path = [], u_raw_query = [],
      u_force_query = False, u_fragment = []\<rparr>"

lemma parse_bare_url:
  assumes "scheme = ''https'' \<or> scheme = ''http''" "list_all host_byte h"
  shows "parse_url (scheme @ ''://'' @ h) = map_option (bare_url scheme) (parse_host h)"
proof -
  have out: "CHR ''#'' \<notin> set h" "CHR ''?'' \<notin> set h" "CHR ''/'' \<notin> set h" "CHR ''@'' \<notin> set h"
    "list_all (\<lambda>c. \<not> ctl_byte c) h"
    using assms(2) by (auto simp: list_all_iff host_byte_def)
  let ?v = "scheme @ ''://'' @ h"
  have scheme: "get_scheme ?v [] ?v = Some (scheme, ''//'' @ h)" "to_lower scheme = scheme" "scheme \<noteq> []"
    using assms(1) by (auto simp: class_defs to_lower_def lower_char_def scheme_tail_def)
  have "CHR ''#'' \<notin> set ?v" using assms(1) out(1) by auto
  then have cut: "cut_at CHR ''#'' ?v = (?v, [], False)" by (rule cut_at_absent)
  have "list_all (\<lambda>c. \<not> ctl_byte c) ?v"
    using assms(1) out(5) by (auto simp: ctl_byte_def byte_def)
  then have ctl: "\<not> list_ex ctl_byte ?v" by (simp add: list_all_iff list_ex_iff)
  have star: "?v \<noteq> ''*''" by (cases scheme) simp_all
  have q: "split_query (''//'' @ h) = (''//'' @ h, [], False)"
    using out by (simp add: split_query_def cut_at_absent)
  have a: "parse_authority h = map_option (\<lambda>x. (False, x)) (parse_host h)"
    using out cut_last_None [of "CHR ''@''" h] by (simp add: parse_authority_def)
  have t: "takeWhile (\<lambda>c. c \<noteq> CHR ''/'') h = h" "dropWhile (\<lambda>c. c \<noteq> CHR ''/'') h = []"
    using out by (auto simp: takeWhile_eq_all_conv dropWhile_eq_Nil_conv)
  have hier: "parse_hier scheme (''//'' @ h) [] False = map_option (bare_url scheme) (parse_host h)"
    using scheme(3) by (cases "parse_host h")
      (simp_all add: parse_hier_def Let_def t a bare_url_def unescape_path_def)
  show ?thesis
    unfolding parse_url_def cut prod.case scheme(1) Option.bind.simps q scheme(2) hier
    using ctl star by (cases "parse_host h") (simp_all add: bare_url_def unescape_path_def)
qed

subsection \<open>Host and port\<close>

definition host_port :: "bytes \<Rightarrow> bytes \<Rightarrow> bytes" where
  "host_port name port =
     (if CHR '':'' \<in> set name then ''['' @ name @ '']'' else name)
     @ (if port \<noteq> [] then '':'' @ port else [])"

lemma split_host_port_spec:
  assumes "split_host_port hp = (a, b)"
  shows "set a \<subseteq> set hp" "list_all is_digit b"
    "length a + (if b \<noteq> [] then Suc (length b) else 0) \<le> length hp"
proof -
  define q where "q = (case cut_last CHR '':'' hp of
      Some (l, r) \<Rightarrow> if valid_optional_port (CHR '':'' # r) then (l, r) else (hp, []) | None \<Rightarrow> (hp, []))"
  obtain host port where pair: "q = (host, port)" by (cases q)
  note hp = pair [unfolded q_def]
  have cut: "set host \<subseteq> set hp \<and> list_all is_digit port
      \<and> length host + (if port \<noteq> [] then Suc (length port) else 0) \<le> length hp"
  proof (cases "cut_last CHR '':'' hp")
    case (Some p)
    obtain l r where p: "p = (l, r)" by (metis surj_pair)
    have e: "hp = l @ CHR '':'' # r" using cut_last_Some [of "CHR '':''" hp l r] Some p by simp
    have "(if valid_optional_port (CHR '':'' # r) then (l, r) else (hp, [])) = (host, port)"
      using hp unfolding Some p option.case prod.case .
    then consider "host = l" "port = r" "list_all is_digit r" | "host = hp" "port = []"
      by (auto simp: valid_optional_port_def split: if_split_asm)
    then show ?thesis by cases (auto simp: e)
  qed (use hp in auto)
  have ab: "b = port" "a = host \<or> a = butlast (tl host)"
    using assms hp by (auto simp: split_host_port_def split: if_split_asm)
  have trim: "set (butlast (tl host)) \<subseteq> set host" "length (butlast (tl host)) \<le> length host"
    by (cases host, auto dest: in_set_butlastD)+
  from ab(2) cut trim(1) show "set a \<subseteq> set hp" by (elim disjE) auto
  from cut ab(1) show "list_all is_digit b" by simp
  have "length a \<le> length host" using ab(2) trim(2) by auto
  with cut ab(1) show "length a + (if b \<noteq> [] then Suc (length b) else 0) \<le> length hp"
    by (cases "port = []") auto
qed

lemma split_host_port_join:
  assumes "list_all is_digit port" "\<not> prefix ''['' name"
  shows "split_host_port (host_port name port) = (name, port)"
proof -
  have digits: "CHR '':'' \<notin> set port" using assms(1) by (auto simp: list_all_iff class_defs)
  show ?thesis
  proof (cases "port = []")
    case False
    let ?host = "if CHR '':'' \<in> set name then ''['' @ name @ '']'' else name"
    have "cut_last CHR '':'' (host_port name port) = Some (?host, port)"
      using cut_last_append [OF digits, of ?host] False by (simp add: host_port_def)
    then show ?thesis
      using assms by (auto simp: split_host_port_def valid_optional_port_def suffix_def)
  next
    case port: True
    show ?thesis
    proof (cases "CHR '':'' \<in> set name")
      case True
      have "\<not> list_all is_digit r" if "cut_last CHR '':'' (''['' @ name @ '']'') = Some (l, r)" for l r
      proof -
        from cut_last_Some [OF that] have e: "''['' @ name @ '']'' = l @ CHR '':'' # r" by simp
        from arg_cong [OF this, of last] have "last (CHR '':'' # r) = CHR '']''" by simp
        then have r: "last r = CHR '']''" "r \<noteq> []" by (auto split: if_splits)
        have "\<not> is_digit CHR '']''" by code_simp
        then show ?thesis using last_in_set [OF r(2)] unfolding r(1) list_all_iff by blast
      qed
      then show ?thesis
        using True port
        by (auto simp: split_host_port_def host_port_def valid_optional_port_def suffix_def split: option.splits)
    next
      case False
      then have "cut_last CHR '':'' name = None" by (simp add: cut_last_None)
      then show ?thesis using False port assms(2) by (simp add: split_host_port_def host_port_def)
    qed
  qed
qed

definition ip_byte :: "char \<Rightarrow> bool" where
  "ip_byte c = (is_lower_hex c \<or> c \<in> set '':.'')"

lemma join_ip: "list_all ip_byte sep \<Longrightarrow> (\<forall>x \<in> set xs. list_all ip_byte x) \<Longrightarrow> list_all ip_byte (join sep xs)"
  by (induction sep xs rule: join.induct) simp_all

lemma hex_digit_ip: "ip_byte (hex_digit (n mod 16))"
proof -
  have "0 \<le> n mod 16" "n mod 16 < 16" by simp_all
  then show ?thesis by (auto simp: hex_digit_def ip_byte_def class_defs)
qed

lemma hex_group_ip: "list_all ip_byte (hex_group n)"
proof -
  have "list_all ip_byte (map (\<lambda>k. hex_digit (n div 16 ^ k mod 16)) [3, 2, 1, 0])"
    using hex_digit_ip by (simp add: list_all_iff)
  then show ?thesis
    unfolding hex_group_def Let_def by (auto simp: list_all_iff ip_byte_def class_defs byte_def dest: set_dropWhileD)
qed

lemma dec_digits_ip: "0 \<le> n \<Longrightarrow> n < 256 \<Longrightarrow> list_all ip_byte (dec_digits n)"
  by (auto simp: dec_digits_def ip_byte_def class_defs byte_of_code)

lemma print_ip_bytes: "list_all ip_byte (print_ip gs)"
proof -
  have "list_all ip_byte (join '':'' (map hex_group xs))" for xs
    by (rule join_ip) (simp_all add: hex_group_ip ip_byte_def)
  moreover have "list_all ip_byte (dec_digits (n mod 256))" for n
    by (rule dec_digits_ip) simp_all
  ultimately show ?thesis
    by (auto simp: print_ip_def ip_byte_def split: prod.splits intro!: join_ip)
qed

subsection \<open>Canonical origins\<close>

lemma lower_char_cases: "lower_char c = c \<and> \<not> is_upper c \<or> is_lower (lower_char c)"
  by (auto simp: lower_char_def class_defs byte_of_code)

lemma is_lower_facts: "is_lower c \<Longrightarrow> host_byte c \<and> \<not> is_upper c \<and> c \<noteq> CHR ''%''"
  by (auto simp: host_byte_def ctl_byte_def class_defs byte_def)

lemma lower_host_byte: "host_byte c \<Longrightarrow> host_byte (lower_char c)"
  using lower_char_cases [of c] is_lower_facts by auto

lemma ip_host_byte: "ip_byte c \<Longrightarrow> host_byte c \<and> c \<noteq> CHR ''%'' \<and> \<not> is_upper c \<and> c \<noteq> CHR ''[''"
  by (auto simp: ip_byte_def host_byte_def ctl_byte_def class_defs byte_def)

lemma digit_host_byte: "is_digit c \<Longrightarrow> host_byte c \<and> c \<noteq> CHR ''%'' \<and> \<not> is_upper c"
  by (auto simp: host_byte_def ctl_byte_def class_defs byte_def)

lemma set_host_port:
  "set (host_port name port) \<subseteq> set name \<union> set port \<union> set ''[]:''"
  by (auto simp: host_port_def)

lemma host_port_bytes:
  assumes "list_all host_byte name" "list_all is_digit port"
  shows "list_all host_byte (host_port name port)"
proof -
  have "list_all host_byte ''[]:''" by code_simp
  then show ?thesis
    using assms digit_host_byte set_host_port [of name port] unfolding list_all_iff by blast
qed

text \<open>The host and the port of a text that is spelled like them.\<close>

lemma spelled_host:
  assumes "parse_url (scheme @ ''://'' @ host_port name port) = Some u"
    and "scheme = ''https'' \<or> scheme = ''http''" "list_all host_byte name" "list_all is_digit port"
  shows "\<exists>h. u = bare_url scheme h \<and> unescaped (host_port name port) h"
proof -
  obtain h where "u = bare_url scheme h" "parse_host (host_port name port) = Some h"
    using assms(1) unfolding parse_bare_url [OF assms(2) host_port_bytes [OF assms(3,4)]]
    by (auto simp only: map_option_eq_Some)
  then show ?thesis using parse_host_unescaped by blast
qed

lemma spelled_ip:
  assumes "parse_url (scheme @ ''://'' @ host_port name port) = Some u"
    and "scheme = ''https'' \<or> scheme = ''http''" "name = print_ip gs" "list_all is_digit port"
  shows "u = bare_url scheme (host_port name port) \<and> hostname u = name \<and> url_port u = port"
proof -
  have bytes: "list_all ip_byte name" using assms(3) print_ip_bytes by simp
  then have "list_all host_byte name" using ip_host_byte by (auto simp: list_all_iff)
  from spelled_host [OF assms(1,2) this assms(4)]
  obtain h where u: "u = bare_url scheme h" and h: "unescaped (host_port name port) h" by blast
  have "\<forall>c \<in> set name. c \<noteq> CHR ''%''" "\<forall>c \<in> set port. c \<noteq> CHR ''%''"
    using bytes assms(4) ip_host_byte digit_host_byte unfolding list_all_iff by blast+
  then have "CHR ''%'' \<notin> set (host_port name port)" using set_host_port [of name port] by auto
  with h have h: "h = host_port name port" by (simp add: unescaped_def)
  have "\<not> prefix ''['' name" using bytes ip_host_byte by (cases name) auto
  from split_host_port_join [OF assms(4) this] show ?thesis
    by (simp add: u h hostname_def url_port_def bare_url_def)
qed

lemma spelled_name:
  assumes "parse_url (scheme @ ''://'' @ host_port (to_lower (hostname u)) (url_port u)) = Some u"
    and "scheme = ''https'' \<or> scheme = ''http''" "CHR '':'' \<notin> set (to_lower (hostname u))"
  shows "u = bare_url scheme (host_port (hostname u) (url_port u)) \<and> to_lower (hostname u) = hostname u
    \<and> CHR ''%'' \<notin> set (hostname u)"
proof -
  let ?raw = "hostname u" and ?port = "url_port u"
  have split: "split_host_port (u_host u) = (?raw, ?port)" by (simp add: hostname_def url_port_def)
  note parts = split_host_port_spec [OF split]
  have "list_all host_byte ?raw"
    using parse_url_host_bytes [OF assms(1)] parts(1) by (auto simp: list_all_iff)
  then have bytes: "list_all host_byte (to_lower ?raw)"
    using lower_host_byte by (auto simp: list_all_iff to_lower_def)
  from spelled_host [OF assms(1,2) bytes parts(2)]
  obtain h where u: "u = bare_url scheme h" and h: "unescaped (host_port (to_lower ?raw) ?port) h" by blast
  have "u_host u = h" by (subst u) (simp add: bare_url_def)
  moreover have "length (host_port (to_lower ?raw) ?port) \<le> length (u_host u)"
    using parts(3) assms(3) by (auto simp: host_port_def)
  ultimately have h_eq: "h = host_port (to_lower ?raw) ?port"
    and plain: "CHR ''%'' \<notin> set (host_port (to_lower ?raw) ?port)"
    using h by (simp_all add: unescaped_def split: if_splits)
  have "\<not> is_upper c \<and> c \<noteq> CHR ''%''" if "c \<in> set ?raw" for c
  proof -
    from that parts(1) have c: "c \<in> set h" using \<open>u_host u = h\<close> by auto
    then consider d where "c = lower_char d" | "is_digit c" | "c = CHR '':''"
      unfolding h_eq using assms(3) parts(2)
      by (auto simp: host_port_def to_lower_def list_all_iff split: if_splits)
    then have "\<not> is_upper c"
    proof cases
      case (1 d)
      then show ?thesis using lower_char_cases [of d] is_lower_facts [of c] by auto
    qed (use digit_host_byte in \<open>auto simp: class_defs byte_def\<close>)
    with c plain show ?thesis unfolding h_eq by metis
  qed
  then have "to_lower ?raw = ?raw" "CHR ''%'' \<notin> set ?raw" by (auto simp: to_lower_id_iff list_all_iff)
  with u h_eq show ?thesis by simp
qed

text \<open>A text with the parts that its parser finds in it, in canonical spelling.\<close>

definition canonical_name :: "bytes \<Rightarrow> bool" where
  "canonical_name name =
     (name \<noteq> [] \<and> to_lower name = name \<and> ascii_only name \<and> set name \<inter> set ''/?#@%'' = {}
      \<and> (case parse_ip name of Some gs \<Rightarrow> name = print_ip gs | None \<Rightarrow> CHR '':'' \<notin> set name))"

definition local_scheme :: "bytes \<Rightarrow> bytes \<Rightarrow> bool" where
  "local_scheme scheme name =
     (scheme = ''https'' \<or> scheme = ''http''
        \<and> (name = ''localhost'' \<or> (\<exists>gs. parse_ip name = Some gs \<and> is_loopback gs)))"

text \<open>The name that the validator puts in the place of the host is the host that was written.\<close>

lemma written_host:
  assumes u: "parse_url v = Some u" and v: "v = scheme @ ''://'' @ host_port name (url_port u)"
    and scheme: "scheme = ''https'' \<or> scheme = ''http''"
    and name: "name = (case parse_ip (to_lower (hostname u)) of Some gs \<Rightarrow> print_ip gs | None \<Rightarrow> to_lower (hostname u))"
    and plain: "parse_ip (to_lower (hostname u)) = None \<longrightarrow> CHR '':'' \<notin> set (to_lower (hostname u))"
  shows "u = bare_url scheme (host_port name (url_port u)) \<and> hostname u = name \<and> to_lower (hostname u) = name
      \<and> CHR ''%'' \<notin> set name \<and> list_all host_byte name"
proof (cases "parse_ip (to_lower (hostname u))")
  case (Some gs)
  have digits: "list_all is_digit (url_port u)"
    using split_host_port_spec(2) by (metis surjective_pairing url_port_def)
  from Some have printed: "name = print_ip gs" by (simp add: name)
  then have ip: "list_all ip_byte name" by (simp add: print_ip_bytes)
  have "u = bare_url scheme (host_port name (url_port u)) \<and> hostname u = name"
    using spelled_ip [OF u [unfolded v] scheme printed digits] by simp
  moreover have "to_lower name = name"
    using ip ip_host_byte by (auto simp: to_lower_id_iff list_all_iff)
  ultimately show ?thesis using ip ip_host_byte by (auto simp: list_all_iff)
next
  case None
  then have low: "name = to_lower (hostname u)" by (simp add: name)
  have "u = bare_url scheme (host_port (hostname u) (url_port u)) \<and> to_lower (hostname u) = hostname u
      \<and> CHR ''%'' \<notin> set (hostname u)"
    using spelled_name [OF u [unfolded v low] scheme] plain None by blast
  moreover have "list_all host_byte (hostname u)"
    using parse_url_host_bytes [OF u] split_host_port_spec(1) [of "u_host u"]
    by (auto simp: list_all_iff hostname_def) (metis in_mono surjective_pairing)
  ultimately show ?thesis by (simp add: low)
qed

lemma accepted_spelling:
  assumes valid: "valid_origin v"
  shows "rune_count v \<le> 1024
    \<and> (\<exists>u. parse_url v = Some u \<and> v = u_scheme u @ ''://'' @ host_port (hostname u) (url_port u)
         \<and> u = bare_url (u_scheme u) (u_host u) \<and> canonical_name (hostname u)
         \<and> local_scheme (u_scheme u) (hostname u)
         \<and> (url_port u = [] \<or> list_all is_digit (url_port u) \<and> port_ok (u_scheme u) (url_port u)))"
proof -
  from valid obtain u where u: "parse_url v = Some u" and short: "rune_count v \<le> 1024"
    by (auto simp: valid_origin_def split: if_splits option.splits)
  define scheme where "scheme = to_lower (u_scheme u)"
  define host where "host = to_lower (hostname u)"
  define name where "name = (case parse_ip host of Some gs \<Rightarrow> print_ip gs | None \<Rightarrow> host)"
  note facts = valid [unfolded valid_origin_def u Let_def option.case scheme_def [symmetric]
      host_def [symmetric] name_def [symmetric]]
  have c: "scheme = ''https'' \<or> scheme = ''http''" "host \<noteq> []"
    "parse_ip host = None \<longrightarrow> ascii_only host \<and> CHR '':'' \<notin> set host"
    "scheme = ''http'' \<longrightarrow> host = ''localhost'' \<or> (\<exists>gs. parse_ip host = Some gs \<and> is_loopback gs)"
    "url_port u \<noteq> [] \<longrightarrow> port_ok scheme (url_port u)" "v = scheme @ ''://'' @ host_port name (url_port u)"
    using facts by (simp_all only: host_port_def split: if_splits option.splits) (auto split: option.splits)
  have w: "u = bare_url scheme (host_port name (url_port u))" "hostname u = name" "host = name"
    "CHR ''%'' \<notin> set name" "list_all host_byte name"
    using written_host [OF u c(6,1) name_def [unfolded host_def]] c(3) unfolding host_def by blast+
  have ip: "case parse_ip name of Some gs \<Rightarrow> name = print_ip gs | None \<Rightarrow> CHR '':'' \<notin> set name"
    "ascii_only name"
    using c(3) name_def print_ip_ascii unfolding w(3) by (cases "parse_ip name"; simp)+
  have "set name \<inter> set ''/?#@%'' = {}"
    using w(4,5) by (auto simp: host_byte_def list_all_iff)
  moreover have "to_lower name = name" using w(2,3) host_def by simp
  ultimately have canonical: "canonical_name name"
    using ip c(2) w(3) by (simp add: canonical_name_def)
  have local: "local_scheme scheme name" using c(1,4) unfolding w(3) local_scheme_def by blast
  have digits: "list_all is_digit (url_port u)"
    using split_host_port_spec(2) by (metis surjective_pairing url_port_def)
  have parts: "u_scheme u = scheme" "u_host u = host_port name (url_port u)"
    by (subst w(1), simp add: bare_url_def)+
  have "v = u_scheme u @ ''://'' @ host_port (hostname u) (url_port u)" unfolding parts(1) w(2) by (rule c(6))
  moreover have "u = bare_url (u_scheme u) (u_host u)" unfolding parts by (rule w(1))
  moreover have "url_port u = [] \<or> list_all is_digit (url_port u) \<and> port_ok (u_scheme u) (url_port u)"
    using c(5) digits unfolding parts(1) by blast
  ultimately show ?thesis
    using short u canonical local unfolding parts(1) [symmetric] w(2) [symmetric] by blast
qed

lemma spelled_accepted:
  assumes u: "parse_url v = Some u" and short: "rune_count v \<le> 1024"
    and v: "v = u_scheme u @ ''://'' @ host_port (hostname u) (url_port u)"
    and blank: "\<not> u_user u" "u_path u = []" "u_raw_query u = []" "u_fragment u = []"
    and name: "canonical_name (hostname u)" and scheme: "local_scheme (u_scheme u) (hostname u)"
    and port: "\<not> (url_port u \<noteq> [] \<and> \<not> port_ok (u_scheme u) (url_port u))"
  shows "valid_origin v"
proof -
  let ?name = "hostname u"
  have low: "to_lower (u_scheme u) = u_scheme u" "to_lower ?name = ?name"
    using scheme name by (auto simp: local_scheme_def canonical_name_def to_lower_def lower_char_def class_defs)
  have canonical: "(case parse_ip ?name of Some gs \<Rightarrow> print_ip gs | None \<Rightarrow> ?name) = ?name"
    "\<not> (parse_ip ?name = None \<and> (CHR '':'' \<in> set ?name \<or> \<not> ascii_only ?name))" "?name \<noteq> []"
    using name by (cases "parse_ip ?name"; simp add: canonical_name_def)+
  have local: "\<not> (u_scheme u = ''http'' \<and> ?name \<noteq> ''localhost''
      \<and> (case parse_ip ?name of None \<Rightarrow> True | Some gs \<Rightarrow> \<not> is_loopback gs))"
    "\<not> (u_scheme u \<noteq> ''https'' \<and> u_scheme u \<noteq> ''http'')"
    using scheme by (cases "parse_ip ?name"; auto simp: local_scheme_def)+
  show ?thesis
    unfolding valid_origin_def u option.case Let_def low canonical(1)
    using short v [unfolded host_port_def] blank canonical(2,3) local port
    by (simp only: if_False simp_thms not_less [symmetric])
qed

lemma valid_origin_iff:
  "valid_origin v \<longleftrightarrow>
     rune_count v \<le> 1024
     \<and> (\<exists>u name port. parse_url v = Some u \<and> name = hostname u \<and> port = url_port u
          \<and> v = u_scheme u @ ''://'' @ host_port name port
          \<and> \<not> u_user u \<and> u_path u = [] \<and> u_raw_query u = [] \<and> u_fragment u = []
          \<and> canonical_name name \<and> local_scheme (u_scheme u) name
          \<and> (port = [] \<or> list_all is_digit port \<and> port_ok (u_scheme u) port))"
proof
  assume valid: "valid_origin v"
  obtain u where u: "parse_url v = Some u" "v = u_scheme u @ ''://'' @ host_port (hostname u) (url_port u)"
    and bare: "u = bare_url (u_scheme u) (u_host u)"
    and rest: "canonical_name (hostname u)" "local_scheme (u_scheme u) (hostname u)"
      "url_port u = [] \<or> list_all is_digit (url_port u) \<and> port_ok (u_scheme u) (url_port u)"
    using accepted_spelling [OF valid] by (elim conjE exE) (rule that)
  have "\<not> u_user u" "u_path u = []" "u_raw_query u = []" "u_fragment u = []"
    by (subst bare, simp add: bare_url_def)+
  with accepted_spelling [OF valid, THEN conjunct1] u rest
  show "rune_count v \<le> 1024
     \<and> (\<exists>u name port. parse_url v = Some u \<and> name = hostname u \<and> port = url_port u
          \<and> v = u_scheme u @ ''://'' @ host_port name port
          \<and> \<not> u_user u \<and> u_path u = [] \<and> u_raw_query u = [] \<and> u_fragment u = []
          \<and> canonical_name name \<and> local_scheme (u_scheme u) name
          \<and> (port = [] \<or> list_all is_digit port \<and> port_ok (u_scheme u) port))"
    by (intro conjI exI [of _ u] exI [of _ "hostname u"] exI [of _ "url_port u"] refl)
qed (elim conjE exE, rule spelled_accepted, simp_all, blast?)

text \<open>
  C4. A text is accepted as an origin exactly when it is the canonical spelling of its own parts,
  in at most 1024 characters. It is a scheme, a host and an optional port and nothing else: no
  user, path, query or fragment. The host is ASCII in lower case, without an escape; when it reads as
  an address it is the printed form of that address, otherwise it has no colon. The scheme is
  https, or http with the local machine as the host. A port is in plain digits, in range and
  not the default of the scheme.
\<close>

theorem origin_confined:
  "valid_origin v \<longleftrightarrow>
     rune_count v \<le> 1024
     \<and> (\<exists>u name port. parse_url v = Some u \<and> name = hostname u \<and> port = url_port u
          \<and> v = u_scheme u @ ''://'' @ (if CHR '':'' \<in> set name then ''['' @ name @ '']'' else name)
                @ (if port \<noteq> [] then '':'' @ port else [])
          \<and> \<not> u_user u \<and> u_path u = [] \<and> u_raw_query u = [] \<and> u_fragment u = []
          \<and> name \<noteq> [] \<and> to_lower name = name \<and> ascii_only name \<and> set name \<inter> set ''/?#@%'' = {}
          \<and> (case parse_ip name of Some gs \<Rightarrow> name = print_ip gs | None \<Rightarrow> CHR '':'' \<notin> set name)
          \<and> (u_scheme u = ''https'' \<or> u_scheme u = ''http''
               \<and> (name = ''localhost'' \<or> (\<exists>gs. parse_ip name = Some gs \<and> is_loopback gs)))
          \<and> (port = [] \<or> list_all is_digit port \<and> port_ok (u_scheme u) port))"
  unfolding valid_origin_iff host_port_def canonical_name_def local_scheme_def by (simp only: conj_assoc)

lemma loopback_origin: "valid_origin ''http://[::1]:8080''"
  by code_simp

theorem origin_confined_witness:
  "valid_origin ''http://[::1]:8080''
   \<and> (\<exists>u. parse_url ''http://[::1]:8080'' = Some u \<and> to_lower (hostname u) = hostname u
        \<and> set (hostname u) \<inter> set ''/?#@%'' = {} \<and> u_path u = [])"
  using origin_confined [of "''http://[::1]:8080''"] loopback_origin by blast

end
