(* ===== verification/Browser_Verify.thy ===== *)
theory Browser_Verify
  imports Contract_Wire Json_Conform "HOL-Library.Product_Lexorder"
begin

text \<open>
  Package \<^verbatim>\<open>browserverify\<close>, \<^verbatim>\<open>browserverify.go\<close>: the checks of a browser report against a
  profile, for a live check and for a portability check, and the recheck of a retained summary.

  The profile is a type of another module. The model keeps of it what the package reads: its
  encoding, the time of its verification, the expiry computed from a time, its origins and the
  actions with the shape of their steps and outputs. The canonical form of an origin is the
  parameter \<^verbatim>\<open>po\<close>; the names of the output types are the parameter \<^verbatim>\<open>ty\<close>.
\<close>

subsection \<open>The profile as the package reads it\<close>

text \<open>
  A wait has a locator or waits for navigation; \<^verbatim>\<open>ps_is_wait\<close> says that the kind of the step
  is the wait, \<^verbatim>\<open>ps_locator\<close> that \<^verbatim>\<open>Locator()\<close> is set, \<^verbatim>\<open>ps_post_wait\<close> is \<^verbatim>\<open>PostWait()\<close>.
\<close>

record page_step =
  ps_is_wait :: bool
  ps_wait_for :: "bool option"
  ps_locator :: bool
  ps_post_wait :: "bool option"

record page_output =
  po_type :: bytes
  po_a11y :: bool
  po_presence :: "bool option"

record page_action =
  pa_sequence :: "page_step list"
  pa_outputs :: "(bytes \<times> page_output) list"

record page_profile =
  pp_bytes :: "bytes option"
  pp_verified_at :: bytes
  pp_expiry :: "gotime \<Rightarrow> int option"
  pp_origins :: "bytes list"
  pp_actions :: "(bytes \<times> page_action) list"

record output_types =
  ot_array :: bytes
  ot_all :: "bytes list"

subsection \<open>Reports\<close>

record check =
  ck_kind :: bytes
  ck_path :: bytes
  ck_ok :: bool
  ck_matches :: int
  ck_expected :: bytes
  ck_observed :: bytes
  ck_message :: bytes

record engine_result =
  er_engine :: bytes
  er_status :: bytes
  er_diagnostic :: bytes
  er_checks :: "check list"

record pressure =
  cp_capability :: bytes
  cp_disposition :: bytes
  cp_browser15 :: bytes
  cp_next_step :: bytes

record live_report =
  lr_version :: bytes
  lr_profile :: bytes
  lr_checked_at :: bytes
  lr_origin :: bytes
  lr_actions :: "bytes list"
  lr_ok :: bool
  lr_checks :: "check list"

record portability_report =
  pt_version :: bytes
  pt_profile :: bytes
  pt_checked_at :: bytes
  pt_origin :: bytes
  pt_actions :: "bytes list"
  pt_ok :: bool
  pt_engines :: "engine_result list"
  pt_pressure :: "pressure list"

record verify_summary =
  sm_version :: bytes
  sm_source :: bytes
  sm_profile :: bytes
  sm_checked_at :: bytes
  sm_origin :: bytes
  sm_actions :: "bytes list"
  sm_ok :: bool
  sm_engine :: bytes
  sm_checks :: "check list"
  sm_engines :: "engine_result list"

record requirement =
  rq_kind :: bytes
  rq_path :: bytes
  rq_output :: "page_output option"

definition live_version :: bytes where "live_version = ''browsertools.live-check.v1''"
definition portability_version :: bytes where "portability_version = ''browsertools.portability-check.v1''"
definition max_verify_bytes :: int where "max_verify_bytes = 1048576"
definition max_actions :: int where "max_actions = 64"
definition max_checks :: int where "max_checks = 512"
definition max_match_count :: int where "max_match_count = 1000000"

definition probe_locator :: bytes where "probe_locator = ''locator''"
definition probe_navigation :: bytes where "probe_navigation = ''navigation_wait''"
definition probe_output :: bytes where "probe_output = ''output''"

datatype check_error =
    VeContract | VeNoProfile | VeMarshal | VeProfileDigest | VeShape | VeDecode | VeVersion
  | VeSource | VeEngineField | VeCheckedAt | VeNoTime | VeVerifiedAt | VeExpiry | VeStale | VeOrigin
  | VeActions | VeUndeclared | VeRequirements | VeCheckCount | VeCheckKey | VeMatches
  | VeClosedPass | VeClosedTypes | VeLocatorTypes | VeLocator | VeNavigationTypes | VeNavigation
  | VeExpected | VeObserved | VeOutput | VeNilOutput | VeProbe | VeLiveOk | VePressure
  | VeEngineCount | VeEngineOrder | VeEngineSet | VePassed | VeUnavailable | VeFailed
  | VeDiagnostic | VeStatus | VeBaseline | VePortabilityOk

subsection \<open>Requirements\<close>

definition probe :: "bytes \<Rightarrow> bytes \<Rightarrow> requirement" where
  "probe kind path = \<lparr>rq_kind = kind, rq_path = path, rq_output = None\<rparr>"

definition step_requirements :: "bytes \<Rightarrow> page_step \<Rightarrow> requirement list" where
  "step_requirements base s =
     (if ps_is_wait s then
        (case ps_wait_for s of
           None \<Rightarrow> []
         | Some located \<Rightarrow>
             if located then [probe probe_locator (base @ ''.wait_for'')]
             else [probe probe_navigation (base @ ''.wait_for.navigation'')])
      else
        (if ps_locator s then [probe probe_locator (base @ ''.locator'')] else [])
        @ (case ps_post_wait s of
             None \<Rightarrow> []
           | Some located \<Rightarrow>
               if located then [probe probe_locator (base @ ''.wait_for'')]
               else [probe probe_navigation (base @ ''.wait_for.navigation'')]))"

fun sequence_requirements :: "bytes \<Rightarrow> int \<Rightarrow> page_step list \<Rightarrow> requirement list" where
  "sequence_requirements name i [] = []"
| "sequence_requirements name i (s # ss) =
     step_requirements (''actions.'' @ name @ ''.sequence['' @ decimal i @ '']'') s
     @ sequence_requirements name (i + 1) ss"

definition output_requirement :: "bytes \<Rightarrow> bytes \<times> page_output \<Rightarrow> requirement" where
  "output_requirement name nv =
     \<lparr>rq_kind = probe_output, rq_path = ''actions.'' @ name @ ''.outputs.'' @ fst nv,
      rq_output = Some (snd nv)\<rparr>"

definition action_requirements :: "page_profile \<Rightarrow> bytes \<Rightarrow> requirement list" where
  "action_requirements p name =
     (case map_of (pp_actions p) name of
        None \<Rightarrow> []
      | Some a \<Rightarrow>
          sequence_requirements name 0 (pa_sequence a)
          @ map (output_requirement name) (sort_key fst (pa_outputs a)))"

text \<open>
  The sort of the code is not stable; two requirements compare equal only when two outputs have
  one path, which takes an action whose name contains \<^verbatim>\<open>.outputs.\<close>. The model sorts stably.
\<close>

definition build_requirements :: "page_profile \<Rightarrow> bytes list \<Rightarrow> requirement list" where
  "build_requirements p actions =
     sort_key (\<lambda>r. (rq_path r, rq_kind r)) (concat (map (action_requirements p) actions))"

subsection \<open>One check\<close>

definition generic_failure :: bytes where
  "generic_failure = ''read-only browser observation failed closed''"

definition locator_message :: "bool \<Rightarrow> bytes" where
  "locator_message ok =
     (if ok then ''declared accessibility locator resolved exactly once''
      else ''declared accessibility locator did not resolve exactly once'')"

definition navigation_message :: "bool \<Rightarrow> bytes" where
  "navigation_message ok =
     (if ok then ''declared navigation wait was reached without executing an action macro''
      else ''declared navigation wait was not reached within the bounded observation'')"

definition output_message :: "bool \<Rightarrow> bytes" where
  "output_message ok =
     (if ok then ''declared output source and JSON type matched''
      else ''declared output source or JSON type did not match'')"

definition observed_type_valid :: "output_types \<Rightarrow> bytes \<Rightarrow> bool" where
  "observed_type_valid ty v = (v = [] \<or> v \<in> set (ot_all ty))"

definition output_count_ok :: "output_types \<Rightarrow> page_output \<Rightarrow> int \<Rightarrow> bool" where
  "output_count_ok ty o1 matches =
     (let presence = po_a11y o1 \<and> po_presence o1 = Some True
      in if presence then True else if po_type o1 = ot_array ty then 0 < matches else matches = 1)"

definition validate_output_check :: "output_types \<Rightarrow> page_output \<Rightarrow> check \<Rightarrow> check_error + unit" where
  "validate_output_check ty o1 c =
     first_error
       [fail_if (ck_expected c \<noteq> po_type o1) VeExpected,
        fail_if (\<not> observed_type_valid ty (ck_observed c)) VeObserved,
        (let want = output_count_ok ty o1 (ck_matches c) \<and> ck_observed c = po_type o1
         in fail_if (ck_ok c \<noteq> want \<or> ck_message c \<noteq> output_message want) VeOutput)]"

definition validate_check :: "output_types \<Rightarrow> requirement \<Rightarrow> check \<Rightarrow> check_error + unit" where
  "validate_check ty r c =
     (let typed = ck_expected c \<noteq> [] \<or> ck_observed c \<noteq> []
      in if ck_message c = generic_failure then
           first_error [fail_if (ck_ok c) VeClosedPass, fail_if typed VeClosedTypes]
         else if rq_kind r = probe_locator then
           first_error
             [fail_if typed VeLocatorTypes,
              (let want = (ck_matches c = 1)
               in fail_if (ck_ok c \<noteq> want \<or> ck_message c \<noteq> locator_message want) VeLocator)]
         else if rq_kind r = probe_navigation then
           first_error
             [fail_if typed VeNavigationTypes,
              fail_if (ck_message c \<noteq> navigation_message (ck_ok c)) VeNavigation]
         else if rq_kind r = probe_output then
           (case rq_output r of
              None \<Rightarrow> Inl VeNilOutput
            | Some o1 \<Rightarrow> validate_output_check ty o1 c)
         else Inl VeProbe)"

fun validate_check_list :: "output_types \<Rightarrow> requirement list \<Rightarrow> check list \<Rightarrow> check_error + unit" where
  "validate_check_list ty (r # rs) (c # cs) =
     (if ck_kind c \<noteq> rq_kind r \<or> ck_path c \<noteq> rq_path r then Inl VeCheckKey
      else if ck_matches c < 0 \<or> max_match_count < ck_matches c then Inl VeMatches
      else case validate_check ty r c of
        Inl e \<Rightarrow> Inl e
      | Inr _ \<Rightarrow> validate_check_list ty rs cs)"
| "validate_check_list ty _ _ = Inr ()"

definition validate_checks :: "output_types \<Rightarrow> requirement list \<Rightarrow> check list \<Rightarrow> check_error + unit" where
  "validate_checks ty rs cs =
     (if length cs \<noteq> length rs \<or> cs = [] \<or> max_checks < int (length cs) then Inl VeCheckCount
      else validate_check_list ty rs cs)"

definition all_checks_pass :: "check list \<Rightarrow> bool" where
  "all_checks_pass cs = (if cs = [] then False else list_all ck_ok cs)"

subsection \<open>What both reports have in common\<close>

definition profile_digest :: "page_profile option \<Rightarrow> check_error + bytes" where
  "profile_digest prof =
     (case prof of
        None \<Rightarrow> Inl VeNoProfile
      | Some p \<Rightarrow>
          (case pp_bytes p of None \<Rightarrow> Inl VeMarshal | Some data \<Rightarrow> Inr (''sha256:'' @ sha256 data)))"

text \<open>
  The canonical text of an instant in UTC: a text that ends in an offset is never the text of
  the same instant in UTC, which ends in \<^verbatim>\<open>Z\<close>.
\<close>

definition canonical_utc :: "bytes \<Rightarrow> int option" where
  "canonical_utc s =
     (case parse_time s of
        None \<Rightarrow> None
      | Some t \<Rightarrow> if t_offset t = 0 \<and> format_time t = s then Some (instant t) else None)"

fun sorted_unique :: "bytes option \<Rightarrow> bytes list \<Rightarrow> bool" where
  "sorted_unique previous [] = True"
| "sorted_unique previous (v # vs) =
     (if trim_space v = [] \<or> v \<noteq> trim_space v \<or> (case previous of None \<Rightarrow> False | Some p \<Rightarrow> v \<le> p)
      then False else sorted_unique (Some v) vs)"

definition validate_common ::
  "(bytes \<Rightarrow> bytes option) \<Rightarrow> page_profile option \<Rightarrow> bytes \<Rightarrow> bytes \<Rightarrow> bytes \<Rightarrow> bytes list \<Rightarrow> int
     \<Rightarrow> check_error + requirement list" where
  "validate_common po prof digest checked_at origin actions at =
     (case prof of
        None \<Rightarrow> Inl VeNoProfile
      | Some p \<Rightarrow>
          (case profile_digest prof of
             Inl e \<Rightarrow> Inl e
           | Inr want \<Rightarrow>
               if digest \<noteq> want then Inl VeProfileDigest
               else case canonical_utc checked_at of
                 None \<Rightarrow> Inl VeCheckedAt
               | Some checked \<Rightarrow>
                   if is_zero_time at then Inl VeNoTime
                   else case parse_time (pp_verified_at p) of
                     None \<Rightarrow> Inl VeVerifiedAt
                   | Some verified \<Rightarrow>
                       (case pp_expiry p verified of
                          None \<Rightarrow> Inl VeExpiry
                        | Some expires \<Rightarrow>
                            if checked < instant verified \<or> \<not> checked < expires \<or> at < checked \<or> \<not> at < expires
                            then Inl VeStale
                            else if po origin \<noteq> Some origin \<or> origin \<notin> set (pp_origins p) then Inl VeOrigin
                            else if actions = [] \<or> max_actions < int (length actions)
                                    \<or> \<not> sorted_unique None actions then Inl VeActions
                            else if \<not> list_all (\<lambda>a. map_of (pp_actions p) a \<noteq> None) actions
                            then Inl VeUndeclared
                            else
                              (let rs = build_requirements p actions
                               in if rs = [] \<or> max_checks < int (length rs) then Inl VeRequirements
                                  else Inr rs))))"

subsection \<open>Live checks\<close>

definition validate_live ::
  "(bytes \<Rightarrow> bytes option) \<Rightarrow> output_types \<Rightarrow> page_profile option \<Rightarrow> live_report \<Rightarrow> int \<Rightarrow> check_error + unit" where
  "validate_live po ty prof r at =
     (if lr_version r \<noteq> live_version then Inl VeVersion
      else case validate_common po prof (lr_profile r) (lr_checked_at r) (lr_origin r) (lr_actions r) at of
        Inl e \<Rightarrow> Inl e
      | Inr rs \<Rightarrow>
          (case validate_checks ty rs (lr_checks r) of
             Inl e \<Rightarrow> Inl e
           | Inr _ \<Rightarrow> fail_if (lr_ok r \<noteq> all_checks_pass (lr_checks r)) VeLiveOk))"

subsection \<open>Portability checks\<close>

definition validate_engine ::
  "output_types \<Rightarrow> requirement list \<Rightarrow> engine_result \<Rightarrow> check_error + unit" where
  "validate_engine ty rs e =
     (let d = er_diagnostic e; cs = er_checks e
      in if er_status e = ''passed'' then
           first_error
             [fail_if (d \<noteq> []) VePassed, validate_checks ty rs cs, fail_if (\<not> all_checks_pass cs) VePassed]
         else if er_status e = ''unavailable'' then
           fail_if (d \<noteq> ''engine_unavailable'' \<or> cs \<noteq> []) VeUnavailable
         else if er_status e = ''failed'' then
           (if d = ''browser_observation_failed'' then fail_if (cs \<noteq> []) VeFailed
            else if d = ''profile_check_failed'' then
              first_error [validate_checks ty rs cs, fail_if (all_checks_pass cs) VeFailed]
            else if d = ''chromium_baseline_unavailable'' \<or> d = ''check_shape_mismatch'' then
              first_error
                [fail_if (er_engine e = ''chromium'') VeFailed, validate_checks ty rs cs,
                 fail_if (\<not> all_checks_pass cs) VeFailed]
            else Inl VeDiagnostic)
         else Inl VeStatus)"

definition index_of :: "bytes list \<Rightarrow> bytes \<Rightarrow> int" where
  "index_of vs want = (case find_index (\<lambda>v. v = want) vs of None \<Rightarrow> -1 | Some i \<Rightarrow> int i)"

definition engine_order :: "bytes list" where
  "engine_order = [''chromium'', ''firefox'', ''webkit'']"

fun scan_engines :: "int \<Rightarrow> bytes list \<Rightarrow> engine_result list \<Rightarrow> bytes list option" where
  "scan_engines position seen [] = Some seen"
| "scan_engines position seen (e # es) =
     (let i = index_of engine_order (er_engine e)
      in if i < 0 \<or> i \<le> position \<or> er_engine e \<in> set seen then None
         else scan_engines i (er_engine e # seen) es)"

text \<open>What an alternate engine may claim, given the checks of the baseline.\<close>

definition claim_ok :: "check list \<Rightarrow> engine_result \<Rightarrow> bool" where
  "claim_ok baseline e =
     (let ready = baseline \<noteq> []; same = (ready \<and> er_checks e = baseline)
      in if er_diagnostic e = ''chromium_baseline_unavailable'' then \<not> (ready \<or> \<not> all_checks_pass (er_checks e))
         else if er_diagnostic e = ''check_shape_mismatch'' then
           \<not> (\<not> ready \<or> \<not> all_checks_pass (er_checks e) \<or> same)
         else if er_diagnostic e = [] then \<not> (er_status e = ''passed'' \<and> (\<not> ready \<or> \<not> same))
         else True)"

definition contract_pressure :: "pressure list" where
  "contract_pressure =
     map (\<lambda>(a, b, c, d). \<lparr>cp_capability = a, cp_disposition = b, cp_browser15 = c, cp_next_step = d\<rparr>)
       [(''screenshot'', ''supported_private'', ''no portable field'', ''retain only as reviewed private evidence''),
        (''trace'', ''supported_private'', ''no portable field'', ''retain only as reviewed private evidence''),
        (''har'', ''supported_private'', ''no portable field'', ''retain only as reviewed private evidence''),
        (''popup_context'', ''proposal_candidate'', ''no page-context selector'',
         ''define an explicit page-context reference for browser.1.6 review''),
        (''iframe_context'', ''proposal_candidate'', ''no frame-context selector'',
         ''define an exact-origin frame reference for browser.1.6 review''),
        (''download'', ''deferred'', ''no download result contract'',
         ''keep blocked until lifecycle and artifact semantics are specified''),
        (''upload'', ''deferred'', ''no private-input binding'',
         ''keep blocked until runtime-owned private input semantics are specified''),
        (''permission'', ''deferred'', ''no permission grant contract'',
         ''keep ungranted until origin-scoped runtime policy is specified''),
        (''visual_interaction'', ''proposal_candidate'', ''accessibility locators only'',
         ''define reviewed bounded visual locator evidence for browser.1.6 review'')]"

definition validate_engines ::
  "output_types \<Rightarrow> requirement list \<Rightarrow> engine_result list \<Rightarrow> check_error + unit" where
  "validate_engines ty rs es =
     (if length es < 2 \<or> 3 < length es then Inl VeEngineCount
      else case scan_engines (-1) [] es of
        None \<Rightarrow> Inl VeEngineOrder
      | Some seen \<Rightarrow>
          if ''chromium'' \<notin> set seen \<or> (''firefox'' \<notin> set seen \<and> ''webkit'' \<notin> set seen)
          then Inl VeEngineSet
          else
            first_error
              (map (validate_engine ty rs) es
               @ [fail_if (\<not> list_all (claim_ok (er_checks (hd es))) (tl es)) VeBaseline]))"

definition validate_portability ::
  "(bytes \<Rightarrow> bytes option) \<Rightarrow> output_types \<Rightarrow> page_profile option \<Rightarrow> portability_report \<Rightarrow> int \<Rightarrow> bool
     \<Rightarrow> check_error + unit" where
  "validate_portability po ty prof r at require_pressure =
     (if pt_version r \<noteq> portability_version then Inl VeVersion
      else case validate_common po prof (pt_profile r) (pt_checked_at r) (pt_origin r) (pt_actions r) at of
        Inl e \<Rightarrow> Inl e
      | Inr rs \<Rightarrow>
          if require_pressure \<and> pt_pressure r \<noteq> contract_pressure then Inl VePressure
          else case validate_engines ty rs (pt_engines r) of
            Inl e \<Rightarrow> Inl e
          | Inr _ \<Rightarrow>
              fail_if (pt_ok r \<noteq> list_all (\<lambda>e. er_status e = ''passed'') (pt_engines r)) VePortabilityOk)"

subsection \<open>Retained summaries\<close>

definition source_sha_valid :: "bytes \<Rightarrow> bool" where
  "source_sha_valid v =
     (let raw = trim_prefix v ''sha256:''
      in if v \<noteq> ''sha256:'' @ raw \<or> length raw \<noteq> 64 \<or> to_lower v \<noteq> v then False else hex_decodable raw)"

definition summary_live :: "verify_summary \<Rightarrow> live_report" where
  "summary_live s =
     \<lparr>lr_version = sm_version s, lr_profile = sm_profile s, lr_checked_at = sm_checked_at s,
      lr_origin = sm_origin s, lr_actions = sm_actions s, lr_ok = sm_ok s, lr_checks = sm_checks s\<rparr>"

definition summary_portability :: "verify_summary \<Rightarrow> portability_report" where
  "summary_portability s =
     \<lparr>pt_version = sm_version s, pt_profile = sm_profile s, pt_checked_at = sm_checked_at s,
      pt_origin = sm_origin s, pt_actions = sm_actions s, pt_ok = sm_ok s, pt_engines = sm_engines s,
      pt_pressure = contract_pressure\<rparr>"

definition validate_summary ::
  "(bytes \<Rightarrow> bytes option) \<Rightarrow> output_types \<Rightarrow> page_profile option \<Rightarrow> verify_summary \<Rightarrow> int \<Rightarrow> check_error + unit" where
  "validate_summary po ty prof s at =
     (if \<not> source_sha_valid (sm_source s) then Inl VeSource
      else if sm_version s = live_version then
        (if sm_engine s \<noteq> ''chromium'' \<or> sm_engines s \<noteq> [] then Inl VeEngineField
         else validate_live po ty prof (summary_live s) at)
      else if sm_version s = portability_version then
        (if sm_engine s \<noteq> [] \<or> sm_checks s \<noteq> [] then Inl VeEngineField
         else validate_portability po ty prof (summary_portability s) at False)
      else Inl VeVersion)"

text \<open>The key under which reports on the same subject are found.\<close>

definition logical_key :: "verify_summary \<Rightarrow> bytes" where
  "logical_key s =
     join [char_of (0 :: int)]
       [sm_profile s, sm_version s, sm_origin s, join [char_of (31 :: int)] (sm_actions s)]"

end
