(* ===== verification/Verify_Report.thy ===== *)
theory Verify_Report
  imports Browser_Verify Go_Decode
begin

text \<open>
  Package \<^verbatim>\<open>browserverify\<close>, the documents: decoding with and without unknown fields, the
  shape that a report must show before it is decoded, and \<^verbatim>\<open>InspectBytes\<close>. Reading a report
  file is not modelled; the bytes are given.
\<close>

definition check_fields :: gofields where
  "check_fields =
     [(''kind'', False, GString), (''path'', False, GString), (''ok'', False, GBool),
      (''matches'', True, GInt), (''expectedType'', True, GString), (''observedType'', True, GString),
      (''message'', False, GString)]"

definition engine_fields :: gofields where
  "engine_fields =
     [(''engine'', False, GString), (''status'', False, GString), (''diagnostic'', True, GString),
      (''checks'', False, GSlice (GStruct check_fields))]"

definition pressure_fields :: gofields where
  "pressure_fields =
     [(''capability'', False, GString), (''disposition'', False, GString), (''browser15'', False, GString),
      (''nextStep'', False, GString)]"

definition report_head_fields :: gofields where
  "report_head_fields =
     [(''version'', False, GString), (''profileDigest'', False, GString), (''checkedAt'', False, GString),
      (''origin'', False, GString), (''actions'', False, GSlice GString), (''ok'', False, GBool)]"

definition live_fields :: gofields where
  "live_fields = report_head_fields @ [(''checks'', False, GSlice (GStruct check_fields))]"

definition portability_fields :: gofields where
  "portability_fields =
     report_head_fields
     @ [(''engines'', False, GSlice (GStruct engine_fields)),
        (''contractPressure'', False, GSlice (GStruct pressure_fields))]"

definition identity_fields :: gofields where
  "identity_fields = [(''version'', False, GString), (''profileDigest'', False, GString)]"

subsection \<open>Reading\<close>

definition check_of_json :: "json \<Rightarrow> check" where
  "check_of_json j =
     (let v = (\<lambda>name. field_value check_fields name j); f = (\<lambda>name. str_of (v name))
      in \<lparr>ck_kind = f ''kind'', ck_path = f ''path'', ck_ok = bool_of (v ''ok''),
          ck_matches = int_of_json (v ''matches''), ck_expected = f ''expectedType'',
          ck_observed = f ''observedType'', ck_message = f ''message''\<rparr>)"

definition engine_of_json :: "json \<Rightarrow> engine_result" where
  "engine_of_json j =
     (let v = (\<lambda>name. field_value engine_fields name j); f = (\<lambda>name. str_of (v name))
      in \<lparr>er_engine = f ''engine'', er_status = f ''status'', er_diagnostic = f ''diagnostic'',
          er_checks = map check_of_json (elements (v ''checks''))\<rparr>)"

definition pressure_of_json :: "json \<Rightarrow> pressure" where
  "pressure_of_json j =
     (let f = (\<lambda>name. str_of (field_value pressure_fields name j))
      in \<lparr>cp_capability = f ''capability'', cp_disposition = f ''disposition'',
          cp_browser15 = f ''browser15'', cp_next_step = f ''nextStep''\<rparr>)"

definition live_of_json :: "json \<Rightarrow> live_report" where
  "live_of_json j =
     (let v = (\<lambda>name. field_value live_fields name j); f = (\<lambda>name. str_of (v name))
      in \<lparr>lr_version = f ''version'', lr_profile = f ''profileDigest'', lr_checked_at = f ''checkedAt'',
          lr_origin = f ''origin'', lr_actions = map str_of (elements (v ''actions'')),
          lr_ok = bool_of (v ''ok''), lr_checks = map check_of_json (elements (v ''checks''))\<rparr>)"

definition portability_of_json :: "json \<Rightarrow> portability_report" where
  "portability_of_json j =
     (let v = (\<lambda>name. field_value portability_fields name j); f = (\<lambda>name. str_of (v name))
      in \<lparr>pt_version = f ''version'', pt_profile = f ''profileDigest'', pt_checked_at = f ''checkedAt'',
          pt_origin = f ''origin'', pt_actions = map str_of (elements (v ''actions'')),
          pt_ok = bool_of (v ''ok''), pt_engines = map engine_of_json (elements (v ''engines'')),
          pt_pressure = map pressure_of_json (elements (v ''contractPressure''))\<rparr>)"

subsection \<open>Decoding\<close>

text \<open>\<^verbatim>\<open>consumeJSONValue\<close> over a well-formed document: exact repetitions at any depth.\<close>

fun consume_value :: "json \<Rightarrow> bool"
  and consume_members :: "bytes list \<Rightarrow> (bytes \<times> json) list \<Rightarrow> bool"
  and consume_elements :: "json list \<Rightarrow> bool"
where
  "consume_value j =
     (case j of
        JObj ms \<Rightarrow> consume_members [] ms
      | JArr xs \<Rightarrow> consume_elements xs
      | _ \<Rightarrow> True)"
| "consume_members seen [] = True"
| "consume_members seen (m # ms) =
     (if fst m \<in> set seen then False
      else if \<not> consume_value (snd m) then False
      else consume_members (fst m # seen) ms)"
| "consume_elements [] = True"
| "consume_elements (x # xs) = (if \<not> consume_value x then False else consume_elements xs)"

declare consume_value.simps [simp del]

text \<open>Decoding into a struct that ignores unknown members.\<close>

definition fits_open :: "gofields \<Rightarrow> json \<Rightarrow> bool" where
  "fits_open fs j =
     (case j of
        JNull \<Rightarrow> True
      | JObj ms \<Rightarrow> list_all (\<lambda>m. case find_field fs (fst m) of None \<Rightarrow> True | Some f \<Rightarrow> fits (snd (snd f)) (snd m)) ms
      | _ \<Rightarrow> False)"

text \<open>\<^verbatim>\<open>decodeStrict\<close>, with unknown fields allowed or not: the document the destination shows.\<close>

definition decode_open :: "gofields \<Rightarrow> bytes \<Rightarrow> json option" where
  "decode_open fs data =
     (case parse_json data of
        None \<Rightarrow> None
      | Some j \<Rightarrow> if consume_value j \<and> fits_open fs j then Some (received (GStruct fs) j) else None)"

definition decode_closed :: "gofields \<Rightarrow> bytes \<Rightarrow> json option" where
  "decode_closed fs data =
     (case parse_json data of
        None \<Rightarrow> None
      | Some j \<Rightarrow> if consume_value j \<and> fits (GStruct fs) j then Some (received (GStruct fs) j) else None)"

subsection \<open>Required shape\<close>

definition require_fields :: "bytes list \<Rightarrow> json \<Rightarrow> bool" where
  "require_fields names j =
     list_all (\<lambda>n. case raw_member n j of None \<Rightarrow> False | Some v \<Rightarrow> v \<noteq> JNull) names"

definition require_array :: "bool \<Rightarrow> json option \<Rightarrow> bool" where
  "require_array allow_empty v =
     (case v of Some (JArr xs) \<Rightarrow> allow_empty \<or> xs \<noteq> [] | _ \<Rightarrow> False)"

text \<open>An array of objects; a null decodes into a map that has no members.\<close>

definition object_or_null :: "json \<Rightarrow> bool" where
  "object_or_null j = (case j of JNull \<Rightarrow> True | JObj ms \<Rightarrow> True | _ \<Rightarrow> False)"

definition objects_with :: "bytes list \<Rightarrow> json \<Rightarrow> bool" where
  "objects_with names v = (list_all object_or_null (elements v) \<and> list_all (require_fields names) (elements v))"

definition check_array_shape :: "bool \<Rightarrow> json option \<Rightarrow> bool" where
  "check_array_shape allow_empty v =
     (require_array allow_empty v
      \<and> (case v of None \<Rightarrow> False | Some a \<Rightarrow> objects_with [''kind'', ''path'', ''ok'', ''message''] a))"

definition report_shape :: "bool \<Rightarrow> bytes \<Rightarrow> bool" where
  "report_shape portability data =
     (case parse_json data of
        None \<Rightarrow> False
      | Some j \<Rightarrow>
          consume_value j \<and> object_or_null j
          \<and> require_fields ([''version'', ''profileDigest'', ''checkedAt'', ''origin'', ''actions'', ''ok'']
                            @ (if portability then [''engines'', ''contractPressure''] else [''checks''])) j
          \<and> require_array False (raw_member ''actions'' j)
          \<and> (if \<not> portability then check_array_shape False (raw_member ''checks'' j)
             else require_array False (raw_member ''contractPressure'' j)
                  \<and> (case raw_member ''contractPressure'' j of None \<Rightarrow> False
                     | Some v \<Rightarrow> objects_with [''capability'', ''disposition'', ''browser15'', ''nextStep''] v)
                  \<and> require_array False (raw_member ''engines'' j)
                  \<and> (case raw_member ''engines'' j of None \<Rightarrow> False
                     | Some v \<Rightarrow> objects_with [''engine'', ''status'', ''checks''] v
                                 \<and> list_all (\<lambda>e. check_array_shape True (raw_member ''checks'' e)) (elements v))))"

subsection \<open>Inspection\<close>

definition live_summary :: "bytes \<Rightarrow> live_report \<Rightarrow> verify_summary" where
  "live_summary source r =
     \<lparr>sm_version = lr_version r, sm_source = source, sm_profile = lr_profile r,
      sm_checked_at = lr_checked_at r, sm_origin = lr_origin r, sm_actions = lr_actions r,
      sm_ok = lr_ok r, sm_engine = ''chromium'', sm_checks = lr_checks r, sm_engines = []\<rparr>"

definition portability_summary :: "bytes \<Rightarrow> portability_report \<Rightarrow> verify_summary" where
  "portability_summary source r =
     \<lparr>sm_version = pt_version r, sm_source = source, sm_profile = pt_profile r,
      sm_checked_at = pt_checked_at r, sm_origin = pt_origin r, sm_actions = pt_actions r,
      sm_ok = pt_ok r, sm_engine = [], sm_checks = [], sm_engines = pt_engines r\<rparr>"

definition inspect_bytes ::
  "(bytes \<Rightarrow> bytes option) \<Rightarrow> output_types \<Rightarrow> page_profile option \<Rightarrow> bytes \<Rightarrow> int
     \<Rightarrow> check_error + verify_summary" where
  "inspect_bytes po ty prof data at =
     (if data = [] \<or> max_verify_bytes < int (length data) \<or> canonical_json data = None then Inl VeContract
      else case decode_open identity_fields data of
        None \<Rightarrow> Inl VeContract
      | Some ident \<Rightarrow>
          (let version = trim_space (str_of (field_value identity_fields ''version'' ident));
               digest = trim_space (str_of (field_value identity_fields ''profileDigest'' ident));
               source = ''sha256:'' @ sha256 data
           in case profile_digest prof of
                Inl e \<Rightarrow> Inl e
              | Inr want \<Rightarrow>
                  if digest \<noteq> want then Inl VeProfileDigest
                  else if version = live_version then
                    (if \<not> report_shape False data then Inl VeShape
                     else case decode_closed live_fields data of
                       None \<Rightarrow> Inl VeDecode
                     | Some j \<Rightarrow>
                         (let r = live_of_json j
                          in case validate_live po ty prof r at of
                               Inl e \<Rightarrow> Inl e
                             | Inr _ \<Rightarrow> Inr (live_summary source r)))
                  else if version = portability_version then
                    (if \<not> report_shape True data then Inl VeShape
                     else case decode_closed portability_fields data of
                       None \<Rightarrow> Inl VeDecode
                     | Some j \<Rightarrow>
                         (let r = portability_of_json j
                          in case validate_portability po ty prof r at True of
                               Inl e \<Rightarrow> Inl e
                             | Inr _ \<Rightarrow> Inr (portability_summary source r)))
                  else Inl VeVersion))"

lemma consume_iff:
  shows "consume_value j \<longleftrightarrow> unambiguous GAny j"
    and "consume_members seen ms \<longleftrightarrow> fresh seen (map fst ms) \<and> (\<forall>m \<in> set ms. unambiguous GAny (snd m))"
    and "consume_elements xs \<longleftrightarrow> (\<forall>x \<in> set xs. unambiguous GAny x)"
proof (induction j and seen ms and xs rule: consume_value_consume_members_consume_elements.induct)
  case (1 j)
  then show ?case by (cases j) (auto simp: consume_value.simps)
qed (auto simp: fresh_Cons)

end
