(* ===== verification/Verify_Summary.thy ===== *)
theory Verify_Summary
  imports Verify_Report
begin

text \<open>
  What a retained summary states: the recheck of a summary agrees with the inspection it came
  from, and an \<^verbatim>\<open>ok\<close> in it means that every requirement of the profile was met, in every engine.
\<close>

subsection \<open>Checks\<close>

text \<open>A requirement met by a check.\<close>

definition satisfied :: "output_types \<Rightarrow> requirement \<Rightarrow> check \<Rightarrow> bool" where
  "satisfied ty r c =
     (ck_kind c = rq_kind r \<and> ck_path c = rq_path r \<and> ck_ok c
      \<and> (if rq_kind r = probe_locator then ck_matches c = 1
         else if rq_kind r = probe_navigation then ck_message c = navigation_message True
         else case rq_output r of
           None \<Rightarrow> False
         | Some o1 \<Rightarrow> ck_observed c = po_type o1 \<and> output_count_ok ty o1 (ck_matches c)))"

definition check_valid :: "output_types \<Rightarrow> requirement \<Rightarrow> check \<Rightarrow> bool" where
  "check_valid ty r c =
     (ck_kind c = rq_kind r \<and> ck_path c = rq_path r \<and> 0 \<le> ck_matches c
      \<and> ck_matches c \<le> max_match_count \<and> accepts (validate_check ty r c))"

lemma check_valid_ok: "check_valid ty r c \<Longrightarrow> satisfied ty r c \<longleftrightarrow> ck_ok c"
  by (auto simp: check_valid_def satisfied_def validate_check_def validate_output_check_def Let_def
      split: if_splits option.splits)

lemma check_list_valid:
  "length cs = length rs \<Longrightarrow> accepts (validate_check_list ty rs cs) \<longleftrightarrow> list_all2 (check_valid ty) rs cs"
proof (induction ty rs cs rule: validate_check_list.induct)
  case (1 ty r rs c cs)
  then show ?case by (auto simp: check_valid_def not_less accepts_unit_iff split: sum.splits)
qed auto

lemma checks_valid:
  "accepts (validate_checks ty rs cs) \<longleftrightarrow>
     cs \<noteq> [] \<and> int (length cs) \<le> max_checks \<and> list_all2 (check_valid ty) rs cs"
  using check_list_valid [of cs rs ty] list_all2_lengthD [of "check_valid ty" rs cs]
  by (auto simp: validate_checks_def)

lemma pass_satisfied:
  assumes "accepts (validate_checks ty rs cs)"
  shows "all_checks_pass cs \<longleftrightarrow> list_all2 (satisfied ty) rs cs"
proof -
  have valid: "list_all2 (check_valid ty) rs cs" and "cs \<noteq> []" using assms by (auto simp: checks_valid)
  then have "all_checks_pass cs \<longleftrightarrow> (\<forall>i < length cs. ck_ok (cs ! i))"
    by (simp add: all_checks_pass_def list_all_length)
  also have "\<dots> \<longleftrightarrow> list_all2 (satisfied ty) rs cs"
    using valid check_valid_ok by (auto simp: list_all2_conv_all_nth)
  finally show ?thesis .
qed

subsection \<open>Engines\<close>

lemma find_index_at: "find_index P xs = Some i \<Longrightarrow> i < length xs \<and> P (xs ! i)"
  by (induction xs arbitrary: i) (auto split: if_splits option.splits)

lemma index_cases: "index_of engine_order v = 0 \<longleftrightarrow> v = ''chromium''"
  by (auto simp: index_of_def engine_order_def)

lemma scan_engines_seen:
  "scan_engines position seen es = Some found \<Longrightarrow>
     set found = set seen \<union> er_engine ` set es
     \<and> (0 \<le> position \<longrightarrow> ''chromium'' \<notin> er_engine ` set es)"
proof (induction position seen es arbitrary: found rule: scan_engines.induct)
  case (2 position seen e es)
  let ?i = "index_of engine_order (er_engine e)"
  from 2(2) have i: "position < ?i" "0 \<le> ?i" "er_engine e \<notin> set seen"
    and rest: "scan_engines ?i (er_engine e # seen) es = Some found"
    by (simp_all add: Let_def split: if_splits)
  have "set found = set (er_engine e # seen) \<union> er_engine ` set es \<and> (0 \<le> ?i \<longrightarrow> ''chromium'' \<notin> er_engine ` set es)"
    by (rule 2(1) [OF refl _ rest]) (use i in simp)
  moreover have "0 \<le> position \<longrightarrow> er_engine e \<noteq> ''chromium''"
    using i(1) index_cases [of "er_engine e"] by auto
  ultimately show ?case using i(2) by auto
qed simp

lemma engines_accepted:
  assumes "accepts (validate_engines ty rs es)"
  shows "2 \<le> length es" "er_engine (hd es) = ''chromium''"
    "\<forall>e \<in> set es. accepts (validate_engine ty rs e)" "\<forall>e \<in> set (tl es). claim_ok (er_checks (hd es)) e"
proof -
  from assms obtain found where es: "2 \<le> length es" "scan_engines (-1) [] es = Some found"
    "''chromium'' \<in> set found"
    "\<forall>e \<in> set es. accepts (validate_engine ty rs e)" "\<forall>e \<in> set (tl es). claim_ok (er_checks (hd es)) e"
    by (auto simp: validate_engines_def list_all_iff not_less accepts_first_error split: if_splits option.splits)
  then show "2 \<le> length es" "\<forall>e \<in> set es. accepts (validate_engine ty rs e)"
    "\<forall>e \<in> set (tl es). claim_ok (er_checks (hd es)) e" by blast+
  from es(1) obtain e rest where cons: "es = e # rest" by (cases es) auto
  let ?i = "index_of engine_order (er_engine e)"
  have step: "scan_engines ?i [er_engine e] rest = Some found" "0 \<le> ?i"
    using es(2) by (auto simp: cons Let_def split: if_splits)
  show "er_engine (hd es) = ''chromium''"
    using scan_engines_seen [OF step(1)] step(2) es(3) by (auto simp: cons)
qed

lemma passed_checks:
  "accepts (validate_engine ty rs e) \<Longrightarrow> er_status e = ''passed'' \<Longrightarrow>
     er_diagnostic e = [] \<and> accepts (validate_checks ty rs (er_checks e)) \<and> all_checks_pass (er_checks e)"
  by (auto simp: validate_engine_def Let_def)

lemma satisfied_passes: "cs \<noteq> [] \<Longrightarrow> list_all2 (satisfied ty) rs cs \<Longrightarrow> all_checks_pass cs"
  by (auto simp: all_checks_pass_def list_all_length list_all2_conv_all_nth satisfied_def)

lemma engine_not_passed:
  assumes "accepts (validate_engine ty rs e)" "er_status e \<noteq> ''passed''" "all_checks_pass (er_checks e)"
  shows "er_engine e \<noteq> ''chromium''"
    "er_diagnostic e \<in> {''chromium_baseline_unavailable'', ''check_shape_mismatch''}"
  using assms by (auto simp: validate_engine_def Let_def all_checks_pass_def split: if_splits)

text \<open>All engines pass exactly when they agree on checks that meet every requirement.\<close>

lemma engines_pass_iff:
  assumes ok: "accepts (validate_engines ty rs es)" and "rs \<noteq> []"
  shows "list_all (\<lambda>e. er_status e = ''passed'') es \<longleftrightarrow>
    (\<forall>e \<in> set es. er_checks e = er_checks (hd es) \<and> list_all2 (satisfied ty) rs (er_checks e))"
proof
  note facts = engines_accepted [OF ok]
  assume passed: "list_all (\<lambda>e. er_status e = ''passed'') es"
  show "\<forall>e \<in> set es. er_checks e = er_checks (hd es) \<and> list_all2 (satisfied ty) rs (er_checks e)"
  proof
    fix e
    assume e: "e \<in> set es"
    then have p: "er_diagnostic e = []" "accepts (validate_checks ty rs (er_checks e))" "all_checks_pass (er_checks e)"
      using passed_checks [of ty rs e] facts(3) passed by (auto simp: list_all_iff)
    have "er_checks e = er_checks (hd es)"
    proof (cases "e \<in> set (tl es)")
      case True
      then have "claim_ok (er_checks (hd es)) e" using facts(4) by blast
      then show ?thesis using p(1) passed e by (auto simp: claim_ok_def Let_def list_all_iff)
    next
      case False
      then show ?thesis using e by (cases es) auto
    qed
    then show "er_checks e = er_checks (hd es) \<and> list_all2 (satisfied ty) rs (er_checks e)"
      using p pass_satisfied by blast
  qed
next
  note facts = engines_accepted [OF ok]
  assume agree: "\<forall>e \<in> set es. er_checks e = er_checks (hd es) \<and> list_all2 (satisfied ty) rs (er_checks e)"
  have "er_status e = ''passed''" if e: "e \<in> set es" for e
  proof (rule ccontr)
    assume not_passed: "er_status e \<noteq> ''passed''"
    have ready: "er_checks e \<noteq> []" using agree e \<open>rs \<noteq> []\<close> by fastforce
    have "all_checks_pass (er_checks e)" using satisfied_passes ready agree e by blast
    note c = engine_not_passed [OF bspec [OF facts(3) e] not_passed this]
    then have "e \<in> set (tl es)" using e facts(2) by (cases es) auto
    then have "claim_ok (er_checks (hd es)) e" using facts(4) by blast
    moreover have "er_checks (hd es) = er_checks e" using agree e by simp
    ultimately show False using c(2) ready by (auto simp: claim_ok_def Let_def)
  qed
  then show "list_all (\<lambda>e. er_status e = ''passed'') es" by (simp add: list_all_iff)
qed

subsection \<open>Reports\<close>

lemma common_accepted:
  assumes "validate_common po (Some p) digest checked_at origin actions at = Inr rs"
  shows "rs = build_requirements p actions" "rs \<noteq> []"
    "Inr digest = profile_digest (Some p)"
    "\<exists>checked verified expires. canonical_utc checked_at = Some checked
       \<and> map_option instant (parse_time (pp_verified_at p)) = Some verified
       \<and> Option.bind (parse_time (pp_verified_at p)) (pp_expiry p) = Some expires
       \<and> verified \<le> checked \<and> checked < expires \<and> checked \<le> at \<and> at < expires"
    "po origin = Some origin" "origin \<in> set (pp_origins p)"
    "list_all (\<lambda>a. map_of (pp_actions p) a \<noteq> None) actions"
  using assms
  by (auto simp: validate_common_def Let_def not_less split: option.splits sum.splits if_splits)

lemma common_profile: "validate_common po prof digest checked_at origin actions at = Inr rs \<Longrightarrow> \<exists>p. prof = Some p"
  by (cases prof) (auto simp: validate_common_def)

lemma live_accepted:
  "accepts (validate_live po ty prof r at) \<longleftrightarrow>
     lr_version r = live_version
     \<and> (\<exists>rs. validate_common po prof (lr_profile r) (lr_checked_at r) (lr_origin r) (lr_actions r) at = Inr rs
          \<and> accepts (validate_checks ty rs (lr_checks r)) \<and> lr_ok r = all_checks_pass (lr_checks r))"
  by (auto simp: validate_live_def accepts_unit_iff split: sum.splits)

lemma portability_accepted:
  "accepts (validate_portability po ty prof r at pressed) \<longleftrightarrow>
     pt_version r = portability_version \<and> (pressed \<longrightarrow> pt_pressure r = contract_pressure)
     \<and> (\<exists>rs. validate_common po prof (pt_profile r) (pt_checked_at r) (pt_origin r) (pt_actions r) at = Inr rs
          \<and> accepts (validate_engines ty rs (pt_engines r))
          \<and> pt_ok r = list_all (\<lambda>e. er_status e = ''passed'') (pt_engines r))"
  by (auto simp: validate_portability_def accepts_unit_iff split: sum.splits)

lemma source_digest_valid: "source_sha_valid (''sha256:'' @ sha256 data)"
proof -
  have raw: "trim_prefix (''sha256:'' @ sha256 data) ''sha256:'' = sha256 data"
    by (rule trim_prefix_append)
  have "to_lower ''sha256:'' = ''sha256:''" by code_simp
  then have low: "to_lower (''sha256:'' @ sha256 data) = ''sha256:'' @ sha256 data"
    using sha256_lower [of data] by (simp only: to_lower_def map_append)
  have "length (sha256 data) = 64" "hex_decodable (sha256 data)"
    using sha256_plain [of data]
    by (auto simp: plain_sha256_def hex_decodable_def list_all_iff lower_hex_iff)
  then show ?thesis
    unfolding source_sha_valid_def Let_def raw low by simp
qed

lemma versions_differ: "live_version \<noteq> portability_version"
  by code_simp

subsection \<open>Inspection and recheck\<close>

text \<open>
  C8. A summary that the inspection of report bytes yields passes the recheck of retained
  summaries against the same profile at the same time, and carries the digest of the bytes: the
  two ways of validating the facts agree.
\<close>

theorem inspected_summary_valid:
  assumes "inspect_bytes po ty prof data at = Inr s"
  shows "validate_summary po ty prof s at = Inr () \<and> sm_source s = ''sha256:'' @ sha256 data"
proof -
  note unfolded = assms [unfolded inspect_bytes_def Let_def]
  consider r where "accepts (validate_live po ty prof r at)" "s = live_summary (''sha256:'' @ sha256 data) r"
    | r where "accepts (validate_portability po ty prof r at True)"
        "s = portability_summary (''sha256:'' @ sha256 data) r"
    using unfolded by (auto simp: accepts_unit_iff split: if_splits option.splits sum.splits)
  then show ?thesis
  proof cases
    case 1
    have "summary_live s = r" by (simp add: 1(2) summary_live_def live_summary_def)
    moreover have "sm_version s = live_version"
      using 1(1) by (simp add: 1(2) live_summary_def live_accepted)
    ultimately show ?thesis
      using 1 source_digest_valid by (simp add: validate_summary_def live_summary_def accepts_unit_iff)
  next
    case 2
    have r: "pt_version r = portability_version" "pt_pressure r = contract_pressure"
      using 2(1) by (auto simp: portability_accepted)
    then have "summary_portability s = r"
      by (simp add: 2(2) summary_portability_def portability_summary_def)
    moreover have "validate_portability po ty prof r at False = Inr ()"
      using 2(1) by (simp add: portability_accepted flip: accepts_unit_iff)
    moreover have "sm_version s = portability_version" by (simp add: 2(2) r portability_summary_def)
    ultimately show ?thesis
      using source_digest_valid versions_differ
      by (simp add: validate_summary_def 2(2) portability_summary_def)
  qed
qed

text \<open>
  C7. A valid summary is of the profile, within its lifetime, for one of its origins and for
  actions it declares; and it says ok exactly when the retained checks meet, one by one, the
  requirements derived from the profile: in a live check those of Chromium, in a portability
  check the checks of every engine, which moreover are the same in all of them.
\<close>

theorem summary_ok_iff:
  assumes "validate_summary po ty (Some p) s at = Inr ()"
  shows "(let rs = build_requirements p (sm_actions s) in
      rs \<noteq> [] \<and> profile_digest (Some p) = Inr (sm_profile s)
      \<and> po (sm_origin s) = Some (sm_origin s) \<and> sm_origin s \<in> set (pp_origins p)
      \<and> list_all (\<lambda>a. map_of (pp_actions p) a \<noteq> None) (sm_actions s)
      \<and> (\<exists>checked verified expires. canonical_utc (sm_checked_at s) = Some checked
           \<and> map_option instant (parse_time (pp_verified_at p)) = Some verified
           \<and> Option.bind (parse_time (pp_verified_at p)) (pp_expiry p) = Some expires
           \<and> verified \<le> checked \<and> checked < expires \<and> checked \<le> at \<and> at < expires)
      \<and> (if sm_version s = live_version
         then sm_ok s \<longleftrightarrow> list_all2 (satisfied ty) rs (sm_checks s)
         else 2 \<le> length (sm_engines s) \<and> er_engine (hd (sm_engines s)) = ''chromium''
              \<and> (sm_ok s \<longleftrightarrow> (\<forall>e \<in> set (sm_engines s).
                   er_checks e = er_checks (hd (sm_engines s)) \<and> list_all2 (satisfied ty) rs (er_checks e)))))"
proof (cases "sm_version s = live_version")
  case True
  then have "accepts (validate_live po ty (Some p) (summary_live s) at)"
    using assms by (simp add: validate_summary_def accepts_unit_iff split: if_splits)
  then obtain rs where c: "validate_common po (Some p) (sm_profile s) (sm_checked_at s) (sm_origin s) (sm_actions s) at = Inr rs"
    and "accepts (validate_checks ty rs (sm_checks s))" "sm_ok s = all_checks_pass (sm_checks s)"
    by (auto simp: live_accepted summary_live_def)
  then have "sm_ok s \<longleftrightarrow> list_all2 (satisfied ty) rs (sm_checks s)" using pass_satisfied by simp
  then show ?thesis using True common_accepted [OF c] unfolding Let_def by simp
next
  case False
  then have "accepts (validate_portability po ty (Some p) (summary_portability s) at False)"
    using assms by (simp add: validate_summary_def accepts_unit_iff split: if_splits)
  then obtain rs where c: "validate_common po (Some p) (sm_profile s) (sm_checked_at s) (sm_origin s) (sm_actions s) at = Inr rs"
    and es: "accepts (validate_engines ty rs (sm_engines s))"
      "sm_ok s = list_all (\<lambda>e. er_status e = ''passed'') (sm_engines s)"
    by (auto simp: portability_accepted summary_portability_def)
  note k = common_accepted [OF c]
  have "sm_ok s \<longleftrightarrow> (\<forall>e \<in> set (sm_engines s).
      er_checks e = er_checks (hd (sm_engines s)) \<and> list_all2 (satisfied ty) rs (er_checks e))"
    using engines_pass_iff [OF es(1) k(2)] es(2) by simp
  then show ?thesis using False k engines_accepted(1,2) [OF es(1)] unfolding Let_def by simp
qed

end
