(* ===== verification/Verify_Sample.thy ===== *)
theory Verify_Sample
  imports Verify_Summary
begin

text \<open>A live report on a profile with one action, inspected and kept as a summary.\<close>

definition sample_types :: output_types where
  "sample_types =
     \<lparr>ot_array = ''array'',
      ot_all = [''string'', ''integer'', ''number'', ''boolean'', ''array'', ''object'', ''null'']\<rparr>"

definition status_action :: page_action where
  "status_action =
     \<lparr>pa_sequence =
        [\<lparr>ps_is_wait = False, ps_wait_for = None, ps_locator = False, ps_post_wait = Some False\<rparr>,
         \<lparr>ps_is_wait = True, ps_wait_for = Some True, ps_locator = False, ps_post_wait = None\<rparr>],
      pa_outputs = [(''status'', \<lparr>po_type = ''string'', po_a11y = True, po_presence = None\<rparr>)]\<rparr>"

definition sample_page :: page_profile where
  "sample_page =
     \<lparr>pp_bytes = Some ''profile'', pp_verified_at = ''2026-08-15T00:00:00Z'',
      pp_expiry = (\<lambda>t. Some (instant t + 30 * 86400 * 1000000000)),
      pp_origins = [''https://example.test''], pp_actions = [(''read_status'', status_action)]\<rparr>"

definition page_digest :: bytes where
  "page_digest = ''sha256:'' @ sha256 ''profile''"

definition met_check :: "bytes \<Rightarrow> bytes \<Rightarrow> bytes \<Rightarrow> bytes \<Rightarrow> check" where
  "met_check kind path type message =
     \<lparr>ck_kind = kind, ck_path = path, ck_ok = True, ck_matches = 1, ck_expected = type, ck_observed = type,
      ck_message = message\<rparr>"

definition sample_checks :: "check list" where
  "sample_checks =
     [met_check probe_output ''actions.read_status.outputs.status'' ''string'' (output_message True),
      met_check probe_navigation ''actions.read_status.sequence[0].wait_for.navigation'' [] (navigation_message True),
      met_check probe_locator ''actions.read_status.sequence[1].wait_for'' [] (locator_message True)]"

definition sample_live :: live_report where
  "sample_live =
     \<lparr>lr_version = live_version, lr_profile = page_digest, lr_checked_at = ''2026-08-16T00:00:00Z'',
      lr_origin = ''https://example.test'', lr_actions = [''read_status''], lr_ok = True,
      lr_checks = sample_checks\<rparr>"

definition sample_at :: int where
  "sample_at = the (parse_instant ''2026-08-17T00:00:00Z'')"

lemma sample_requirements:
  "build_requirements sample_page [''read_status''] =
     [output_requirement ''read_status'' (''status'', \<lparr>po_type = ''string'', po_a11y = True, po_presence = None\<rparr>),
      probe probe_navigation ''actions.read_status.sequence[0].wait_for.navigation'',
      probe probe_locator ''actions.read_status.sequence[1].wait_for'']"
  by code_simp

lemma sample_checks_valid:
  "validate_checks sample_types (build_requirements sample_page [''read_status'']) sample_checks = Inr ()"
  unfolding sample_requirements by code_simp

lemma sample_profile_digest: "profile_digest (Some sample_page) = Inr page_digest"
  by (simp add: profile_digest_def sample_page_def page_digest_def)

lemma sample_common:
  "validate_common Some (Some sample_page) page_digest ''2026-08-16T00:00:00Z'' ''https://example.test''
     [''read_status''] sample_at = Inr (build_requirements sample_page [''read_status''])"
proof -
  define c where "c = the (canonical_utc ''2026-08-16T00:00:00Z'')"
  define v where "v = the (parse_time (pp_verified_at sample_page))"
  have times: "canonical_utc ''2026-08-16T00:00:00Z'' = Some c \<and> parse_time (pp_verified_at sample_page) = Some v
    \<and> \<not> is_zero_time sample_at \<and> \<not> c < instant v \<and> c < instant v + 30 * 86400 * 1000000000
    \<and> \<not> sample_at < c \<and> sample_at < instant v + 30 * 86400 * 1000000000"
    unfolding c_def v_def by code_simp
  have "pp_expiry sample_page v = Some (instant v + 30 * 86400 * 1000000000)" for v
    by (simp add: sample_page_def)
  moreover have "sorted_unique None [''read_status'']" "map_of (pp_actions sample_page) ''read_status'' \<noteq> None"
    "''https://example.test'' \<in> set (pp_origins sample_page)"
    by code_simp+
  moreover have "int (length (build_requirements sample_page [''read_status''])) \<le> max_checks"
    "build_requirements sample_page [''read_status''] \<noteq> []"
    by (simp_all add: sample_requirements max_checks_def)
  ultimately show ?thesis
    using times by (auto simp: validate_common_def sample_profile_digest max_actions_def Let_def not_le not_less)
qed

lemma sample_live_valid: "validate_live Some sample_types (Some sample_page) sample_live sample_at = Inr ()"
proof -
  have "all_checks_pass sample_checks" by code_simp
  then show ?thesis
    using sample_common sample_checks_valid by (simp add: validate_live_def sample_live_def)
qed

subsection \<open>The document\<close>

definition met_tree :: "bytes \<Rightarrow> bytes \<Rightarrow> bytes \<Rightarrow> bytes \<Rightarrow> json" where
  "met_tree kind path type message =
     JObj ([(''kind'', JStr kind), (''path'', JStr path), (''ok'', JBool True), (''matches'', JNum ''1'')]
           @ omit_str ''expectedType'' type @ omit_str ''observedType'' type
           @ [(''message'', JStr message)])"

definition sample_report :: json where
  "sample_report =
     JObj [(''version'', JStr live_version), (''profileDigest'', JStr page_digest),
           (''checkedAt'', JStr ''2026-08-16T00:00:00Z''), (''origin'', JStr ''https://example.test''),
           (''actions'', JArr [JStr ''read_status'']), (''ok'', JBool True),
           (''checks'', JArr [
              met_tree probe_output ''actions.read_status.outputs.status'' ''string'' (output_message True),
              met_tree probe_navigation ''actions.read_status.sequence[0].wait_for.navigation'' [] (navigation_message True),
              met_tree probe_locator ''actions.read_status.sequence[1].wait_for'' [] (locator_message True)])]"

lemma neat_int: "int_lexeme n \<noteq> None \<Longrightarrow> neat GInt (JNum n)"
  by (simp add: neat_def shaped_def conforms_def closed_shape.simps)

lemma one_lexeme: "int_lexeme ''1'' = Some 1"
  by code_simp

lemma met_neat: "neat (GStruct check_fields) (met_tree kind path type message)"
  unfolding met_tree_def
  by (rule neat_struct) (auto simp: check_fields_def omit_str_def neat_int one_lexeme)

lemma met_read: "check_of_json (met_tree kind path type message) = met_check kind path type message"
  by (auto simp: check_of_json_def met_tree_def met_check_def Let_def field_value_exact check_fields_def omit_str_def
      str_of_def bool_of_def int_of_json_def one_lexeme)

lemma report_neat: "neat (GStruct live_fields) sample_report"
  unfolding sample_report_def
  by (rule neat_struct) (auto simp: live_fields_def report_head_fields_def met_neat)

lemma report_read: "live_of_json sample_report = sample_live"
  by (simp add: live_of_json_def sample_report_def sample_live_def Let_def field_value_exact live_fields_def
      report_head_fields_def str_of_def bool_of_def elements_def met_read sample_checks_def)

lemma page_digest_text: "utf8_valid page_digest" "trim_space page_digest = page_digest" "length page_digest = 71"
proof -
  have h: "list_all is_lower_hex (sha256 ''profile'')" "length (sha256 ''profile'') = 64"
    using sha256_plain [of "''profile''"] by (simp_all add: plain_sha256_def)
  then show "length page_digest = 71" by (simp add: page_digest_def)
  show "utf8_valid page_digest"
    by (rule ascii_text_utf8) (use h in \<open>auto simp: page_digest_def ascii_text_def list_all_iff class_defs\<close>)
  show "trim_space page_digest = page_digest"
  proof (rule trim_space_plain, rule disjI2, rule conjI)
    have some: "sha256 ''profile'' \<noteq> []"
      using h(2) by (cases "sha256 ''profile''") (simp_all del: length_sha256)
    then have "last page_digest = last (sha256 ''profile'')" by (simp add: page_digest_def)
    moreover have "last (sha256 ''profile'') \<in> set (sha256 ''profile'')" using some by (rule last_in_set)
    ultimately show "plain_char (last page_digest)"
      using h(1) by (auto simp: list_all_iff lower_hex_alnum alnum_plain)
  qed (simp add: page_digest_def plain_char_def byte_def)
qed

lemma page_digest_bound: "print_bound (JStr page_digest) = 428"
  by (simp add: page_digest_text)

lemma texts_utf8:
  "list_all utf8_valid
     ([live_version, probe_output, probe_navigation, probe_locator, output_message True,
      navigation_message True, locator_message True, ''1'', ''string'', ''version'', ''profileDigest'', ''checkedAt'',
      ''origin'', ''actions'', ''ok'', ''checks'', ''kind'', ''path'', ''matches'', ''expectedType'',
      ''observedType'', ''message'', ''2026-08-16T00:00:00Z'', ''https://example.test'', ''read_status'',
      ''actions.read_status.outputs.status'', ''actions.read_status.sequence[0].wait_for.navigation'',
      ''actions.read_status.sequence[1].wait_for''])"
  by code_simp

lemma report_printable: "printable sample_report"
proof -
  have "good_number ''1''" by code_simp
  then show ?thesis
    using texts_utf8 by (simp add: sample_report_def met_tree_def omit_str_def page_digest_text)
qed

lemma report_size: "print_bound sample_report \<le> 8000"
  by (simp add: sample_report_def met_tree_def omit_str_def page_digest_text live_version_def probe_output_def
      probe_navigation_def probe_locator_def output_message_def navigation_message_def locator_message_def)

lemma report_limits: "depth_of sample_report \<le> max_depth" "node_count sample_report \<le> max_nodes"
  by (simp_all add: sample_report_def met_tree_def omit_str_def max_depth_def max_nodes_def)

definition report_bytes :: bytes where
  "report_bytes = marshal sample_report"

lemma report_parsed: "parse_json report_bytes = Some sample_report"
  by (simp add: report_bytes_def marshal_def parse_print report_printable)

lemma report_length: "int (length report_bytes) \<le> 8000"
  using length_print [of True sample_report] report_size by (simp add: report_bytes_def marshal_def)

lemma report_unambiguous: "unambiguous GAny sample_report"
  using unambiguous_any neat_facts(2) report_neat by blast

lemma report_canonical: "canonical_json report_bytes \<noteq> None"
  using canonical_json_print [OF report_printable report_unambiguous report_limits, of True] report_length
  by (simp add: report_bytes_def marshal_def)

lemma report_identity:
  "fits_open identity_fields sample_report"
  "field_value identity_fields ''version'' (received (GStruct identity_fields) sample_report) = JStr live_version"
  "field_value identity_fields ''profileDigest'' (received (GStruct identity_fields) sample_report) = JStr page_digest"
proof -
  let ?hits = "map (map_option fst \<circ> find_field identity_fields)
    [''version'', ''profileDigest'', ''checkedAt'', ''origin'', ''actions'', ''ok'', ''checks'']"
  have "?hits = [Some ''version'', Some ''profileDigest'', None, None, None, None, None]" by code_simp
  then have hits: "find_field identity_fields ''version'' = Some (''version'', False, GString)"
    "find_field identity_fields ''profileDigest'' = Some (''profileDigest'', False, GString)"
    "find_field identity_fields ''checkedAt'' = None" "find_field identity_fields ''origin'' = None"
    "find_field identity_fields ''actions'' = None" "find_field identity_fields ''ok'' = None"
    "find_field identity_fields ''checks'' = None"
    by (simp_all add: find_field_of identity_fields_def)
  have "received (GStruct identity_fields) sample_report
      = JObj [(''version'', JStr live_version), (''profileDigest'', JStr page_digest)]"
    by (simp add: received_def sample_report_def fill.simps mem_fields_def field_hit_def member_type_def hits mem_at_def)
  then show "field_value identity_fields ''version'' (received (GStruct identity_fields) sample_report) = JStr live_version"
    "field_value identity_fields ''profileDigest'' (received (GStruct identity_fields) sample_report) = JStr page_digest"
    by (simp_all add: hits field_value_def ex_bool_eq)
  show "fits_open identity_fields sample_report"
    by (simp add: fits_open_def sample_report_def hits)
qed

lemma report_shaped: "report_shape False report_bytes"
  by (simp add: report_shape_def report_parsed consume_iff report_unambiguous)
    (simp add: sample_report_def object_or_null_def require_fields_def raw_member_def require_array_def
      check_array_shape_def objects_with_def elements_def met_tree_def omit_str_def)

lemma sample_inspected:
  "inspect_bytes Some sample_types (Some sample_page) report_bytes sample_at
     = Inr (live_summary (''sha256:'' @ sha256 report_bytes) sample_live)"
proof -
  have "report_bytes \<noteq> []" using print_json_nonempty report_printable by (simp add: report_bytes_def marshal_def)
  moreover have "trim_space live_version = live_version" by code_simp
  moreover have "decode_closed live_fields report_bytes = Some sample_report"
    using neat_received [OF report_neat] neat_facts(1) [OF report_neat]
    by (simp add: decode_closed_def report_parsed consume_iff report_unambiguous)
  moreover have "decode_open identity_fields report_bytes = Some (received (GStruct identity_fields) sample_report)"
    by (simp add: decode_open_def report_parsed consume_iff report_unambiguous report_identity)
  ultimately show ?thesis
    using report_length
    by (simp add: inspect_bytes_def Let_def report_canonical report_identity sample_profile_digest str_of_def
        page_digest_text report_shaped report_read sample_live_valid max_verify_bytes_def)
qed

theorem inspected_summary_valid_witness:
  "\<exists>s. inspect_bytes Some sample_types (Some sample_page) report_bytes sample_at = Inr s
     \<and> validate_summary Some sample_types (Some sample_page) s sample_at = Inr ()"
  using inspected_summary_valid [OF sample_inspected] sample_inspected by blast

lemma sample_summary_valid:
  "validate_summary Some sample_types (Some sample_page)
     (live_summary (''sha256:'' @ sha256 report_bytes) sample_live) sample_at = Inr ()"
proof -
  have "summary_live (live_summary d sample_live) = sample_live" for d
    by (simp add: summary_live_def live_summary_def)
  then show ?thesis
    using sample_live_valid source_digest_valid [of report_bytes]
    by (simp add: validate_summary_def) (simp add: live_summary_def sample_live_def)
qed

theorem summary_ok_iff_witness:
  "list_all2 (satisfied sample_types) (build_requirements sample_page [''read_status'']) sample_checks"
  using summary_ok_iff [OF sample_summary_valid]
  by (simp add: live_summary_def sample_live_def Let_def)

end
