(* ===== verification/Capture.thy ===== *)
theory Capture
  imports Transaction_Wire Contract_Digest
begin

text \<open>
  Package \<^verbatim>\<open>browserverify\<close>, \<^verbatim>\<open>capture.go\<close>: the receipt of an imported browser capture, its
  decoding, and its verification against independently kept identities and the bytes of every
  declared file. \<^verbatim>\<open>clean\<close> is the cleaning of relative paths. All errors of the file are one.
\<close>

subsection \<open>Receipts\<close>

record capture_file =
  cpf_path :: bytes
  cpf_sha256 :: bytes

record capture_receipt =
  rc_version :: bytes
  rc_start :: bytes
  rc_transaction :: transaction
  rc_effect :: bytes
  rc_files :: "capture_file list"

record capture_options =
  co_receipt :: bytes
  co_start :: bytes
  co_transaction :: bytes
  co_files :: "(bytes \<times> bytes) list"
  co_at :: int

definition capture_version :: bytes where
  "capture_version = ''openudon.browser-capture-import.v1''"

definition capture_file_fields :: gofields where
  "capture_file_fields = [(''path'', False, GString), (''sha256'', False, GString)]"

definition capture_fields :: gofields where
  "capture_fields =
     [(''version'', False, GString), (''start_sha256'', False, GString),
      (''transaction'', False, GStruct transaction_fields), (''effect'', False, GString),
      (''files'', False, GSlice (GStruct capture_file_fields))]"

definition capture_file_json :: "capture_file \<Rightarrow> json" where
  "capture_file_json f = JObj [(''path'', JStr (cpf_path f)), (''sha256'', JStr (cpf_sha256 f))]"

definition capture_json :: "capture_receipt \<Rightarrow> json" where
  "capture_json r =
     JObj [(''version'', JStr (rc_version r)), (''start_sha256'', JStr (rc_start r)),
           (''transaction'', transaction_json (rc_transaction r)), (''effect'', JStr (rc_effect r)),
           (''files'', JArr (map capture_file_json (rc_files r)))]"

definition capture_file_of_json :: "json \<Rightarrow> capture_file" where
  "capture_file_of_json j =
     \<lparr>cpf_path = str_of (field_value capture_file_fields ''path'' j),
      cpf_sha256 = str_of (field_value capture_file_fields ''sha256'' j)\<rparr>"

definition capture_of_json :: "json \<Rightarrow> capture_receipt" where
  "capture_of_json j =
     (let v = (\<lambda>name. field_value capture_fields name j)
      in \<lparr>rc_version = str_of (v ''version''), rc_start = str_of (v ''start_sha256''),
          rc_transaction = transaction_of_json (v ''transaction''), rc_effect = str_of (v ''effect''),
          rc_files = map capture_file_of_json (elements (v ''files''))\<rparr>)"

subsection \<open>Decoding\<close>

text \<open>\<^verbatim>\<open>sha256Plain\<close> ranges over runes; a byte outside ASCII is never one of the digits.\<close>

definition sha256_plain_text :: "bytes \<Rightarrow> bool" where
  "sha256_plain_text v = (if length v \<noteq> 64 then False else list_all (\<lambda>c. in_range 97 102 c \<or> in_range 48 57 c) v)"

fun scan_capture_files :: "(bytes \<Rightarrow> bytes option) \<Rightarrow> bytes list \<Rightarrow> capture_file list \<Rightarrow> bool" where
  "scan_capture_files clean seen [] = True"
| "scan_capture_files clean seen (f # fs) =
     (if clean (cpf_path f) \<noteq> Some (cpf_path f) \<or> 256 < length (cpf_path f)
         \<or> \<not> sha256_plain_text (cpf_sha256 f) \<or> cpf_path f \<in> set seen then False
      else scan_capture_files clean (cpf_path f # seen) fs)"

definition receipt_valid :: "capture_receipt \<Rightarrow> bool" where
  "receipt_valid r =
     (\<not> (rc_version r \<noteq> capture_version \<or> rc_effect r \<noteq> ''write'' \<or> length (rc_start r) \<noteq> 64
         \<or> \<not> sha256_plain_text (rc_start r) \<or> \<not> accepts (validate_transaction (rc_transaction r))
         \<or> tx_state (rc_transaction r) \<noteq> ''reviewed'' \<or> rc_files r = [] \<or> 128 < length (rc_files r)))"

definition decode_capture :: "(bytes \<Rightarrow> bytes option) \<Rightarrow> bytes \<Rightarrow> capture_receipt option" where
  "decode_capture clean data =
     (case decode_contract (GStruct capture_fields) data of
        None \<Rightarrow> None
      | Some j \<Rightarrow>
          (let r = capture_of_json j
           in if \<not> receipt_valid r then None
              else if \<not> scan_capture_files clean [] (rc_files r) then None else Some r))"

subsection \<open>Verification\<close>

definition max_capture_file :: int where "max_capture_file = 8388608"
definition max_capture_total :: int where "max_capture_total = 33554432"

text \<open>A time that does not parse is the zero time: the error is dropped.\<close>

definition time_or_zero :: "bytes \<Rightarrow> int" where
  "time_or_zero s = (case parse_instant s of None \<Rightarrow> 0 | Some i \<Rightarrow> i)"

text \<open>The loop over the declared files: the digests of their bytes, tagged.\<close>

fun scan_capture_bytes :: "(bytes \<times> bytes) list \<Rightarrow> int \<Rightarrow> bytes list \<Rightarrow> capture_file list \<Rightarrow> bytes list option" where
  "scan_capture_bytes files total_bytes hashes [] = Some hashes"
| "scan_capture_bytes files total_bytes hashes (f # fs) =
     (case map_of files (cpf_path f) of
        None \<Rightarrow> None
      | Some raw \<Rightarrow>
          if raw = [] \<or> max_capture_file < int (length raw)
             \<or> max_capture_total - total_bytes < int (length raw) \<or> sha256 raw \<noteq> cpf_sha256 f then None
          else scan_capture_bytes files (total_bytes + int (length raw))
                 ((''sha256:'' @ cpf_sha256 f) # hashes) fs)"

definition verify_capture :: "(bytes \<Rightarrow> bytes option) \<Rightarrow> bytes \<Rightarrow> capture_options \<Rightarrow> capture_receipt option" where
  "verify_capture clean data q =
     (if 512 < length (co_files q) then None
      else case decode_capture clean data of
        None \<Rightarrow> None
      | Some r \<Rightarrow>
          if \<not> sha256_plain_text (co_receipt q) \<or> \<not> sha256_plain_text (co_start q)
             \<or> sha256 data \<noteq> co_receipt q \<or> rc_start r \<noteq> co_start q then None
          else if transaction_digest (rc_transaction r) \<noteq> Inr (co_transaction q) then None
          else if \<not> is_zero_time (co_at q)
                  \<and> (co_at q < time_or_zero (pv_observed_at (tx_provenance (rc_transaction r)))
                     \<or> \<not> co_at q < time_or_zero (pv_expires_at (tx_provenance (rc_transaction r)))) then None
          else case scan_capture_bytes (co_files q) 0 [] (rc_files r) of
            None \<Rightarrow> None
          | Some hashes \<Rightarrow>
              if \<not> list_all (\<lambda>c. ca_source c \<in> set hashes \<and> ca_review c \<in> set hashes)
                     (tx_candidates (rc_transaction r)) then None
              else map_option capture_of_json
                     (decode_contract (GStruct capture_fields) (marshal (capture_json r))))"

text \<open>\<^verbatim>\<open>CaptureArtifactsMatch\<close>; the order in which the map of files is visited does not matter.\<close>

fun scan_artifact_bytes :: "int \<Rightarrow> bytes list \<Rightarrow> (bytes \<times> bytes) list \<Rightarrow> bytes list option" where
  "scan_artifact_bytes total_bytes hashes [] = Some hashes"
| "scan_artifact_bytes total_bytes hashes (f # fs) =
     (if snd f = [] \<or> max_capture_file < int (length (snd f))
         \<or> max_capture_total - total_bytes < int (length (snd f)) then None
      else scan_artifact_bytes (total_bytes + int (length (snd f))) (sha256 (snd f) # hashes) fs)"

definition capture_artifacts_match :: "capture_receipt \<Rightarrow> (bytes \<times> bytes) list \<Rightarrow> bool" where
  "capture_artifacts_match r files =
     (if 512 < length files then False
      else case scan_artifact_bytes 0 [] files of
        None \<Rightarrow> False
      | Some hashes \<Rightarrow>
          list_all (\<lambda>f. cpf_sha256 f \<in> set hashes) (rc_files r)
          \<and> list_all (\<lambda>c. list_all (\<lambda>h. trim_prefix h ''sha256:'' \<in> set hashes) [ca_source c, ca_review c])
              (tx_candidates (rc_transaction r)))"

subsection \<open>Reading after sorting\<close>

lemma sorted_transaction_at:
  assumes "tx_bindings t = Some bs"
  shows "field_value transaction_fields k (sort_json (transaction_json t))
    = (case map_of (members (transaction_json t)) k of None \<Rightarrow> JNull | Some v \<Rightarrow> sort_json v)"
proof -
  have "distinct (map fst (members (transaction_json t)))"
    by (auto simp: members_def transaction_json_def keys_optional in_optional omit_str_def)
  moreover have "fst ` set (members (transaction_json t)) \<subseteq> fst ` set transaction_fields"
    by (auto simp: members_def transaction_json_def transaction_fields_def in_optional omit_str_def)
  ultimately show ?thesis
    using field_value_sorted [of "members (transaction_json t)" transaction_fields k]
    by (simp add: members_def transaction_json_def)
qed

lemmas sorted_reads = field_value_sorted transaction_tables str_of_def elements_def texts_of_def comp_def Let_def

lemma candidate_read_sorted [simp]: "candidate_of_json (sort_json (candidate_json c)) = c"
  unfolding candidate_json_def candidate_of_json_def by (cases c) (simp add: sorted_reads del: sort_json.simps(2))

lemma provenance_read_sorted [simp]: "provenance_of_json (sort_json (provenance_json p)) = p"
  unfolding provenance_json_def provenance_of_json_def by (cases p) (simp add: sorted_reads del: sort_json.simps(2))

lemma binding_read_sorted [simp]: "binding_of_json (sort_json (binding_json b)) = b"
  unfolding binding_json_def binding_of_json_def by (cases b) (simp add: sorted_reads del: sort_json.simps(2))

lemma preparation_read_sorted [simp]: "preparation_of_json (sort_json (preparation_json p)) = p"
  unfolding preparation_json_def preparation_of_json_def by (cases p) (simp add: sorted_reads del: sort_json.simps(2))

lemma promotion_read_sorted [simp]: "promotion_of_json (sort_json (promotion_json p)) = p"
  unfolding promotion_json_def promotion_of_json_def by (cases p) (simp add: sorted_reads del: sort_json.simps(2))

lemma failure_read_sorted [simp]: "failure_of_json (sort_json (failure_json f)) = f"
  unfolding failure_json_def failure_of_json_def by (cases f) (simp add: sorted_reads del: sort_json.simps(2))

lemma parts_present_sorted:
  "sort_json (preparation_json p) \<noteq> JNull" "sort_json (promotion_json q) \<noteq> JNull" "sort_json (failure_json f) \<noteq> JNull"
  by (simp_all add: preparation_json_def promotion_json_def failure_json_def)

lemma transaction_read_sorted:
  assumes "tx_bindings t = Some bs"
  shows "transaction_of_json (sort_json (transaction_json t)) = t"
  by (rule transaction.equality, simp_all only: transaction_of_json_def Let_def transaction.simps sorted_transaction_at [OF assms])
    (simp_all add: members_def transaction_json_def assms str_of_def elements_def
      present_def comp_def map_of_omit map_of_optional parts_present_sorted
      del: map_of_append cong: if_cong split: option.split)

lemma capture_file_read_sorted [simp]: "capture_file_of_json (sort_json (capture_file_json f)) = f"
  unfolding capture_file_json_def capture_file_of_json_def
  by (cases f) (simp add: sorted_reads capture_file_fields_def del: sort_json.simps(2))

lemma capture_read_sorted:
  assumes "tx_bindings (rc_transaction r) = Some bs"
  shows "capture_of_json (sort_json (capture_json r)) = r"
  unfolding capture_json_def capture_of_json_def
  using transaction_read_sorted [OF assms]
  by (cases r) (simp add: field_value_sorted capture_fields_def str_of_def elements_def Let_def comp_def
      del: sort_json.simps(2))

subsection \<open>What decoding leaves\<close>

lemma decode_contract_print:
  assumes "printable j" "decode_contract t (print_json html j) = Some k"
  shows "k = sort_json j"
proof -
  from assms(2) obtain c where c: "canonical_json (print_json html j) = Some c" "decode_strict t c = Inr k"
    by (auto simp: decode_contract_def split: option.splits sum.splits if_splits)
  from c(1) obtain j' where j': "parse_json (print_json html j) = Some j'" "parse_json c = Some (sort_json j')"
    by (rule canonical_json_sorted)
  have "j' = j" using j'(1) parse_print [OF assms(1), of html] by simp
  then show ?thesis using j'(2) c(2) by (simp add: decode_strict_iff)
qed

lemma capture_file_utf8:
  "printable j \<Longrightarrow> utf8_valid (cpf_path (capture_file_of_json j)) \<and> utf8_valid (cpf_sha256 (capture_file_of_json j))"
  by (simp add: capture_file_of_json_def printable_reads)

lemma capture_keys_utf8:
  "list_all utf8_valid [''path'', ''sha256'', ''version'', ''start_sha256'', ''transaction'', ''effect'', ''files'']"
  by code_simp

lemma receipt_printable:
  assumes j: "printable j" and r: "r = capture_of_json j" and ok: "accepts (validate_transaction (rc_transaction r))"
  shows "printable (capture_json r)"
proof -
  have "utf8_valid (rc_version r)" "utf8_valid (rc_start r)" "utf8_valid (rc_effect r)"
    unfolding r capture_of_json_def Let_def by (simp_all add: printable_reads j)
  moreover have "\<forall>f \<in> set (rc_files r). utf8_valid (cpf_path f) \<and> utf8_valid (cpf_sha256 f)"
    unfolding r capture_of_json_def Let_def
    by (auto intro!: capture_file_utf8 [THEN conjunct1] capture_file_utf8 [THEN conjunct2]
        printable_elements [OF printable_field [OF j]])
  ultimately show ?thesis
    using transaction_printable [OF ok] capture_keys_utf8 by (simp add: capture_json_def capture_file_json_def)
qed

text \<open>The private copy that is returned is the receipt that was decoded.\<close>

lemma decoded_capture:
  assumes "decode_capture clean data = Some r"
  shows "receipt_valid r" "scan_capture_files clean [] (rc_files r)" "printable (capture_json r)"
  using assms receipt_printable decode_contract_printable
  by (auto simp: decode_capture_def Let_def receipt_valid_def split: option.splits if_splits)

lemma copied_receipt:
  assumes "decode_capture clean data = Some r"
    and "decode_contract (GStruct capture_fields) (marshal (capture_json r)) = Some j"
  shows "capture_of_json j = r"
proof -
  have "accepts (validate_transaction (rc_transaction r))"
    using decoded_capture(1) [OF assms(1)] by (simp add: receipt_valid_def)
  then obtain bs where bs: "tx_bindings (rc_transaction r) = Some bs"
    by (auto simp: validate_transaction_accepts validate_bindings_accepts)
  have "j = sort_json (capture_json r)"
    using decode_contract_print [OF decoded_capture(3) [OF assms(1)]] assms(2) by (simp add: marshal_def)
  then show ?thesis using capture_read_sorted [OF bs] by simp
qed

subsection \<open>What verification establishes\<close>

lemma scan_capture_files_iff:
  "scan_capture_files clean seen fs \<longleftrightarrow>
     fresh seen (map cpf_path fs)
     \<and> (\<forall>f \<in> set fs. clean (cpf_path f) = Some (cpf_path f) \<and> length (cpf_path f) \<le> 256
          \<and> sha256_plain_text (cpf_sha256 f))"
  by (induction fs arbitrary: seen) (auto simp: fresh_Cons not_less)

lemma scan_capture_bytes_facts:
  "scan_capture_bytes files n hashes fs = Some hs \<Longrightarrow> 0 \<le> n \<Longrightarrow> n \<le> max_capture_total \<Longrightarrow>
     set hs = set hashes \<union> (\<lambda>f. ''sha256:'' @ cpf_sha256 f) ` set fs
     \<and> (\<forall>f \<in> set fs. \<exists>raw. map_of files (cpf_path f) = Some raw \<and> raw \<noteq> []
          \<and> int (length raw) \<le> max_capture_file \<and> sha256 raw = cpf_sha256 f)
     \<and> n + sum_list (map (\<lambda>f. int (length (the (map_of files (cpf_path f))))) fs) \<le> max_capture_total"
proof (induction fs arbitrary: n hashes)
  case (Cons f fs)
  then obtain raw where raw: "map_of files (cpf_path f) = Some raw" "raw \<noteq> []" "int (length raw) \<le> max_capture_file"
    "n + int (length raw) \<le> max_capture_total" "sha256 raw = cpf_sha256 f"
    and rest: "scan_capture_bytes files (n + int (length raw)) ((''sha256:'' @ cpf_sha256 f) # hashes) fs = Some hs"
    by (auto split: option.splits if_splits)
  from Cons.IH [OF rest _ raw(4)] Cons.prems(2) raw show ?case by auto
qed auto

text \<open>
  C9. A verified capture receipt is the decoded, valid receipt of a reviewed transaction, copied
  without a change, under the retained identities of receipt, start and transaction. Every file
  it declares, each path once, was supplied with exactly the bytes of its digest, within the
  limits of one file and of all; the source and the review of every candidate are among these
  files; and a given time lies in the lifetime of the provenance.
\<close>

theorem capture_verified:
  assumes "verify_capture clean data q = Some r"
  shows "decode_capture clean data = Some r \<and> accepts (validate_transaction (rc_transaction r))
    \<and> tx_state (rc_transaction r) = ''reviewed''
    \<and> sha256 data = co_receipt q \<and> rc_start r = co_start q
    \<and> transaction_digest (rc_transaction r) = Inr (co_transaction q)
    \<and> distinct (map cpf_path (rc_files r)) \<and> length (rc_files r) \<le> 128
    \<and> (\<forall>f \<in> set (rc_files r). clean (cpf_path f) = Some (cpf_path f)
         \<and> (\<exists>raw. map_of (co_files q) (cpf_path f) = Some raw \<and> raw \<noteq> []
              \<and> int (length raw) \<le> max_capture_file \<and> sha256 raw = cpf_sha256 f))
    \<and> sum_list (map (\<lambda>f. int (length (the (map_of (co_files q) (cpf_path f))))) (rc_files r)) \<le> max_capture_total
    \<and> (\<forall>c \<in> set (tx_candidates (rc_transaction r)). \<forall>h \<in> {ca_source c, ca_review c}.
         \<exists>f \<in> set (rc_files r). h = ''sha256:'' @ cpf_sha256 f)
    \<and> (co_at q \<noteq> 0 \<longrightarrow>
         time_or_zero (pv_observed_at (tx_provenance (rc_transaction r))) \<le> co_at q
         \<and> co_at q < time_or_zero (pv_expires_at (tx_provenance (rc_transaction r))))"
proof -
  from assms obtain d hashes j where d: "decode_capture clean data = Some d"
    and ids: "sha256 data = co_receipt q" "rc_start d = co_start q"
      "transaction_digest (rc_transaction d) = Inr (co_transaction q)"
    and at: "co_at q = 0 \<or> time_or_zero (pv_observed_at (tx_provenance (rc_transaction d))) \<le> co_at q
         \<and> co_at q < time_or_zero (pv_expires_at (tx_provenance (rc_transaction d)))"
    and bytes: "scan_capture_bytes (co_files q) 0 [] (rc_files d) = Some hashes"
    and cands: "\<forall>c \<in> set (tx_candidates (rc_transaction d)). ca_source c \<in> set hashes \<and> ca_review c \<in> set hashes"
    and j: "decode_contract (GStruct capture_fields) (marshal (capture_json d)) = Some j" "r = capture_of_json j"
    by (auto simp: verify_capture_def is_zero_time_def list_all_iff not_less split: if_splits option.splits)
  have r: "r = d" using copied_receipt [OF d j(1)] j(2) by simp
  note b = scan_capture_bytes_facts [OF bytes]
  have total: "0 \<le> max_capture_total" by (simp add: max_capture_total_def)
  note b = b [OF order.refl total]
  note v = decoded_capture [OF d]
  from v(1) have "accepts (validate_transaction (rc_transaction d))" "tx_state (rc_transaction d) = ''reviewed''"
    "length (rc_files d) \<le> 128"
    by (simp_all add: receipt_valid_def)
  moreover have "distinct (map cpf_path (rc_files d))" "\<forall>f \<in> set (rc_files d). clean (cpf_path f) = Some (cpf_path f)"
    using v(2) by (simp_all add: scan_capture_files_iff)
  moreover have "\<forall>c \<in> set (tx_candidates (rc_transaction d)). \<forall>h \<in> {ca_source c, ca_review c}.
         \<exists>f \<in> set (rc_files d). h = ''sha256:'' @ cpf_sha256 f"
    using cands b by auto
  ultimately show ?thesis unfolding r using d ids at b by auto
qed

subsection \<open>A verified capture\<close>

definition captured :: "(bytes \<times> bytes) list" where
  "captured = [(''login.json'', ''one''), (''login.md'', ''two''), (''shop.json'', ''three''), (''shop.md'', ''four'')]"

definition captured_transaction :: transaction where
  "captured_transaction =
     sample_transaction\<lparr>tx_state := ''reviewed'',
       tx_candidates :=
        [\<lparr>ca_kind = ''authentication'', ca_schema = ''uws.browser-authentication.1.0'',
          ca_source = ''sha256:'' @ sha256 ''one'', ca_review = ''sha256:'' @ sha256 ''two''\<rparr>,
         \<lparr>ca_kind = ''capability'', ca_schema = ''uws.browser.1.5'',
          ca_source = ''sha256:'' @ sha256 ''three'', ca_review = ''sha256:'' @ sha256 ''four''\<rparr>]\<rparr>"

definition sample_receipt :: capture_receipt where
  "sample_receipt =
     \<lparr>rc_version = capture_version, rc_start = replicate 64 CHR ''a'', rc_transaction = captured_transaction,
      rc_effect = ''write'',
      rc_files = map (\<lambda>f. \<lparr>cpf_path = fst f, cpf_sha256 = sha256 (snd f)\<rparr>) captured\<rparr>"

lemma captured_accepted: "accepts (validate_transaction captured_transaction)"
proof -
  let ?r = "sample_transaction\<lparr>tx_state := ''reviewed''\<rparr>"
  have base: "accepts (validate_transaction ?r)" by code_simp
  have cands: "accepts (validate_candidates kind_auth (tx_candidates captured_transaction))"
    by (simp only: validate_candidates_accepts captured_transaction_def)
      (auto simp: want_kinds_def kind_auth_def kind_reg_def valid_candidate_schema_def sha256_plain valid_digest_prefix
        simp del: append.simps)
  have kind: "tx_kind ?r = kind_auth" "kind_auth \<noteq> kind_reg" by code_simp+
  have "validate_version_composition captured_transaction = validate_version_composition ?r"
    using kind by (simp add: validate_version_composition_def captured_transaction_def Let_def)
  moreover have "validate_lifecycle captured_transaction = validate_lifecycle ?r"
    by (simp add: validate_lifecycle_def lifecycle_fields_def captured_transaction_def Let_def)
  ultimately show ?thesis
    using base cands kind unfolding validate_transaction_accepts
    by (simp add: captured_transaction_def)
qed

lemma captured_bindings: "tx_bindings captured_transaction = Some [\<lparr>cb_slot = ''password'', cb_binding = ''shop_password''\<rparr>]"
  by (simp add: captured_transaction_def sample_transaction_def)

lemmas captured_trees = transaction_json_def captured_transaction_def sample_transaction_def candidate_json_def
  provenance_json_def binding_json_def omit_str_def optional_member_def

lemma captured_bound: "print_bound (transaction_json captured_transaction) \<le> 100000"
  by (simp add: captured_trees tx_v1_def kind_auth_def result_auth_v2_def)

lemma captured_digest: "\<exists>d. transaction_digest captured_transaction = Inr d"
proof -
  have "int (length (marshal (transaction_json captured_transaction))) \<le> tx_max_bytes"
    using captured_bound length_print [of True "transaction_json captured_transaction"]
    by (simp add: marshal_def tx_max_bytes_def)
  then have "canonical_bytes captured_transaction = Inr (marshal (transaction_json captured_transaction))"
    using captured_accepted accepted_canonical_order [OF captured_accepted] captured_bindings
    by (simp add: canonical_bytes_iff)
  then show ?thesis by (simp add: transaction_digest_def)
qed

lemma hex_text_utf8: "utf8_valid (sha256 x)"
  using sha256_plain [of x]
  by (intro ascii_text_utf8) (auto simp: plain_sha256_def ascii_text_def list_all_iff class_defs)

lemma sample_receipt_printable: "printable (capture_json sample_receipt)"
proof -
  have "list_all utf8_valid [capture_version, replicate 64 CHR ''a'', ''write'', ''login.json'', ''login.md'',
     ''shop.json'', ''shop.md'']"
    by code_simp
  then show ?thesis
    using transaction_printable [OF captured_accepted] capture_keys_utf8
    by (simp add: capture_json_def sample_receipt_def capture_file_json_def captured_def hex_text_utf8)
qed

lemma capture_file_neat: "neat (GStruct capture_file_fields) (capture_file_json f)"
  unfolding capture_file_json_def by (rule neat_struct) (auto simp: capture_file_fields_def)

lemma sample_receipt_neat: "neat (GStruct capture_fields) (capture_json sample_receipt)"
  unfolding capture_json_def
  by (rule neat_struct)
    (auto simp: capture_fields_def capture_file_neat sample_receipt_def transaction_neat [OF captured_bindings])

lemma sample_receipt_limits:
  "depth_of (capture_json sample_receipt) \<le> max_depth" "node_count (capture_json sample_receipt) \<le> max_nodes"
  "print_bound (capture_json sample_receipt) \<le> contract_max_bytes"
proof -
  have "depth_of (capture_json sample_receipt) \<le> 3 + 1"
    using transaction_depth [of "rc_transaction sample_receipt"]
    unfolding capture_json_def
    by (intro object_depth) (auto simp: foldr_max_le capture_file_json_def)
  then show "depth_of (capture_json sample_receipt) \<le> max_depth" by (simp add: max_depth_def)
  have "node_count (transaction_json captured_transaction) \<le> 100" by (simp add: captured_trees)
  then show "node_count (capture_json sample_receipt) \<le> max_nodes"
    by (simp add: capture_json_def sample_receipt_def captured_def capture_file_json_def max_nodes_def)
  show "print_bound (capture_json sample_receipt) \<le> contract_max_bytes"
    using captured_bound
    by (simp add: capture_json_def sample_receipt_def captured_def capture_file_json_def capture_version_def contract_max_bytes_def)
qed

lemma sample_receipt_document:
  "decode_contract (GStruct capture_fields) (marshal (capture_json sample_receipt))
     = Some (sort_json (capture_json sample_receipt))"
  unfolding marshal_def
  by (rule decode_contract_neat [OF sample_receipt_printable sample_receipt_neat sample_receipt_limits])

lemma sample_receipt_read: "capture_of_json (sort_json (capture_json sample_receipt)) = sample_receipt"
  by (rule capture_read_sorted [where bs = "[\<lparr>cb_slot = ''password'', cb_binding = ''shop_password''\<rparr>]"])
    (simp add: sample_receipt_def captured_bindings)

lemma hex_text_plain: "sha256_plain_text (sha256 x)"
  using sha256_plain [of x]
  by (auto simp: plain_sha256_def sha256_plain_text_def list_all_iff class_defs)

lemma sample_receipt_decoded: "decode_capture Some (marshal (capture_json sample_receipt)) = Some sample_receipt"
proof -
  have start: "sha256_plain_text (replicate 64 CHR ''a'')" by code_simp
  have "receipt_valid sample_receipt"
    using captured_accepted start by (simp add: receipt_valid_def sample_receipt_def captured_def)
      (simp add: captured_transaction_def)
  moreover have "scan_capture_files Some [] (rc_files sample_receipt)"
    by (simp add: sample_receipt_def captured_def hex_text_plain)
  ultimately show ?thesis
    by (simp add: decode_capture_def sample_receipt_document sample_receipt_read Let_def)
qed

text \<open>The digest of the receipt's bytes and the tagged digest of its transaction are given.\<close>

definition captured_options :: "bytes \<Rightarrow> capture_options" where
  "captured_options d =
     \<lparr>co_receipt = sha256 (marshal (capture_json sample_receipt)), co_start = replicate 64 CHR ''a'',
      co_transaction = d, co_files = captured, co_at = the (parse_instant ''2026-01-02T03:30:00Z'')\<rparr>"

lemma captured_time:
  "time_or_zero (pv_observed_at (tx_provenance sample_transaction)) \<le> the (parse_instant ''2026-01-02T03:30:00Z'')"
  "the (parse_instant ''2026-01-02T03:30:00Z'') < time_or_zero (pv_expires_at (tx_provenance sample_transaction))"
  by code_simp+

lemma sample_capture_verified:
  assumes "transaction_digest captured_transaction = Inr d"
  shows "verify_capture Some (marshal (capture_json sample_receipt)) (captured_options d) = Some sample_receipt"
proof -
  have start: "sha256_plain_text (replicate 64 CHR ''a'')" by code_simp
  have prov: "tx_provenance captured_transaction = tx_provenance sample_transaction"
    by (simp add: captured_transaction_def)
  have bytes: "scan_capture_bytes captured 0 [] (rc_files sample_receipt)
      = Some [''sha256:'' @ sha256 ''four'', ''sha256:'' @ sha256 ''three'', ''sha256:'' @ sha256 ''two'',
              ''sha256:'' @ sha256 ''one'']"
    by (simp add: sample_receipt_def captured_def max_capture_file_def max_capture_total_def)
  have facts: "rc_start sample_receipt = replicate 64 CHR ''a''" "rc_transaction sample_receipt = captured_transaction"
    by (simp_all add: sample_receipt_def)
  have cands: "list_all (\<lambda>c. ca_source c \<in> set [''sha256:'' @ sha256 ''four'', ''sha256:'' @ sha256 ''three'',
      ''sha256:'' @ sha256 ''two'', ''sha256:'' @ sha256 ''one'']
      \<and> ca_review c \<in> set [''sha256:'' @ sha256 ''four'', ''sha256:'' @ sha256 ''three'',
      ''sha256:'' @ sha256 ''two'', ''sha256:'' @ sha256 ''one'']) (tx_candidates captured_transaction)"
    by (simp add: captured_transaction_def)
  have count: "length captured = 4" by (simp add: captured_def)
  show ?thesis
    unfolding verify_capture_def captured_options_def
    using captured_time assms
    by (simp only: capture_options.simps count sample_receipt_decoded option.case facts prov hex_text_plain start bytes
        cands sample_receipt_document sample_receipt_read option.map if_False if_True)
      (simp add: not_less not_le)
qed

theorem capture_verified_witness:
  "\<exists>d. verify_capture Some (marshal (capture_json sample_receipt)) (captured_options d) = Some sample_receipt
     \<and> transaction_digest captured_transaction = Inr d
     \<and> tx_state (rc_transaction sample_receipt) = ''reviewed''"
proof -
  obtain d where d: "transaction_digest captured_transaction = Inr d" using captured_digest by blast
  show ?thesis using capture_verified [OF sample_capture_verified [OF d]] sample_capture_verified [OF d] d by blast
qed

end
