(* ===== verification/Report_Sample.thy ===== *)
theory Report_Sample
  imports Udon_Report Json_Conform
begin

text \<open>
  A report of the sample inventory as bytes: the run ended with its first invocation failed and
  its second not started.
\<close>

definition v5_report_tree :: json where
  "v5_report_tree =
     JObj [(''version'', JStr version_v5), (''run_id'', JStr ''run-1''), (''workflow_id'', JStr ''book''),
           (''workflow_digest'', JStr (''sha256:'' @ replicate 64 CHR ''a'')),
           (''inventory_complete'', JBool True), (''status'', JStr ''error''),
           (''started_at'', JStr ''2026-01-01T00:00:00Z''), (''finished_at'', JStr ''2026-01-01T00:00:09Z''),
           (''error_code'', JStr ''execution_failed''),
           (''steps'', JArr
              [JObj [(''step_id'', JStr ''open''), (''operation_id'', JStr ''page.open''),
                     (''invocation_id'', JStr ''open''), (''outcome'', JStr ''failed''),
                     (''started_at'', JStr ''2026-01-01T00:00:01Z''),
                     (''finished_at'', JStr ''2026-01-01T00:00:08Z''), (''error_code'', JStr ''operation_failed'')],
               JObj [(''step_id'', JStr ''send''), (''operation_id'', JStr ''form.send''),
                     (''invocation_id'', JStr ''send''), (''outcome'', JStr ''not_started'')]])]"

definition v5_report :: bytes where
  "v5_report = marshal v5_report_tree"

lemma v5_report_size: "int (length v5_report) \<le> max_report_bytes"
  by code_simp

lemma v5_report_decodes: "decode_strict (GStruct report_v5_fields) v5_report = Inr v5_report_tree"
  unfolding v5_report_def marshal_def
proof (rule decode_print)
  show "conforms (GStruct report_v5_fields) v5_report_tree"
    unfolding v5_report_tree_def
    by (rule conforms_struct)
      (simp_all add: report_v5_fields_def step_v5_fields_def ex_bool_eq conforms_struct)
qed code_simp+

lemma v5_report_checks:
  "closed_members report_v5_fields v5_report_tree"
  "\<not> terminal_field (report_of_json v5_report_tree) v5_report_tree"
  "check_raw_steps (r5_steps (report_of_json v5_report_tree))
     (elements (the (raw_member ''steps'' v5_report_tree))) = Inr ()"
  "raw_member ''steps'' v5_report_tree \<noteq> None"
  "validate_report_v5 (report_of_json v5_report_tree) = Inr ()"
  "same_run sample_inventory (report_of_json v5_report_tree)"
  "r5_status (report_of_json v5_report_tree) = ''error''"
  by code_simp+

lemma v5_report_accepted: "decode_v5 v5_report = Inr (report_of_json v5_report_tree)"
  using v5_report_size
  by (simp add: decode_v5_def v5_report_decodes Let_def v5_report_checks)

theorem observe_v5_facts_witness:
  "obs_state (observe_v5 sample_inventory v5_report) = ''validated''
   \<and> obs_report_status (observe_v5 sample_inventory v5_report) = ''error''
   \<and> length (obs_steps (observe_v5 sample_inventory v5_report)) = 2"
proof -
  let ?r = "report_of_json v5_report_tree"
  have "length (r5_steps ?r) = 2" by code_simp
  with observe_v5_facts [of sample_inventory v5_report] sample_inventory_valid v5_report_accepted
    v5_report_checks(6,7)
  show ?thesis by simp
qed

end
