(* ===== verification/Spec2Isabelle.thy ===== *)
theory Spec2Isabelle
  imports Udon_Report Browser_Transaction Approval Approval_Browser Browser_Discipline Evidence_Binding
    Trust_Package Package_Documents Run_Sample Transaction_Progress Transaction_Origin Verify_Sample
    Capture Report_Sample
begin

text \<open>
  Verification development for OpenUdon.

  \<^bold>\<open>The program.\<close> OpenUdon turns a reviewed workflow into a package, has a human approve the
  package, runs it in a trusted host and keeps evidence of the run. Its Go packages are closed
  validators and verifiers of documents that come from outside: strict JSON decoding
  (\<^verbatim>\<open>wire\<close>, \<^verbatim>\<open>browsercontract\<close>), digests (\<^verbatim>\<open>digest\<close>), the records of a package
  (\<^verbatim>\<open>packagev3\<close>, \<^verbatim>\<open>handoff\<close>), its inspection (\<^verbatim>\<open>trust\<close>), approvals and authorities
  (\<^verbatim>\<open>approval\<close>, \<^verbatim>\<open>authority\<close>), authoring transactions (\<^verbatim>\<open>browsertransaction\<close>),
  checks of a page against its profile (\<^verbatim>\<open>browserverify\<close>),
  execution reports (\<^verbatim>\<open>udonreport\<close>) and run evidence (\<^verbatim>\<open>runevidence\<close>). A later part
  never trusts an earlier one: it recomputes the digests and compares. The theorems are about
  exactly this: what an accepted document is bound to, what it excludes, and that documents are
  read back as they were written.

  \<^bold>\<open>Conventions.\<close> A Go string or byte slice is a HOL string, one character a byte. Machine
  integers of the sources are only compared or added below bounds the code checks, and are
  integers; SHA-256 runs on 32-bit words. A struct is a record, a nil slice or pointer that the
  code tells apart from an empty one is an option. A validator returns an error value or unit,
  with one value per early return, or a truth value where the code has one error for all. A loop
  over a list is a recursive function with the maps of the loop as accumulators. Instants are
  nanoseconds since the zero time of Go.

  \<^bold>\<open>The libraries of Go.\<close> \<^verbatim>\<open>Go_Strings\<close>, \<^verbatim>\<open>Go_Time\<close>, \<^verbatim>\<open>Go_Url\<close> and \<^verbatim>\<open>Go_Json\<close>
  model what the sources use of \<^verbatim>\<open>strings\<close>, \<^verbatim>\<open>time\<close>, \<^verbatim>\<open>net/url\<close>, \<^verbatim>\<open>net\<close>, \<^verbatim>\<open>unicode/utf8\<close>
  and \<^verbatim>\<open>encoding/json\<close>. JSON is lexed and parsed by a stack machine, so the model has no
  fuel; Go types are trees of the fields a destination has. \<^verbatim>\<open>Json_Text\<close> and
  \<^verbatim>\<open>Json_Parsed\<close> show that printing and parsing are inverse, \<^verbatim>\<open>Json_Conform\<close> that a
  tree of the shape of a type is decoded as itself.

  \<^bold>\<open>Theories and sources.\<close>
  \<^item> \<^verbatim>\<open>Wire\<close>: \<^verbatim>\<open>wire/json.go\<close>, \<^verbatim>\<open>wire/fields.go\<close>; \<^verbatim>\<open>Digest\<close>: \<^verbatim>\<open>digest/digest.go\<close>.
  \<^item> \<^verbatim>\<open>Report_V5\<close>, \<^verbatim>\<open>Udon_Report\<close>, \<^verbatim>\<open>Report_Sample\<close>: \<^verbatim>\<open>udonreport\<close>, the report
    versions, the inventory and the observation of report bytes.
  \<^item> \<^verbatim>\<open>Transition_System\<close>: contracts of state machines as locales. \<^verbatim>\<open>Browser_Transaction\<close>:
    \<^verbatim>\<open>browsertransaction/transaction.go\<close>, interpreted as a recording lifecycle;
    \<^verbatim>\<open>Transaction_Origin\<close>: its origins as the canonical spelling of their parts;
    \<^verbatim>\<open>Transaction_Progress\<close>: the runs that exist; \<^verbatim>\<open>Go_Decode\<close> (the decoder on members in any
    spelling and order) and \<^verbatim>\<open>Transaction_Wire\<close>: its decoding. \<^verbatim>\<open>Capture\<close>:
    \<^verbatim>\<open>browsertransaction/capture.go\<close>.
  \<^item> \<^verbatim>\<open>Authority\<close> (with the locale of sealed records) and \<^verbatim>\<open>Approval\<close>: \<^verbatim>\<open>authority\<close>,
    \<^verbatim>\<open>approval/approval.go\<close>.
  \<^item> \<^verbatim>\<open>Canonical_Json\<close>, \<^verbatim>\<open>Browser_Contract\<close>, \<^verbatim>\<open>Contract_Wire\<close>, \<^verbatim>\<open>Contract_Tree\<close>,
    \<^verbatim>\<open>Contract_Digest\<close>: \<^verbatim>\<open>browsercontract\<close>; \<^verbatim>\<open>Approval_Browser\<close>: \<^verbatim>\<open>approval/browser.go\<close>.
  \<^item> \<^verbatim>\<open>Browser_Trace\<close>, \<^verbatim>\<open>Browser_Discipline\<close>, \<^verbatim>\<open>Browser_Evidence\<close>,
    \<^verbatim>\<open>Evidence_Binding\<close>, \<^verbatim>\<open>Browser_Sample\<close>: \<^verbatim>\<open>runevidence/browser.go\<close>, the machine that
    reads the trace of a host, one definition per event, and the evidence of a browser run.
  \<^item> \<^verbatim>\<open>Handoff\<close>, \<^verbatim>\<open>Handoff_Review\<close>, \<^verbatim>\<open>Handoff_Digest\<close>, \<^verbatim>\<open>Handoff_Wire\<close>,
    \<^verbatim>\<open>Digest_Files\<close>: \<^verbatim>\<open>handoff\<close>; \<^verbatim>\<open>Trust_Package\<close>: \<^verbatim>\<open>trust/package.go\<close>.
  \<^item> \<^verbatim>\<open>Package_Records\<close>, \<^verbatim>\<open>Package_Inventory\<close>, \<^verbatim>\<open>Package_Documents\<close>:
    \<^verbatim>\<open>packagev3/records.go\<close>.
  \<^item> \<^verbatim>\<open>Browser_Verify\<close>, \<^verbatim>\<open>Verify_Report\<close>, \<^verbatim>\<open>Verify_Summary\<close>, \<^verbatim>\<open>Verify_Sample\<close>:
    \<^verbatim>\<open>browserverify/browserverify.go\<close>.
  \<^item> \<^verbatim>\<open>Run_Evidence\<close>, \<^verbatim>\<open>Run_Verify\<close>, \<^verbatim>\<open>Run_Binding\<close>, \<^verbatim>\<open>Run_Sample\<close>: the rest of
    \<^verbatim>\<open>runevidence\<close>.

  \<^bold>\<open>Lemma groups.\<close> For every validator there is a characterisation: it accepts exactly
  when a declarative condition on its argument holds, whatever order the code tests and however its
  loops accumulate. For every document there is a reading lemma: what is printed is decoded as what
  was written. From these follow the binding theorems (equal digests, equal contents), the
  invariants of the state machines (by induction over the runs or the trace), and the
  theorems on verification, which say what an accepted snapshot is.

  \<^bold>\<open>Parameters.\<close> Code outside the repository is an argument of the definitions that use it:
  the cleaning of relative paths (\<^verbatim>\<open>clean\<close>), the canonical form of an origin (\<^verbatim>\<open>po\<close>), the
  profile of a page as \<^verbatim>\<open>browserverify\<close> reads it, with its expiry, and the names of its output
  types (\<^verbatim>\<open>ty\<close>), the PEM, PKIX and Ed25519 functions of a signature, the payloads of
  asynchronous evidence, the JSON schema of broker evidence (\<^verbatim>\<open>broker_wire\<close>), and the answers of a
  context.

  \<^bold>\<open>Binding theorems.\<close> A theorem that equal digests mean equal contents ends in "or a SHA-256
  collision": two different inputs with one digest, exhibited. Nothing is assumed of the hash.
  \<^verbatim>\<open>json.Marshal\<close> writes a byte that is not valid UTF-8 as the replacement character U+FFFD, so
  a digest over its output cannot tell such bytes apart. Where the code restricts the strings (the
  transactions, the decoded configurations) the theorem needs no condition; where it does not (the
  origins in an authority, the review manifest, the inventories of \<^verbatim>\<open>DigestFiles\<close>, the scopes of
  a snapshot and of a package) the theorem asks for valid UTF-8 and says so, and
  \<^verbatim>\<open>invalid_versions_share_digest\<close> of \<^verbatim>\<open>Digest_Files\<close> shows why.

  \<^bold>\<open>Bounds.\<close> The limits are those of the code: 8 MiB, 64 levels and 100000 values for a strict
  document, 8 MiB for a canonical one, 256 KiB for a report, 1024 files for an inventory. No recursion
  needs fuel: the parsers recurse on the text that is left, by measure, and all else is structural.

  \<^bold>\<open>Simplifications.\<close> \<^verbatim>\<open>sort.Slice\<close> is not stable and the model sorts stably; this matters only
  for two elements with one key, which the validators exclude except for two outputs of a
  page action with one path and kind. Strict decoding into an untyped destination without exact
  numbers would refuse a number outside the range of a double; no call of the program decodes
  so, and the model accepts every number there.

  \<^bold>\<open>Not modelled.\<close> File access (reading a browser report from its file included), the comparison
  of two verification summaries, the assembly of a package and its walks over the types of the
  workflow modules (\<^verbatim>\<open>packagev3\<close> apart from its records), the authoring card with its schema
  validator, the heuristic search for secrets in literals, the fixture tool and the embedded
  schemas.
\<close>

end
